(* ===== verification/Prelude.thy ===== *)
theory Prelude
  imports Main "HOL-Library.Word" "HOL-Library.AList" "HOL-Library.Multiset"
begin

unbundle bit_operations_syntax

text \<open>
  The vocabulary the components share.

  \<^item> \<open>outcome\<close> and \<open>gom\<close>: a Go call that reads and writes a state, and returns, panics or
    blocks for ever, on a lock or on a peer that falls silent.  \<open>gret\<close>, \<open>gbind\<close> and \<open>gpanic\<close> sequence such calls.
  \<^item> \<open>gomap\<close>: a Go map as an association list with one entry per key.  The order of the list is
    the order in which a \<^verbatim>\<open>range\<close> loop happens to visit the entries; Go leaves that order open,
    so a statement about every list is a statement about every order.
  \<^item> the operations of package \<^verbatim>\<open>strings\<close> the program uses, on byte strings (\<open>char list\<close>,
    as Go strings are byte strings).
\<close>

named_theorems go_simps \<open>equations that run a sequenced computation\<close>
named_theorems map_simps \<open>lookups and updates of Go maps\<close>


section \<open>Outcomes and sequencing\<close>

datatype panic =
    NilDereference
  | NilMapAssignment
  | IndexOutOfRange
  | BadMetric
  | PanicMsg string

datatype 'a outcome = Return 'a | Panicked panic | Blocked

type_synonym ('s, 'a) gom = "'s \<Rightarrow> 'a outcome \<times> 's"

definition gret :: "'a \<Rightarrow> ('s, 'a) gom" where
  "gret x = (\<lambda>s. (Return x, s))"

definition gpanic :: "panic \<Rightarrow> ('s, 'a) gom" where
  "gpanic p = (\<lambda>s. (Panicked p, s))"

definition gbind :: "('s, 'a) gom \<Rightarrow> ('a \<Rightarrow> ('s, 'b) gom) \<Rightarrow> ('s, 'b) gom" where
  "gbind m f = (\<lambda>s. case m s of
       (Return x, s') \<Rightarrow> f x s'
     | (Panicked p, s') \<Rightarrow> (Panicked p, s')
     | (Blocked, s') \<Rightarrow> (Blocked, s'))"

definition gseq :: "('s, 'a) gom \<Rightarrow> ('s, 'b) gom \<Rightarrow> ('s, 'b) gom" where
  "gseq m k = gbind m (\<lambda>_. k)"

definition gupdate :: "('s \<Rightarrow> 's) \<Rightarrow> ('s, unit) gom" where
  "gupdate f = (\<lambda>s. (Return (), f s))"

lemma gret_run [simp, go_simps]: "gret x s = (Return x, s)"
  by (simp add: gret_def)

lemma gpanic_run [simp, go_simps]: "gpanic p s = (Panicked p, s)"
  by (simp add: gpanic_def)

lemma gupdate_run [simp, go_simps]: "gupdate f s = (Return (), f s)"
  by (simp add: gupdate_def)

lemma gbind_return [go_simps]: "m s = (Return x, s') \<Longrightarrow> gbind m f s = f x s'"
  by (simp add: gbind_def)

lemma gbind_panic [go_simps]: "m s = (Panicked p, s') \<Longrightarrow> gbind m f s = (Panicked p, s')"
  by (simp add: gbind_def)

lemma gbind_blocked [go_simps]: "m s = (Blocked, s') \<Longrightarrow> gbind m f s = (Blocked, s')"
  by (simp add: gbind_def)

lemma gbind_gret [simp]: "gbind (gret x) f = f x"
  by (simp add: gbind_def fun_eq_iff)

lemma gbind_gupdate [simp]: "gbind (gupdate f) k s = k () (f s)"
  by (simp add: gbind_def)

lemma gbind_ReturnE:
  assumes "gbind m f s = (Return y, t)"
  obtains x s' where "m s = (Return x, s')" and "f x s' = (Return y, t)"
  using assms by (auto simp: gbind_def split: prod.splits outcome.splits)

lemma gbind_cases:
  "gbind m f s = r \<Longrightarrow>
     (\<exists>x s'. m s = (Return x, s') \<and> f x s' = r)
   \<or> (\<exists>p s'. m s = (Panicked p, s') \<and> r = (Panicked p, s'))
   \<or> (\<exists>s'. m s = (Blocked, s') \<and> r = (Blocked, s'))"
  by (auto simp: gbind_def split: prod.splits outcome.splits)

lemma gbind_assoc: "gbind (gbind m f) g = gbind m (\<lambda>x. gbind (f x) g)"
  by (auto simp: gbind_def fun_eq_iff split: prod.splits outcome.splits)

text \<open>
  Correctness of a sequenced computation: from a state with \<open>P\<close> it returns, without a panic, a value
  and a state with \<open>Q\<close>.  Only when \<open>wait\<close> is true may it also wait for ever; with \<open>False\<close> this is
  total correctness.
\<close>

named_theorems ok_rules \<open>rules that prove correctness along the structure of a computation\<close>

definition ok :: "bool \<Rightarrow> ('s \<Rightarrow> bool) \<Rightarrow> ('s, 'a) gom \<Rightarrow> ('a \<Rightarrow> 's \<Rightarrow> bool) \<Rightarrow> bool" where
  "ok wait P m Q \<longleftrightarrow> (\<forall>s. P s \<longrightarrow> (\<exists>x s'. m s = (Return x, s') \<and> Q x s') \<or> wait \<and> fst (m s) = Blocked)"

lemma okI: "(\<And>s. P s \<Longrightarrow> \<exists>x s'. m s = (Return x, s') \<and> Q x s') \<Longrightarrow> ok wait P m Q"
  by (simp add: ok_def)

lemma okD: "ok False P m Q \<Longrightarrow> P s \<Longrightarrow> \<exists>x s'. m s = (Return x, s') \<and> Q x s'"
  by (simp add: ok_def)

lemma ok_cases:
  assumes "ok wait P m Q" and "P s" and "m s = (r, s')"
  obtains x where "r = Return x" "Q x s'" | "wait" "r = Blocked"
  using assms unfolding ok_def by force

lemma ok_result: "ok wait P m Q \<Longrightarrow> P s \<Longrightarrow> m s = (Return x, s') \<Longrightarrow> Q x s'"
  by (auto simp: ok_def)

lemma ok_may_wait: "ok False P m Q \<Longrightarrow> ok wait P m Q"
  by (auto simp: ok_def)

lemma ok_gret [ok_rules]: "(\<And>s. P s \<Longrightarrow> Q x s) \<Longrightarrow> ok wait P (gret x) Q"
  by (simp add: ok_def)

lemma ok_gupdate [ok_rules]: "(\<And>s. P s \<Longrightarrow> Q () (f s)) \<Longrightarrow> ok wait P (gupdate f) Q"
  by (simp add: ok_def)

lemma ok_gbind [ok_rules]:
  assumes m: "ok wait P m R" and f: "\<And>x. ok wait (R x) (f x) Q" shows "ok wait P (gbind m f) Q"
  unfolding ok_def
proof (intro allI impI)
  fix s assume s: "P s"
  obtain r s1 where r: "m s = (r, s1)" by fastforce
  from m s r show "(\<exists>x s'. gbind m f s = (Return x, s') \<and> Q x s') \<or> wait \<and> fst (gbind m f s) = Blocked"
  proof (cases rule: ok_cases)
    case (1 x)
    with f [of x] r show ?thesis by (auto simp: ok_def gbind_def)
  qed (use r in \<open>simp add: gbind_def\<close>)
qed

lemma ok_gseq [ok_rules]: "ok wait P m R \<Longrightarrow> (\<And>x. ok wait (R x) k Q) \<Longrightarrow> ok wait P (gseq m k) Q"
  unfolding gseq_def by (rule ok_gbind)

lemma ok_weaken:
  "ok wait P m Q \<Longrightarrow> (\<And>s. P' s \<Longrightarrow> P s) \<Longrightarrow> (\<And>x s. Q x s \<Longrightarrow> Q' x s) \<Longrightarrow> ok wait P' m Q'"
  by (fastforce simp: ok_def)

lemma ok_if [ok_rules]:
  "(b \<Longrightarrow> ok wait P m Q) \<Longrightarrow> (\<not> b \<Longrightarrow> ok wait P m' Q) \<Longrightarrow> ok wait P (if b then m else m') Q"
  by simp

text \<open>An invariant that a computation keeps however it ends.\<close>

named_theorems keeps_rules \<open>which computations keep an invariant\<close>

definition keeps :: "('s \<Rightarrow> bool) \<Rightarrow> ('s, 'a) gom \<Rightarrow> bool" where
  "keeps P m \<longleftrightarrow> (\<forall>s. P s \<longrightarrow> P (snd (m s)))"

lemma keepsI: "(\<And>s. P s \<Longrightarrow> P (snd (m s))) \<Longrightarrow> keeps P m"
  by (simp add: keeps_def)

lemma keepsD: "keeps P m \<Longrightarrow> P s \<Longrightarrow> m s = (r, s') \<Longrightarrow> P s'"
  by (auto simp: keeps_def)

lemma keeps_gret [keeps_rules]: "keeps P (gret x)"
  by (simp add: keeps_def)

lemma keeps_gpanic [keeps_rules]: "keeps P (gpanic p)"
  by (simp add: keeps_def)

lemma keeps_gbind [keeps_rules]: "keeps P m \<Longrightarrow> (\<And>x. keeps P (f x)) \<Longrightarrow> keeps P (gbind m f)"
  by (fastforce simp: keeps_def gbind_def split: prod.splits outcome.splits)

lemma keeps_gseq [keeps_rules]: "keeps P m \<Longrightarrow> keeps P k \<Longrightarrow> keeps P (gseq m k)"
  unfolding gseq_def by (rule keeps_gbind)

lemma keeps_gupdate: "(\<And>s. P s \<Longrightarrow> P (f s)) \<Longrightarrow> keeps P (gupdate f)"
  by (simp add: keeps_def)

lemma keeps_if [keeps_rules]: "keeps P m \<Longrightarrow> keeps P m' \<Longrightarrow> keeps P (if b then m else m')"
  by simp

lemma keeps_case_option [keeps_rules]:
  "keeps P m \<Longrightarrow> (\<And>x. keeps P (f x)) \<Longrightarrow> keeps P (case v of None \<Rightarrow> m | Some x \<Rightarrow> f x)"
  by (simp split: option.splits)

lemma keeps_case_sum [keeps_rules]:
  "(\<And>x. keeps P (f x)) \<Longrightarrow> (\<And>x. keeps P (g x)) \<Longrightarrow> keeps P (case v of Inl x \<Rightarrow> f x | Inr x \<Rightarrow> g x)"
  by (simp split: sum.splits)

lemma ok_keeps: "ok False P m Q \<Longrightarrow> (\<And>x s. Q x s \<Longrightarrow> P s) \<Longrightarrow> keeps P m"
  by (fastforce simp: ok_def keeps_def)


text \<open>
  Safety of a computation that may panic: it keeps an invariant however it ends, and it waits for ever
  only when \<open>wait\<close> is true.  A panic is an end like another, because the caller recovers from it.
\<close>

named_theorems safe_rules \<open>which computations keep an invariant\<close>

definition safe :: "bool \<Rightarrow> ('s \<Rightarrow> bool) \<Rightarrow> ('s, 'a) gom \<Rightarrow> bool" where
  "safe wait P m \<longleftrightarrow> (\<forall>s. P s \<longrightarrow> (if fst (m s) = Blocked then wait else P (snd (m s))))"

lemma safeI: "(\<And>s. P s \<Longrightarrow> if fst (m s) = Blocked then wait else P (snd (m s))) \<Longrightarrow> safe wait P m"
  by (simp add: safe_def)

lemma safeD: "safe wait P m \<Longrightarrow> P s \<Longrightarrow> m s = (r, s') \<Longrightarrow> if r = Blocked then wait else P s'"
  by (auto simp: safe_def)

lemma ok_safe: "ok wait P m (\<lambda>_. P) \<Longrightarrow> safe wait P m"
  by (fastforce simp: ok_def safe_def)

lemma safe_gret [safe_rules]: "safe wait P (gret x)"
  by (simp add: safe_def)

lemma safe_gpanic [safe_rules]: "safe wait P (gpanic p)"
  by (simp add: safe_def)

lemma safe_gupdate: "(\<And>s. P s \<Longrightarrow> P (f s)) \<Longrightarrow> safe wait P (gupdate f)"
  by (simp add: safe_def)

lemma safe_gbind [safe_rules]:
  assumes m: "safe wait P m" and f: "\<And>x. safe wait P (f x)" shows "safe wait P (gbind m f)"
proof (rule safeI)
  fix s assume s: "P s"
  obtain r s1 where r: "m s = (r, s1)" by fastforce
  note i = safeD [OF m s r]
  show "if fst (gbind m f s) = Blocked then wait else P (snd (gbind m f s))"
  proof (cases r)
    case (Return x)
    then have "P s1" using i by simp
    with f [of x] r Return show ?thesis by (simp add: safe_def gbind_def)
  qed (use r i in \<open>simp_all add: gbind_def\<close>)
qed

lemma safe_gseq [safe_rules]: "safe wait P m \<Longrightarrow> safe wait P k \<Longrightarrow> safe wait P (gseq m k)"
  unfolding gseq_def by (rule safe_gbind)

lemma safe_if [safe_rules]:
  "(b \<Longrightarrow> safe wait P m) \<Longrightarrow> (\<not> b \<Longrightarrow> safe wait P m') \<Longrightarrow> safe wait P (if b then m else m')"
  by simp

lemma safe_option [safe_rules]:
  "safe wait P m \<Longrightarrow> (\<And>x. safe wait P (f x)) \<Longrightarrow> safe wait P (case v of None \<Rightarrow> m | Some x \<Rightarrow> f x)"
  by (simp split: option.splits)

lemma safe_sum [safe_rules]:
  "(\<And>x. safe wait P (f x)) \<Longrightarrow> (\<And>x. safe wait P (g x)) \<Longrightarrow>
     safe wait P (case v of Inl x \<Rightarrow> f x | Inr x \<Rightarrow> g x)"
  by (simp split: sum.splits)

lemma safe_prod [safe_rules]: "(\<And>x y. safe wait P (f x y)) \<Longrightarrow> safe wait P (case v of (x, y) \<Rightarrow> f x y)"
  by (simp split: prod.splits)

lemma safe_list [safe_rules]:
  "safe wait P m \<Longrightarrow> (\<And>x xs. safe wait P (f x xs)) \<Longrightarrow> safe wait P (case v of [] \<Rightarrow> m | x # xs \<Rightarrow> f x xs)"
  by (simp split: list.splits)


section \<open>Go maps\<close>

type_synonym 'v gomap = "(string \<times> 'v) list"

definition mget :: "'v gomap \<Rightarrow> string \<Rightarrow> 'v option" where
  "mget m k = map_of m k"

definition mput :: "string \<Rightarrow> 'v \<Rightarrow> 'v gomap \<Rightarrow> 'v gomap" where
  "mput k v m = AList.update k v m"

definition mkeys :: "'v gomap \<Rightarrow> string list" where
  "mkeys m = map fst m"

definition mlookup :: "string gomap \<Rightarrow> string \<Rightarrow> string" where
  \<comment> \<open>\<^verbatim>\<open>m[k]\<close> in a value position: the zero value for a key that is not there\<close>
  "mlookup m k = (case map_of m k of None \<Rightarrow> '''' | Some v \<Rightarrow> v)"

definition wf_map :: "'v gomap \<Rightarrow> bool" where
  "wf_map m \<longleftrightarrow> distinct (map fst m)"

lemma mget_mput [simp, map_simps]: "mget (mput k v m) k' = (if k' = k then Some v else mget m k')"
  by (simp add: mget_def mput_def update_conv')

lemma mlookup_mput [simp, map_simps]: "mlookup (mput k v m) k' = (if k' = k then v else mlookup m k')"
  by (simp add: mlookup_def mput_def update_conv')

lemma mlookup_mget: "mlookup m k = (case mget m k of None \<Rightarrow> '''' | Some v \<Rightarrow> v)"
  by (simp add: mlookup_def mget_def)

lemma mget_Nil [simp, map_simps]: "mget [] k = None"
  by (simp add: mget_def)

lemma mlookup_Nil [simp, map_simps]: "mlookup [] k = ''''"
  by (simp add: mlookup_def)

lemma wf_map_Nil [simp]: "wf_map []"
  by (simp add: wf_map_def)

lemma wf_map_mput [simp]: "wf_map m \<Longrightarrow> wf_map (mput k v m)"
  by (simp add: wf_map_def mput_def distinct_update)

lemma set_mkeys_mput [simp]: "set (mkeys (mput k v m)) = insert k (set (mkeys m))"
  by (induction m) (auto simp: mkeys_def mput_def)

lemma mget_None_iff: "mget m k = None \<longleftrightarrow> k \<notin> set (mkeys m)"
  by (auto simp: mget_def mkeys_def map_of_eq_None_iff)

lemma mget_in_set: "mget m k = Some v \<Longrightarrow> (k, v) \<in> set m"
  by (auto simp: mget_def map_of_SomeD)

lemma mget_iff_in_set: "wf_map m \<Longrightarrow> mget m k = Some v \<longleftrightarrow> (k, v) \<in> set m"
  by (auto simp: mget_def wf_map_def)

lemma mput_not_Nil [simp]: "mput k v m \<noteq> []"
  by (induction m) (auto simp: mput_def)


section \<open>Package strings\<close>

definition has_prefix :: "string \<Rightarrow> string \<Rightarrow> bool" where
  "has_prefix s p \<longleftrightarrow> take (length p) s = p"

fun cut :: "string \<Rightarrow> string \<Rightarrow> (string \<times> string) option" where
  \<comment> \<open>\<^verbatim>\<open>strings.Cut(s, sep)\<close>: the text before and after the first occurrence of \<open>sep\<close>\<close>
  "cut s sep =
     (if has_prefix s sep then Some ([], drop (length sep) s)
      else case s of
             [] \<Rightarrow> None
           | c # cs \<Rightarrow> (case cut cs sep of
                          None \<Rightarrow> None
                        | Some (before, after) \<Rightarrow> Some (c # before, after)))"

declare cut.simps [simp del]

lemma cut_Some_eq: "cut s sep = Some (a, b) \<Longrightarrow> s = a @ sep @ b"
proof (induction s arbitrary: a b)
  case Nil
  then show ?case
    by (subst (asm) cut.simps) (auto simp: has_prefix_def split: if_splits)
next
  case (Cons c cs)
  show ?case
  proof (cases "has_prefix (c # cs) sep")
    case True
    with Cons.prems have "a = []" and b: "b = drop (length sep) (c # cs)"
      by (subst (asm) cut.simps, simp)+
    with True show ?thesis
      unfolding has_prefix_def by (metis append_Nil append_take_drop_id)
  next
    case False
    with Cons.prems obtain a' where "cut cs sep = Some (a', b)" and "a = c # a'"
      by (subst (asm) cut.simps) (auto split: option.splits)
    with Cons.IH show ?thesis by simp
  qed
qed

lemma cut_shorter:
  assumes "cut s sep = Some (a, b)" and "sep \<noteq> []"
  shows "length b < length s"
proof -
  from assms(1) have "s = a @ sep @ b" by (rule cut_Some_eq)
  with assms(2) show ?thesis by simp
qed

text \<open>\<^verbatim>\<open>strings.Split\<close>: an empty separator explodes the string, as in Go (on ASCII text).\<close>

function (sequential) split_on :: "string \<Rightarrow> string \<Rightarrow> string list" where
  "split_on s [] = map (\<lambda>c. [c]) s"
| "split_on s sep = (case cut s sep of None \<Rightarrow> [s] | Some (a, b) \<Rightarrow> a # split_on b sep)"
  by pat_completeness auto
termination
  by (relation "measure (\<lambda>(s, sep). length s)") (auto dest: cut_shorter)

declare split_on.simps(2) [simp del]

text \<open>A separator of one character, the only kind the program uses, cuts by scanning.\<close>

lemma cut_char_Nil [simp]: "cut [] [c] = None"
  by (subst cut.simps) (simp add: has_prefix_def)

lemma cut_char_Cons [simp]:
  "cut (x # xs) [c] =
     (if x = c then Some ([], xs)
      else map_option (\<lambda>(a, b). (x # a, b)) (cut xs [c]))"
  by (subst cut.simps) (auto simp: has_prefix_def split: option.splits)

lemma cut_char_None_iff: "cut s [c] = None \<longleftrightarrow> c \<notin> set s"
  by (induction s) auto

lemma cut_char_append: "c \<notin> set a \<Longrightarrow> cut (a @ c # b) [c] = Some (a, b)"
  by (induction a) auto

lemma cut_char_no_sep: "cut s [c] = Some (a, b) \<Longrightarrow> c \<notin> set a"
  by (induction s arbitrary: a b) (auto split: if_splits)

lemma split_on_none: "c \<notin> set s \<Longrightarrow> split_on s [c] = [s]"
  by (simp add: split_on.simps(2) cut_char_None_iff [THEN iffD2])

lemma split_on_append: "c \<notin> set a \<Longrightarrow> split_on (a @ c # b) [c] = a # split_on b [c]"
  by (simp add: split_on.simps(2) cut_char_append)

lemma split_on_not_Nil [simp]: "split_on s (c # sep) \<noteq> []"
  by (subst split_on.simps) (auto split: option.splits)

text \<open>\<^verbatim>\<open>strings.ReplaceAll(s, old, new)\<close> for single bytes.\<close>

definition replace_byte :: "char \<Rightarrow> char \<Rightarrow> string \<Rightarrow> string" where
  "replace_byte old new s = map (\<lambda>c. if c = old then new else c) s"

lemma replace_byte_notin: "old \<noteq> new \<Longrightarrow> old \<notin> set (replace_byte old new s)"
  by (auto simp: replace_byte_def)

text \<open>\<^verbatim>\<open>strings.Join(xs, sep)\<close>.\<close>

fun join_with :: "string \<Rightarrow> string list \<Rightarrow> string" where
  "join_with sep [] = []"
| "join_with sep [x] = x"
| "join_with sep (x # xs) = x @ sep @ join_with sep xs"

text \<open>Splitting undoes joining, for parts without the separator.\<close>

lemma split_on_join:
  "xs \<noteq> [] \<Longrightarrow> (\<forall>x \<in> set xs. c \<notin> set x) \<Longrightarrow> split_on (join_with [c] xs) [c] = xs"
proof (induction "[c]" xs rule: join_with.induct)
  case (3 x y ys)
  then show ?case by (simp add: split_on_append)
qed (auto simp: split_on_none)

text \<open>Lower case of ASCII letters, as inside \<^verbatim>\<open>strconv\<close> and \<^verbatim>\<open>time\<close>; other bytes are kept.\<close>

definition lower_char :: "char \<Rightarrow> char" where
  "lower_char c = (let n = (of_char c :: nat) in
     if 65 \<le> n \<and> n \<le> 90 then char_of (n + 32) else c)"

definition to_lower :: "string \<Rightarrow> string" where
  "to_lower s = map lower_char s"

text \<open>
  \<^verbatim>\<open>strings.ToLower\<close>, whose results are only compared with ASCII text.  Two characters outside ASCII have an
  ASCII letter as their lower case, the dotted capital I and the Kelvin sign; all others keep the text
  different from any ASCII text and are left as they are.
\<close>

fun ToLower :: "string \<Rightarrow> string" where
  "ToLower [] = []"
| "ToLower (c # s) =
     (if c = CHR 0xC4 \<and> take 1 s = [CHR 0xB0] then CHR ''i'' # ToLower (drop 1 s)
      else if c = CHR 0xE2 \<and> take 2 s = [CHR 0x84, CHR 0xAA] then CHR ''k'' # ToLower (drop 2 s)
      else lower_char c # ToLower s)"

text \<open>
  \<^verbatim>\<open>strings.TrimSpace\<close>: the encodings (UTF-8) of the characters \<^verbatim>\<open>unicode.IsSpace\<close>
  accepts are removed from both ends.
\<close>

definition space_encodings :: "string list" where
  "space_encodings =
     [[CHR 0x09], [CHR 0x0A], [CHR 0x0B], [CHR 0x0C], [CHR 0x0D], [CHR 0x20],
      [CHR 0xC2, CHR 0x85], [CHR 0xC2, CHR 0xA0],
      [CHR 0xE1, CHR 0x9A, CHR 0x80],
      [CHR 0xE2, CHR 0x80, CHR 0x80], [CHR 0xE2, CHR 0x80, CHR 0x81],
      [CHR 0xE2, CHR 0x80, CHR 0x82], [CHR 0xE2, CHR 0x80, CHR 0x83],
      [CHR 0xE2, CHR 0x80, CHR 0x84], [CHR 0xE2, CHR 0x80, CHR 0x85],
      [CHR 0xE2, CHR 0x80, CHR 0x86], [CHR 0xE2, CHR 0x80, CHR 0x87],
      [CHR 0xE2, CHR 0x80, CHR 0x88], [CHR 0xE2, CHR 0x80, CHR 0x89],
      [CHR 0xE2, CHR 0x80, CHR 0x8A], [CHR 0xE2, CHR 0x80, CHR 0xA8],
      [CHR 0xE2, CHR 0x80, CHR 0xA9], [CHR 0xE2, CHR 0x80, CHR 0xAF],
      [CHR 0xE2, CHR 0x81, CHR 0x9F], [CHR 0xE3, CHR 0x80, CHR 0x80]]"

fun strip_first :: "string list \<Rightarrow> string \<Rightarrow> string option" where
  "strip_first [] s = None"
| "strip_first (p # ps) s =
     (if p \<noteq> [] \<and> has_prefix s p then Some (drop (length p) s) else strip_first ps s)"

lemma strip_first_shorter: "strip_first ps s = Some t \<Longrightarrow> length t < length s"
proof (induction ps s rule: strip_first.induct)
  case (2 p ps s)
  then show ?case
    by (cases s) (auto simp: has_prefix_def split: if_splits)
qed simp

function trim_left :: "string list \<Rightarrow> string \<Rightarrow> string" where
  "trim_left ps s = (case strip_first ps s of None \<Rightarrow> s | Some t \<Rightarrow> trim_left ps t)"
  by pat_completeness auto
termination
  by (relation "measure (\<lambda>(ps, s). length s)") (auto dest: strip_first_shorter)

declare trim_left.simps [simp del]

definition trim_space :: "string \<Rightarrow> string" where
  "trim_space s =
     rev (trim_left (map rev space_encodings) (rev (trim_left space_encodings s)))"

end
