(* ===== verification/Errors.thy ===== *)
theory Errors
  imports Prelude
begin

text \<open>
  The values that cross component borders: the sentences and replies of \<^verbatim>\<open>routeros/proto\<close>
  and \<^verbatim>\<open>routeros\<close>, and the error values of every package.  A Go \<^verbatim>\<open>error\<close> is
  \<open>goerror option\<close> (\<open>None\<close> for nil); a Go function with results \<^verbatim>\<open>(T, error)\<close> returns
  \<open>goerror + 't\<close>.  \<open>Wrapf fmt args e\<close> is \<^verbatim>\<open>fmt.Errorf(fmt, args..., e)\<close> with a \<^verbatim>\<open>%w\<close> verb: the
  text is kept unformatted, with the string arguments.  \<open>Joined\<close> is the value of
  \<^verbatim>\<open>errors.Join\<close>.
\<close>

record sentence =
  sen_map :: "string gomap"
  sen_word :: string
  sen_tag :: string

record reply =
  rep_done :: "sentence option"
  rep_re :: "sentence list"

datatype goerror =
    EOF | ErrUnexpectedEOF | ErrShortWrite | ErrConn string
  | ErrSyntax string | ErrRange string | ErrHex string | ParseError string
  | InvalidSentenceWordError string
  | UnknownReplyError sentence | DeviceError sentence | ErrLoginNoRet
  | ErrEmptyValue | ErrInvalidDuration | ErrUnknownUnit | InvalidInputError string
  | ErrUnknownDevice | MissingFieldError string | UnknownFeatureError string
  | UnknownProfileError string | InvalidFieldValueError string string
  | ErrInvalidValueType | InvalidConfigurationError string
  | BuilderError string
  | UnexpectedResponseError string reply | NotSupportedError string
  | ErrNoServersDefined | ErrInvalidResponse | ErrTooManyErrors | ErrInvalidVersion
  | ErrMissingParam
  | Wrapf string "string list" goerror
  | Joined "goerror list"

text \<open>\<^verbatim>\<open>errors.Join\<close>: nil arguments are dropped; nil when all are nil.\<close>

definition somes :: "'a option list \<Rightarrow> 'a list" where
  "somes xs = List.map_filter (\<lambda>x. x) xs"

definition errors_join :: "goerror option list \<Rightarrow> goerror option" where
  "errors_join es = (case somes es of [] \<Rightarrow> None | ds \<Rightarrow> Some (Joined ds))"

text \<open>\<^verbatim>\<open>errors.Is(err, target)\<close>: the target is somewhere in the tree of wrapped errors.\<close>

fun err_is :: "goerror \<Rightarrow> goerror \<Rightarrow> bool" where
  "err_is e t = (e = t \<or> (case e of
       Wrapf _ _ e' \<Rightarrow> err_is e' t
     | Joined es \<Rightarrow> list_ex (\<lambda>x. err_is x t) es
     | _ \<Rightarrow> False))"

declare err_is.simps [simp del]

definition opt_is :: "goerror option \<Rightarrow> goerror \<Rightarrow> bool" where
  "opt_is r t = (case r of None \<Rightarrow> False | Some e \<Rightarrow> err_is e t)"

lemma somes_simps [simp]:
  "somes [] = []" "somes (None # xs) = somes xs" "somes (Some x # xs) = x # somes xs"
  by (simp_all add: somes_def List.map_filter_simps)

lemma somes_eq_Nil: "somes xs = [] \<longleftrightarrow> (\<forall>x \<in> set xs. x = None)"
proof (induction xs)
  case (Cons x xs)
  then show ?case by (cases x) auto
qed simp

lemma in_set_somes [simp]: "x \<in> set (somes xs) \<longleftrightarrow> Some x \<in> set xs"
proof (induction xs)
  case (Cons y xs)
  then show ?case by (cases y) auto
qed simp

lemma errors_join_None_iff: "errors_join es = None \<longleftrightarrow> (\<forall>e \<in> set es. e = None)"
  by (simp add: errors_join_def somes_eq_Nil [symmetric] split: list.splits)

lemma errors_join_None [simp]: "errors_join [None, None] = None"
  by (simp add: errors_join_def)

lemma errors_join_Some [simp]: "errors_join [a, Some e] \<noteq> None"
  by (simp add: errors_join_None_iff)

lemma err_is_simps [simp]:
  "err_is (Wrapf f a e) t \<longleftrightarrow> Wrapf f a e = t \<or> err_is e t"
  "err_is (Joined es) t \<longleftrightarrow> Joined es = t \<or> (\<exists>x \<in> set es. err_is x t)"
  by (subst err_is.simps, simp add: list_ex_iff)+

lemma err_is_refl [simp]: "err_is e e"
  by (subst err_is.simps) simp

fun plain_error :: "goerror \<Rightarrow> bool" where
  "plain_error (Wrapf _ _ _) = False"
| "plain_error (Joined _) = False"
| "plain_error _ = True"

lemma err_is_plain: "plain_error e \<Longrightarrow> err_is e t \<longleftrightarrow> e = t"
  by (subst err_is.simps) (cases e, simp_all)

lemma opt_is_simps [simp]:
  "opt_is None t = False" "opt_is (Some e) t = err_is e t"
  by (simp_all add: opt_is_def)

lemma plain_not_Joined: "plain_error t \<Longrightarrow> Joined es \<noteq> t"
  and plain_not_Wrapf: "plain_error t \<Longrightarrow> Wrapf f a e \<noteq> t"
  by auto

lemma opt_is_errors_join:
  "plain_error t \<Longrightarrow> opt_is (errors_join es) t \<longleftrightarrow> (\<exists>e \<in> set es. opt_is e t)"
proof -
  assume t: "plain_error t"
  have "opt_is (errors_join es) t \<longleftrightarrow> (\<exists>x. Some x \<in> set es \<and> err_is x t)"
    by (auto simp: errors_join_def plain_not_Joined [OF t] in_set_somes [symmetric]
        simp del: in_set_somes split: list.splits)
  then show ?thesis
    by (auto simp: opt_is_def split: option.splits)
qed

text \<open>
  The loop \<^verbatim>\<open>for _, x := range xs { if err := f(x); err != nil { errs = errors.Join(errs, err) } }\<close>,
  the shape of most collectors: every element is visited, and the errors are joined.
\<close>

definition add_error :: "goerror option \<Rightarrow> goerror option \<Rightarrow> goerror option" where
  "add_error errs e = (case e of None \<Rightarrow> errs | Some _ \<Rightarrow> errors_join [errs, e])"

fun join_loop :: "('a \<Rightarrow> ('s, goerror option) gom) \<Rightarrow> 'a list \<Rightarrow> goerror option
    \<Rightarrow> ('s, goerror option) gom" where
  "join_loop f [] errs = gret errs"
| "join_loop f (x # xs) errs = gbind (f x) (\<lambda>e. join_loop f xs (add_error errs e))"

definition wrap_err :: "string \<Rightarrow> string list \<Rightarrow> goerror option \<Rightarrow> goerror option" where
  "wrap_err fmt args e = map_option (Wrapf fmt args) e"

lemma wrap_err_simps [simp]:
  "wrap_err f a None = None" "wrap_err f a (Some e) = Some (Wrapf f a e)"
  by (simp_all add: wrap_err_def)

lemma add_error_simps [simp]:
  "add_error errs None = errs" "add_error None (Some e) = Some (Joined [e])"
  "add_error (Some d) (Some e) = Some (Joined [d, e])"
  by (simp_all add: add_error_def errors_join_def)

lemma add_error_None_iff [simp]: "add_error a b = None \<longleftrightarrow> a = None \<and> b = None"
  by (cases a; cases b) simp_all

end
