(* ===== verification/Float64.thy ===== *)
theory Float64
  imports Complex_Main Prelude
begin

text \<open>
  Go's \<^verbatim>\<open>float64\<close>: IEEE 754 binary64 with rounding to nearest, ties to even.  A finite value
  \<open>Fin neg m e\<close> is \<open>m * 2 ^ e\<close> with a sign; it is canonical when \<open>m < 2 ^ 53\<close> and either
  \<open>2 ^ 52 \<le> m\<close> or \<open>e = -1074\<close> (zero and the subnormal numbers).  Every operation computes the
  exact rational result and rounds it once (\<open>round_ratio\<close>), as the standard asks.
\<close>

datatype f64 = NaN | Inf bool | Fin bool int int

fun ilog2 :: "int \<Rightarrow> int" where
  "ilog2 n = (if n \<le> 1 then 0 else 1 + ilog2 (n div 2))"

declare ilog2.simps [simp del]

definition scaled :: "int \<Rightarrow> int \<Rightarrow> int \<Rightarrow> int \<times> int" where
  \<comment> \<open>numerator and denominator of \<open>n / d / 2 ^ e\<close>\<close>
  "scaled n d e = (if 0 \<le> e then (n, d * 2 ^ nat e) else (n * 2 ^ nat (- e), d))"

definition half_even :: "int \<Rightarrow> int \<Rightarrow> int" where
  \<comment> \<open>the integer nearest to \<open>n / d\<close>, ties to even\<close>
  "half_even n d =
     (let q = n div d; r = n mod d
      in if 2 * r < d then q else if d < 2 * r then q + 1 else if even q then q else q + 1)"

definition round_exp :: "int \<Rightarrow> int \<Rightarrow> int" where
  \<comment> \<open>the exponent at which \<open>n / d\<close> has 53 significant bits, at least -1074\<close>
  "round_exp n d =
     (let e0 = ilog2 n - ilog2 d - 53; (a, b) = scaled n d e0
      in max (-1074) (if 2 ^ 53 \<le> a div b then e0 + 1 else e0))"

definition round_ratio :: "bool \<Rightarrow> int \<Rightarrow> int \<Rightarrow> f64" where
  "round_ratio neg n d =
     (if n = 0 then Fin neg 0 (-1074)
      else let e = round_exp n d; (a, b) = scaled n d e; q = half_even a b
           in if q = 2 ^ 53
              then (if 971 < e + 1 then Inf neg else Fin neg (2 ^ 52) (e + 1))
              else (if 971 < e then Inf neg else Fin neg q e))"

definition f64_of_int :: "int \<Rightarrow> f64" where
  "f64_of_int n = round_ratio (n < 0) \<bar>n\<bar> 1"

definition f64_zero :: f64 where "f64_zero = Fin False 0 (-1074)"
definition f64_one :: f64 where "f64_one = Fin False (2 ^ 52) (-52)"

fun is_nan :: "f64 \<Rightarrow> bool" where
  "is_nan NaN = True"
| "is_nan _ = False"

definition signed :: "bool \<Rightarrow> int \<Rightarrow> int" where
  "signed neg m = (if neg then - m else m)"

text \<open>The value of a finite float as a fraction of integers, denominator positive.\<close>

definition fraction :: "int \<Rightarrow> int \<Rightarrow> int \<times> int" where
  "fraction m e = (if 0 \<le> e then (m * 2 ^ nat e, 1) else (m, 2 ^ nat (- e)))"

fun f64_add :: "f64 \<Rightarrow> f64 \<Rightarrow> f64" where
  "f64_add (Fin s1 m1 e1) (Fin s2 m2 e2) =
     (let (n1, d1) = fraction m1 e1; (n2, d2) = fraction m2 e2;
          n = signed s1 n1 * d2 + signed s2 n2 * d1
      in if n = 0 then Fin (s1 \<and> s2) 0 (-1074) else round_ratio (n < 0) \<bar>n\<bar> (d1 * d2))"
| "f64_add (Inf s) (Inf t) = (if s = t then Inf s else NaN)"
| "f64_add (Inf s) (Fin _ _ _) = Inf s"
| "f64_add (Fin _ _ _) (Inf s) = Inf s"
| "f64_add _ _ = NaN"

fun f64_div :: "f64 \<Rightarrow> f64 \<Rightarrow> f64" where
  "f64_div (Fin s1 m1 e1) (Fin s2 m2 e2) =
     (if m2 = 0 then (if m1 = 0 then NaN else Inf (s1 \<noteq> s2))
      else let (n1, d1) = fraction m1 e1; (n2, d2) = fraction m2 e2
           in round_ratio (s1 \<noteq> s2) (n1 * d2) (d1 * n2))"
| "f64_div (Inf s) (Fin t _ _) = Inf (s \<noteq> t)"
| "f64_div (Fin s _ _) (Inf t) = Fin (s \<noteq> t) 0 (-1074)"
| "f64_div _ _ = NaN"


section \<open>The values\<close>

definition fin_val :: "int \<Rightarrow> int \<Rightarrow> rat" where
  "fin_val m e = of_int m * 2 powi e"

fun f64_val :: "f64 \<Rightarrow> rat option" where
  "f64_val (Fin neg m e) = Some (if neg then - fin_val m e else fin_val m e)"
| "f64_val _ = None"

lemma ilog2_1 [simp]: "ilog2 1 = 0"
  by (simp add: ilog2.simps [of 1])

text \<open>
  Integers of at most 53 bits are represented exactly.
\<close>

lemma ilog2_bounds: "1 \<le> n \<Longrightarrow> 0 \<le> ilog2 n \<and> 2 ^ nat (ilog2 n) \<le> n \<and> n < 2 ^ nat (ilog2 n + 1)"
proof (induction n rule: ilog2.induct)
  case (1 n)
  show ?case
  proof (cases "n \<le> 1")
    case True
    with 1 show ?thesis by (simp add: ilog2.simps [of n])
  next
    case False
    let ?h = "n div 2"
    from False have h: "1 \<le> ?h" by simp
    from "1.IH" [OF False h] have IH: "0 \<le> ilog2 ?h" "2 ^ nat (ilog2 ?h) \<le> ?h"
      "?h < 2 ^ nat (ilog2 ?h + 1)" by auto
    have e: "ilog2 n = 1 + ilog2 ?h" using False by (simp add: ilog2.simps [of n])
    have p1: "(2::int) ^ nat (ilog2 n) = 2 * 2 ^ nat (ilog2 ?h)"
      using IH(1) by (simp add: e nat_add_distrib)
    have p2: "(2::int) ^ nat (ilog2 n + 1) = 2 * 2 ^ nat (ilog2 ?h + 1)"
      using IH(1) by (simp add: e nat_add_distrib)
    from IH(2) have "2 * 2 ^ nat (ilog2 ?h) \<le> n" by linarith
    moreover from IH(3) have "n < 2 * 2 ^ nat (ilog2 ?h + 1)" by linarith
    ultimately show ?thesis using IH(1) e p1 p2 by simp
  qed
qed

lemma half_even_exact [simp]: "0 < d \<Longrightarrow> half_even (q * d) d = q"
  by (simp add: half_even_def)

lemma ilog2_less:
  assumes "1 \<le> n" and "n < 2 ^ k" shows "ilog2 n < int k"
proof -
  have "(2::int) ^ nat (ilog2 n) < 2 ^ k" using ilog2_bounds [OF assms(1)] assms(2) by linarith
  then have "nat (ilog2 n) < k" by (rule power_less_imp_less_exp [rotated]) simp
  then show ?thesis by linarith
qed

lemma round_exp_int:
  assumes n: "1 \<le> n" "n < 2 ^ 53" shows "round_exp n 1 = ilog2 n - 52"
proof -
  let ?k = "ilog2 n"
  note b = ilog2_bounds [OF n(1)]
  have k: "0 \<le> ?k" "?k < 53" using b ilog2_less [OF n] by auto
  have s: "scaled n 1 (?k - 53) = (n * 2 ^ nat (53 - ?k), 1)"
    using k by (simp add: scaled_def)
  have "(2::int) ^ 53 = 2 ^ nat ?k * 2 ^ nat (53 - ?k)"
    using k by (simp add: power_add [symmetric] nat_add_distrib [symmetric])
  also have "\<dots> \<le> n * 2 ^ nat (53 - ?k)" using b by simp
  finally show ?thesis using k by (simp add: round_exp_def s)
qed

lemma round_ratio_int:
  assumes n: "1 \<le> n" "n < 2 ^ 53"
  shows "round_ratio neg n 1 = Fin neg (n * 2 ^ nat (52 - ilog2 n)) (ilog2 n - 52)"
proof -
  let ?k = "ilog2 n"
  note b = ilog2_bounds [OF n(1)]
  have k: "0 \<le> ?k" "?k < 53" using b ilog2_less [OF n] by auto
  have s: "scaled n 1 (?k - 52) = (n * 2 ^ nat (52 - ?k), 1)"
    using k by (auto simp: scaled_def)
  have "n * 2 ^ nat (52 - ?k) < 2 ^ nat (?k + 1) * 2 ^ nat (52 - ?k)" using b by simp
  also have "\<dots> = 2 ^ 53" using k by (simp add: power_add [symmetric] nat_add_distrib [symmetric])
  finally have lt: "n * 2 ^ nat (52 - ?k) < 2 ^ 53" .
  have h: "half_even (n * 2 ^ nat (52 - ?k)) 1 = n * 2 ^ nat (52 - ?k)"
    using half_even_exact [of 1 "n * 2 ^ nat (52 - ?k)"] by simp
  show ?thesis using n lt k by (simp add: round_ratio_def round_exp_int [OF n] s h)
qed

lemma f64_of_int_exact:
  assumes "\<bar>n\<bar> < 2 ^ 53" shows "f64_val (f64_of_int n) = Some (of_int n)"
proof (cases "n = 0")
  case True
  then show ?thesis by (simp add: f64_of_int_def round_ratio_def fin_val_def)
next
  case False
  then have m: "1 \<le> \<bar>n\<bar>" by simp
  note b = ilog2_bounds [OF m]
  have k: "0 \<le> ilog2 \<bar>n\<bar>" "ilog2 \<bar>n\<bar> < 53" using b ilog2_less [OF m assms] by auto
  let ?e = "52 - ilog2 \<bar>n\<bar>"
  have "fin_val (\<bar>n\<bar> * 2 ^ nat ?e) (ilog2 \<bar>n\<bar> - 52) = of_int \<bar>n\<bar> * (2 ^ nat ?e * 2 powi (- ?e))"
    by (simp add: fin_val_def)
  also have "(2::rat) ^ nat ?e * 2 powi (- ?e) = 1"
    using k by (simp add: power_int_def field_simps)
  finally have v: "fin_val (\<bar>n\<bar> * 2 ^ nat ?e) (ilog2 \<bar>n\<bar> - 52) = of_int \<bar>n\<bar>" by simp
  show ?thesis
    using v unfolding f64_of_int_def round_ratio_int [OF m assms]
    by (cases "n < 0") (simp_all add: abs_if)
qed

lemma f64_of_int_not_nan [simp]: "\<not> is_nan (f64_of_int n)"
  by (simp add: f64_of_int_def round_ratio_def Let_def split: prod.splits)

lemma f64_of_int_0: "f64_of_int 0 = f64_zero"
  by (simp add: f64_of_int_def round_ratio_def f64_zero_def)

lemma f64_of_int_1: "f64_of_int 1 = f64_one"
  by (simp add: f64_of_int_def round_ratio_int f64_one_def)

end
