(* ===== verification/Strconv.thy ===== *)
theory Strconv
  imports Errors Float64
begin

text \<open>
  What the program uses of package \<^verbatim>\<open>strconv\<close>: \<open>Itoa\<close>, \<open>ParseInt\<close> and \<open>Atoi\<close> in base 10 with
  64 bits, and \<open>ParseFloat\<close> with 64 bits, with their syntax and range errors.  \<open>ParseFloat\<close> reads
  the whole grammar Go accepts (sign, decimal and hexadecimal mantissa, exponent, digit
  separators, infinities and NaN), computes the exact value and rounds it once.
\<close>

section \<open>Digits\<close>

definition char_code :: "char \<Rightarrow> int" where
  "char_code c = of_char c"

definition is_digit :: "char \<Rightarrow> bool" where
  "is_digit c \<longleftrightarrow> 48 \<le> char_code c \<and> char_code c \<le> 57"

definition digit_val :: "char \<Rightarrow> int" where
  "digit_val c = char_code c - 48"

definition digit_char :: "int \<Rightarrow> char" where
  "digit_char d = char_of (d + 48)"

definition all_digits :: "string \<Rightarrow> bool" where
  "all_digits s \<longleftrightarrow> (\<forall>c \<in> set s. is_digit c)"

definition dec_val :: "int \<Rightarrow> string \<Rightarrow> int" where
  "dec_val n s = foldl (\<lambda>v c. v * 10 + digit_val c) n s"

function (sequential) show_digits :: "int \<Rightarrow> string" where
  "show_digits n = (if n < 10 then [digit_char n] else show_digits (n div 10) @ [digit_char (n mod 10)])"
  by pat_completeness auto
termination
  by (relation "measure nat") auto

declare show_digits.simps [simp del]

definition Itoa :: "int \<Rightarrow> string" where
  "Itoa n = (if n < 0 then CHR ''-'' # show_digits (- n) else show_digits n)"

lemma char_code_digit_char: "0 \<le> d \<Longrightarrow> d < 10 \<Longrightarrow> char_code (digit_char d) = d + 48"
  by (simp add: char_code_def digit_char_def)

lemma is_digit_char [simp]: "0 \<le> d \<Longrightarrow> d < 10 \<Longrightarrow> is_digit (digit_char d)"
  by (simp add: is_digit_def char_code_digit_char)

lemma digit_val_char [simp]: "0 \<le> d \<Longrightarrow> d < 10 \<Longrightarrow> digit_val (digit_char d) = d"
  by (simp add: digit_val_def char_code_digit_char)

lemma digit_val_range: "is_digit c \<Longrightarrow> 0 \<le> digit_val c \<and> digit_val c \<le> 9"
  by (simp add: is_digit_def digit_val_def)

lemma dec_val_simps [simp]:
  "dec_val n [] = n" "dec_val n (c # s) = dec_val (n * 10 + digit_val c) s"
  "dec_val n (s @ t) = dec_val (dec_val n s) t"
  by (simp_all add: dec_val_def)

lemma all_digits_simps [simp]:
  "all_digits []" "all_digits (c # s) \<longleftrightarrow> is_digit c \<and> all_digits s"
  "all_digits (s @ t) \<longleftrightarrow> all_digits s \<and> all_digits t"
  by (auto simp: all_digits_def)

lemma show_digits_props:
  "0 \<le> n \<Longrightarrow> all_digits (show_digits n) \<and> show_digits n \<noteq> [] \<and> dec_val 0 (show_digits n) = n"
proof (induction n rule: show_digits.induct)
  case (1 n)
  then show ?case by (subst (1 2 3) show_digits.simps) (simp add: algebra_simps)
qed

lemmas show_digits_all [simp] = show_digits_props [THEN conjunct1]
lemmas show_digits_not_Nil [simp] = show_digits_props [THEN conjunct2, THEN conjunct1]
lemmas show_digits_val [simp] = show_digits_props [THEN conjunct2, THEN conjunct2]

lemma dec_val_mono: "all_digits s \<Longrightarrow> 0 \<le> n \<Longrightarrow> n \<le> dec_val n s"
proof (induction s arbitrary: n)
  case (Cons c s)
  then have "0 \<le> digit_val c" using digit_val_range by simp
  with Cons have "n * 10 + digit_val c \<le> dec_val (n * 10 + digit_val c) s" by simp
  with Cons.prems \<open>0 \<le> digit_val c\<close> show ?case by simp
qed simp


section \<open>Integers\<close>

definition MaxUint64 :: int where "MaxUint64 = 2 ^ 64 - 1"
definition MaxInt64 :: int where "MaxInt64 = 2 ^ 63 - 1"

fun parse_uint :: "string \<Rightarrow> string \<Rightarrow> int \<Rightarrow> goerror + int" where
  \<comment> \<open>the loop of \<^verbatim>\<open>ParseUint\<close>; the first argument is the text for the error value\<close>
  "parse_uint s [] n = Inr n"
| "parse_uint s (c # cs) n =
     (if \<not> is_digit c then Inl (ErrSyntax s)
      else if MaxUint64 < n * 10 + digit_val c then Inl (ErrRange s)
      else parse_uint s cs (n * 10 + digit_val c))"

definition split_sign :: "string \<Rightarrow> bool \<times> string" where
  "split_sign s = (case s of
       [] \<Rightarrow> (False, [])
     | c # cs \<Rightarrow> if c = CHR ''-'' then (True, cs) else if c = CHR ''+'' then (False, cs)
                else (False, s))"

definition ParseInt :: "string \<Rightarrow> goerror + int" where
  "ParseInt s =
     (let (neg, ds) = split_sign s
      in if ds = [] then Inl (ErrSyntax s)
         else case parse_uint s ds 0 of
                Inl e \<Rightarrow> Inl e
              | Inr un \<Rightarrow>
                  if \<not> neg \<and> MaxInt64 < un then Inl (ErrRange s)
                  else if neg \<and> MaxInt64 + 1 < un then Inl (ErrRange s)
                  else Inr (if neg then - un else un))"

definition Atoi :: "string \<Rightarrow> goerror + int" where
  "Atoi s = ParseInt s"

lemma parse_uint_digits:
  "all_digits ds \<Longrightarrow> 0 \<le> n \<Longrightarrow> dec_val n ds \<le> MaxUint64 \<Longrightarrow> parse_uint s ds n = Inr (dec_val n ds)"
proof (induction ds arbitrary: n)
  case (Cons c ds)
  then have d: "0 \<le> digit_val c" using digit_val_range by simp
  with Cons.prems have "n * 10 + digit_val c \<le> dec_val (n * 10 + digit_val c) ds"
    by (intro dec_val_mono) simp_all
  with Cons d show ?case by simp
qed simp

lemma digit_not_sign: "is_digit c \<Longrightarrow> c \<noteq> CHR ''-'' \<and> c \<noteq> CHR ''+''"
  by (auto simp: is_digit_def char_code_def)

lemma split_sign_digits: "all_digits ds \<Longrightarrow> split_sign ds = (False, ds)"
  by (cases ds) (auto simp: split_sign_def dest: digit_not_sign)

lemma Atoi_digits:
  "all_digits ds \<Longrightarrow> ds \<noteq> [] \<Longrightarrow> dec_val 0 ds \<le> MaxInt64 \<Longrightarrow> Atoi ds = Inr (dec_val 0 ds)"
  by (simp add: Atoi_def ParseInt_def split_sign_digits parse_uint_digits MaxInt64_def MaxUint64_def)

lemma Atoi_Itoa:
  assumes "- MaxInt64 \<le> n" and "n \<le> MaxInt64" shows "Atoi (Itoa n) = Inr n"
proof (cases "n < 0")
  case False
  with assms show ?thesis by (simp add: Itoa_def Atoi_digits)
next
  case True
  with assms have "parse_uint s (show_digits (- n)) 0 = Inr (- n)" for s
    by (subst parse_uint_digits) (simp_all add: MaxInt64_def MaxUint64_def)
  with True assms show ?thesis
    by (simp add: Itoa_def Atoi_def ParseInt_def split_sign_def)
qed

lemma parse_uint_Inr:
  "parse_uint s ds n = Inr v \<Longrightarrow> all_digits ds \<and> v = dec_val n ds"
  by (induction s ds n rule: parse_uint.induct) (auto split: if_splits)

lemma Atoi_range: "Atoi s = Inr v \<Longrightarrow> - MaxInt64 - 1 \<le> v \<and> v \<le> MaxInt64"
proof -
  assume a: "Atoi s = Inr v"
  obtain neg ds where sp: "split_sign s = (neg, ds)" by (cases "split_sign s")
  from a sp obtain un where u: "parse_uint s ds 0 = Inr un"
    and v: "v = (if neg then - un else un)" and "\<not> (\<not> neg \<and> MaxInt64 < un)"
    and "\<not> (neg \<and> MaxInt64 + 1 < un)"
    by (auto simp: Atoi_def ParseInt_def split: if_splits sum.splits)
  moreover from u have "0 \<le> un" using parse_uint_Inr [OF u] dec_val_mono [of ds 0] by simp
  ultimately show ?thesis by (auto simp: MaxInt64_def split: if_splits)
qed


section \<open>Floating point\<close>

definition is_hex_letter :: "char \<Rightarrow> bool" where
  "is_hex_letter c \<longleftrightarrow> (let n = char_code (lower_char c) in 97 \<le> n \<and> n \<le> 102)"

definition hex_val :: "char \<Rightarrow> int" where
  "hex_val c = char_code (lower_char c) - 87"

text \<open>
  \<open>underscoreOK\<close>: a digit separator stands between digits, or between a base prefix and a
  digit.  The argument \<open>saw\<close> is the class of the last character, as in Go.
\<close>

fun us_ok :: "bool \<Rightarrow> char \<Rightarrow> string \<Rightarrow> bool" where
  "us_ok hex saw [] = (saw \<noteq> CHR ''_'')"
| "us_ok hex saw (c # cs) =
     (if is_digit c \<or> (hex \<and> is_hex_letter c) then us_ok hex (CHR ''0'') cs
      else if c = CHR ''_'' then saw = CHR ''0'' \<and> us_ok hex (CHR ''_'') cs
      else saw \<noteq> CHR ''_'' \<and> us_ok hex (CHR ''!'') cs)"

definition base_prefix :: "string \<Rightarrow> char option" where
  "base_prefix s = (case s of
       a # b # _ \<Rightarrow> if a = CHR ''0'' \<and> lower_char b \<in> {CHR ''b'', CHR ''o'', CHR ''x''}
                   then Some (lower_char b) else None
     | _ \<Rightarrow> None)"

definition underscore_ok :: "string \<Rightarrow> bool" where
  "underscore_ok s =
     (let t = snd (split_sign s)
      in case base_prefix t of
           None \<Rightarrow> us_ok False (CHR ''^'') t
         | Some p \<Rightarrow> us_ok (p = CHR ''x'') (CHR ''0'') (drop 2 t))"

record scan =
  sc_digits :: bool
  sc_under :: bool
  sc_mant :: int
  sc_frac :: int
  sc_rest :: string

fun scan_mantissa :: "bool \<Rightarrow> bool \<Rightarrow> scan \<Rightarrow> string \<Rightarrow> scan" where
  \<comment> \<open>\<open>sc_frac\<close> counts the digits after the point\<close>
  "scan_mantissa hex dot st [] = st\<lparr>sc_rest := []\<rparr>"
| "scan_mantissa hex dot st (c # cs) =
     (if c = CHR ''_'' then scan_mantissa hex dot (st\<lparr>sc_under := True\<rparr>) cs
      else if c = CHR ''.'' then
        (if dot then st\<lparr>sc_rest := c # cs\<rparr> else scan_mantissa hex True st cs)
      else if is_digit c \<or> (hex \<and> is_hex_letter c) then
        scan_mantissa hex dot
          (st\<lparr>sc_digits := True,
              sc_mant := sc_mant st * (if hex then 16 else 10)
                         + (if is_digit c then digit_val c else hex_val c),
              sc_frac := sc_frac st + (if dot then 1 else 0)\<rparr>) cs
      else st\<lparr>sc_rest := c # cs\<rparr>)"

fun scan_exponent :: "int \<Rightarrow> bool \<Rightarrow> string \<Rightarrow> int \<times> bool \<times> string" where
  "scan_exponent e us [] = (e, us, [])"
| "scan_exponent e us (c # cs) =
     (if c = CHR ''_'' then scan_exponent e True cs
      else if is_digit c then scan_exponent (if e < 10000 then e * 10 + digit_val c else e) us cs
      else (e, us, c # cs))"

definition float_special :: "string \<Rightarrow> f64 option" where
  "float_special s =
     (let (neg, t) = split_sign s; l = to_lower t
      in if l = ''inf'' \<or> l = ''infinity'' then Some (Inf neg)
         else if to_lower s = ''nan'' then Some NaN else None)"

definition scaled_round :: "string \<Rightarrow> bool \<Rightarrow> int \<Rightarrow> int \<Rightarrow> int \<Rightarrow> goerror + f64" where
  \<comment> \<open>\<open>mant * base ^ e\<close>, rounded; infinity is a range error\<close>
  "scaled_round s neg mant b e =
     (let f = (if mant = 0 then round_ratio neg 0 1
               else if 0 \<le> e then round_ratio neg (mant * b ^ nat e) 1
               else round_ratio neg mant (b ^ nat (- e)))
      in case f of Inf _ \<Rightarrow> Inl (ErrRange s) | _ \<Rightarrow> Inr f)"

definition scan_start :: scan where
  "scan_start = \<lparr>sc_digits = False, sc_under = False, sc_mant = 0, sc_frac = 0, sc_rest = []\<rparr>"

definition exp_part :: "bool \<Rightarrow> bool \<Rightarrow> string \<Rightarrow> (int \<times> bool \<times> string) option" where
  \<comment> \<open>the optional exponent: value, whether separators were seen, the rest\<close>
  "exp_part hex us r = (case r of
       c # cs \<Rightarrow>
         if lower_char c = (if hex then CHR ''p'' else CHR ''e'') then
           (let (eneg, ds) = split_sign cs
            in case ds of
                 d # _ \<Rightarrow> if is_digit d then
                            (let (e, us', r') = scan_exponent 0 us ds
                             in Some (if eneg then - e else e, us', r'))
                          else None
               | [] \<Rightarrow> None)
         else if hex then None else Some (0, us, r)
     | [] \<Rightarrow> if hex then None else Some (0, us, r))"

definition ParseFloat :: "string \<Rightarrow> goerror + f64" where
  "ParseFloat s =
     (case float_special s of
        Some f \<Rightarrow> Inr f
      | None \<Rightarrow>
        (let (neg, t) = split_sign s;
             hex = (2 < length t \<and> base_prefix t = Some (CHR ''x''));
             st = scan_mantissa hex False scan_start (if hex then drop 2 t else t)
         in if \<not> sc_digits st then Inl (ErrSyntax s)
            else case exp_part hex (sc_under st) (sc_rest st) of
                   None \<Rightarrow> Inl (ErrSyntax s)
                 | Some (e, us, r) \<Rightarrow>
                     if r \<noteq> [] \<or> (us \<and> \<not> underscore_ok s) then Inl (ErrSyntax s)
                     else if hex then scaled_round s neg (sc_mant st) 2 (e - 4 * sc_frac st)
                     else scaled_round s neg (sc_mant st) 10 (e - sc_frac st)))"

text \<open>A string of decimal digits reads as the float nearest to its value.\<close>

lemma digit_not_special:
  "is_digit c \<Longrightarrow> c \<noteq> CHR ''_'' \<and> c \<noteq> CHR ''.'' \<and> lower_char c = c \<and> c \<noteq> CHR ''i'' \<and> c \<noteq> CHR ''n''
     \<and> c \<noteq> CHR ''b'' \<and> c \<noteq> CHR ''o'' \<and> c \<noteq> CHR ''x''"
proof -
  assume d: "is_digit c"
  then have "of_char c \<le> (57::nat)"
    unfolding is_digit_def char_code_def by (metis of_nat_le_iff of_nat_numeral of_nat_of_char)
  with d show ?thesis
    by (auto simp: is_digit_def char_code_def lower_char_def)
qed

lemma scan_mantissa_digits:
  "all_digits ds \<Longrightarrow> scan_mantissa False False st ds =
     st\<lparr>sc_digits := (sc_digits st \<or> ds \<noteq> []), sc_mant := dec_val (sc_mant st) ds, sc_rest := []\<rparr>"
proof (induction ds arbitrary: st)
  case (Cons c ds)
  then show ?case using digit_not_special [of c] by simp
qed simp

lemma float_special_digits: "all_digits ds \<Longrightarrow> ds \<noteq> [] \<Longrightarrow> float_special ds = None"
proof -
  assume a: "all_digits ds" "ds \<noteq> []"
  then obtain c cs where ds: "ds = c # cs" by (cases ds) auto
  with a digit_not_special [of c] have "lower_char c \<notin> {CHR ''i'', CHR ''n''}" by auto
  then show ?thesis
    using a(1) by (auto simp: float_special_def split_sign_digits ds to_lower_def)
qed

lemma base_prefix_digits: "all_digits ds \<Longrightarrow> base_prefix ds = None"
  using digit_not_special by (auto simp: base_prefix_def split: list.splits)

lemma ParseFloat_digits:
  assumes "all_digits ds" and "ds \<noteq> []"
  shows "ParseFloat ds = scaled_round ds False (dec_val 0 ds) 10 0"
  using assms
  by (simp add: ParseFloat_def float_special_digits split_sign_digits base_prefix_digits
      scan_mantissa_digits exp_part_def scan_start_def)

lemma round_ratio_fin: "1 \<le> n \<Longrightarrow> n < 2 ^ 53 \<Longrightarrow> \<exists>m e. round_ratio neg n 1 = Fin neg m e"
  by (simp add: round_ratio_int)

lemma ParseFloat_small:
  assumes "all_digits ds" and "ds \<noteq> []" and "dec_val 0 ds < 2 ^ 53"
  shows "ParseFloat ds = Inr (f64_of_int (dec_val 0 ds))"
proof -
  let ?n = "dec_val 0 ds"
  have n0: "0 \<le> ?n" using dec_val_mono [OF assms(1), of 0] by simp
  show ?thesis
  proof (cases "?n = 0")
    case True
    then show ?thesis using assms
      by (simp add: ParseFloat_digits scaled_round_def f64_of_int_def round_ratio_def)
  next
    case False
    with n0 assms(3) obtain m e where "round_ratio False ?n 1 = Fin False m e"
      using round_ratio_fin [of ?n False] by auto
    then show ?thesis using assms n0 False
      by (simp add: ParseFloat_digits scaled_round_def f64_of_int_def)
  qed
qed

lemma ParseFloat_Itoa:
  assumes "0 \<le> n" and "n < 2 ^ 53" shows "ParseFloat (Itoa n) = Inr (f64_of_int n)"
  using assms ParseFloat_small [of "show_digits n"] by (simp add: Itoa_def)


section \<open>Quoting\<close>

text \<open>
  \<^verbatim>\<open>utf8.DecodeRuneInString\<close>: the code point and its width in bytes; the replacement character
  with width 1 for a byte that starts no valid encoding.
\<close>

definition rune_error :: int where "rune_error = 0xFFFD"

definition in_range :: "int \<Rightarrow> int \<Rightarrow> char \<Rightarrow> bool" where
  "in_range lo hi c \<longleftrightarrow> lo \<le> char_code c \<and> char_code c \<le> hi"

definition decode_rune :: "string \<Rightarrow> int \<times> nat" where
  "decode_rune s =
     (case s of
        [] \<Rightarrow> (rune_error, 0)
      | c0 # r \<Rightarrow>
          (let p0 = char_code c0
           in if p0 < 0x80 then (p0, 1)
              else if p0 < 0xC2 \<or> 0xF4 < p0 then (rune_error, 1)
              else if p0 < 0xE0 then
                (case r of
                   c1 # _ \<Rightarrow> if in_range 0x80 0xBF c1
                             then ((p0 - 0xC0) * 64 + (char_code c1 - 0x80), 2) else (rune_error, 1)
                 | _ \<Rightarrow> (rune_error, 1))
              else if p0 < 0xF0 then
                (case r of
                   c1 # c2 # _ \<Rightarrow>
                     if in_range (if p0 = 0xE0 then 0xA0 else 0x80) (if p0 = 0xED then 0x9F else 0xBF) c1
                        \<and> in_range 0x80 0xBF c2
                     then ((p0 - 0xE0) * 4096 + (char_code c1 - 0x80) * 64 + (char_code c2 - 0x80), 3)
                     else (rune_error, 1)
                 | _ \<Rightarrow> (rune_error, 1))
              else
                (case r of
                   c1 # c2 # c3 # _ \<Rightarrow>
                     if in_range (if p0 = 0xF0 then 0x90 else 0x80) (if p0 = 0xF4 then 0x8F else 0xBF) c1
                        \<and> in_range 0x80 0xBF c2 \<and> in_range 0x80 0xBF c3
                     then ((p0 - 0xF0) * 262144 + (char_code c1 - 0x80) * 4096
                           + (char_code c2 - 0x80) * 64 + (char_code c3 - 0x80), 4)
                     else (rune_error, 1)
                 | _ \<Rightarrow> (rune_error, 1))))"

definition hex_char :: "int \<Rightarrow> char" where
  "hex_char d = (if d < 10 then digit_char d else char_of (d + 87))"

fun hex_fixed :: "nat \<Rightarrow> int \<Rightarrow> string" where
  \<comment> \<open>the last \<open>n\<close> hexadecimal digits\<close>
  "hex_fixed 0 v = []"
| "hex_fixed (Suc n) v = hex_fixed n (v div 16) @ [hex_char (v mod 16)]"

definition backslash :: char where "backslash = CHR 0x5C"

definition append_escaped :: "int \<Rightarrow> string" where
  \<comment> \<open>\<^verbatim>\<open>appendEscapedRune\<close> for the quote \<^verbatim>\<open>'"'\<close>, ASCII only\<close>
  "append_escaped r =
     (if r = 0x22 \<or> r = 0x5C then [backslash, char_of r]
      else if 0x20 \<le> r \<and> r < 0x7F then [char_of r]
      else if 7 \<le> r \<and> r \<le> 13 then [backslash, ''abtnvfr'' ! nat (r - 7)]
      else if r < 0x20 \<or> r = 0x7F then [backslash, CHR ''x''] @ hex_fixed 2 r
      else if r < 0x10000 then [backslash, CHR ''u''] @ hex_fixed 4 r
      else [backslash, CHR ''U''] @ hex_fixed 8 r)"

lemma decode_rune_width: "decode_rune s = (r, w) \<Longrightarrow> s \<noteq> [] \<Longrightarrow> 0 < w"
  by (auto simp: decode_rune_def Let_def split: list.splits if_splits)

function quote_body :: "string \<Rightarrow> string" where
  "quote_body s =
     (if s = [] then []
      else let (r, width) = decode_rune s
           in (if width = 1 \<and> r = rune_error
               then [backslash, CHR ''x''] @ hex_fixed 2 (char_code (hd s)) else append_escaped r)
              @ quote_body (drop width s))"
  by pat_completeness auto
termination
  by (relation "measure length") (auto dest!: sym [THEN decode_rune_width])

declare quote_body.simps [simp del]

definition QuoteToASCII :: "string \<Rightarrow> string" where
  "QuoteToASCII s = CHR 0x22 # quote_body s @ [CHR 0x22]"

definition printable :: "char \<Rightarrow> bool" where
  "printable c \<longleftrightarrow> 0x20 \<le> char_code c \<and> char_code c < 0x7F"

lemma decode_rune_range: "0 \<le> fst (decode_rune s)"
proof -
  have "0 \<le> char_code c" for c
    unfolding char_code_def by (metis of_nat_of_char of_nat_0_le_iff)
  then show ?thesis
    by (cases s) (auto simp: decode_rune_def Let_def rune_error_def in_range_def split: list.splits)
qed

lemma hex_fixed_printable: "\<forall>c \<in> set (hex_fixed n v). printable c"
proof (induction n v rule: hex_fixed.induct)
  case (2 n v)
  have "0 \<le> v mod 16" "v mod 16 < 16" by simp_all
  then have "printable (hex_char (v mod 16))"
    by (auto simp: hex_char_def printable_def char_code_digit_char) (simp_all add: char_code_def)
  with 2 show ?case by simp
qed simp

lemma append_escaped_printable: "0 \<le> r \<Longrightarrow> \<forall>c \<in> set (append_escaped r). printable c"
proof -
  assume r: "0 \<le> r"
  have "printable (''abtnvfr'' ! nat (r - 7))" if "7 \<le> r" "r \<le> 13"
  proof -
    from that have "nat (r - 7) < 7" by simp
    then have "nat (r - 7) \<in> {0, 1, 2, 3, 4, 5, 6}" by auto
    then show ?thesis by (auto simp: printable_def char_code_def)
  qed
  with r hex_fixed_printable show ?thesis
    by (auto simp: append_escaped_def backslash_def printable_def char_code_def)
qed

lemma quote_body_printable: "\<forall>c \<in> set (quote_body s). printable c"
proof (induction s rule: quote_body.induct)
  case (1 s)
  show ?case
  proof (cases "s = []")
    case False
    obtain r w where d: "decode_rune s = (r, w)" by (cases "decode_rune s")
    have "0 \<le> r" using decode_rune_range [of s] d by simp
    then have "\<forall>c \<in> set (if w = 1 \<and> r = rune_error then [backslash, CHR ''x''] @ hex_fixed 2 (char_code (hd s))
        else append_escaped r). printable c"
      using append_escaped_printable [of r] hex_fixed_printable [of 2 "char_code (hd s)"]
      by (auto simp: backslash_def printable_def char_code_def)
    with 1 [OF False d [symmetric] refl] False d show ?thesis
      by (subst quote_body.simps) (simp only: if_False Let_def prod.case set_append ball_Un simp_thms)
  qed (simp add: quote_body.simps)
qed

end
