(* ===== verification/Convert.thy ===== *)
theory Convert
  imports Strconv "HOL-Library.Signed_Division"
begin

text \<open>
  Package \<^verbatim>\<open>internal/convert\<close>: the converters from property values to metric values, and the
  parsers of durations and dates.  A duration is a Go \<^verbatim>\<open>time.Duration\<close>, a 64-bit word of
  nanoseconds that wraps.
\<close>

type_synonym ValueConverter = "string \<Rightarrow> goerror + f64"
type_synonym TXRXValueConverter = "string \<Rightarrow> goerror + f64 \<times> f64"

section \<open>Dates\<close>

text \<open>
  \<^verbatim>\<open>time.Parse\<close> for the elements of the two layouts of the program.  A parser of an element
  takes the rest of the value and returns the number read and what follows.
\<close>

definition digit2 :: "string \<Rightarrow> (int \<times> string) option" where
  \<comment> \<open>two digits: \<^verbatim>\<open>getnum(value, true)\<close>\<close>
  "digit2 s = (case s of
       a # b # r \<Rightarrow> if is_digit a \<and> is_digit b then Some (digit_val a * 10 + digit_val b, r) else None
     | _ \<Rightarrow> None)"

definition digit12 :: "string \<Rightarrow> (int \<times> string) option" where
  \<comment> \<open>one or two digits: \<^verbatim>\<open>getnum(value, false)\<close>\<close>
  "digit12 s = (case s of
       [] \<Rightarrow> None
     | a # r \<Rightarrow> if \<not> is_digit a then None
                else (case r of
                        b # r' \<Rightarrow> if is_digit b then Some (digit_val a * 10 + digit_val b, r')
                                  else Some (digit_val a, r)
                      | [] \<Rightarrow> Some (digit_val a, [])))"

definition digit4 :: "string \<Rightarrow> (int \<times> string) option" where
  "digit4 s = (if 4 \<le> length s \<and> all_digits (take 4 s)
               then Some (dec_val 0 (take 4 s), drop 4 s) else None)"

definition month_names :: "string list" where
  "month_names = [''jan'', ''feb'', ''mar'', ''apr'', ''may'', ''jun'', ''jul'', ''aug'', ''sep'',
                  ''oct'', ''nov'', ''dec'']"

definition month_abbrev :: "string \<Rightarrow> (int \<times> string) option" where
  "month_abbrev s = (case List.find (\<lambda>i. 3 \<le> length s \<and> to_lower (take 3 s) = month_names ! i) [0..<12] of
       None \<Rightarrow> None
     | Some i \<Rightarrow> Some (int i + 1, drop 3 s))"

definition lit :: "char \<Rightarrow> string \<Rightarrow> string option" where
  \<comment> \<open>a character of the layout that is not a space\<close>
  "lit c s = (case s of x # r \<Rightarrow> if x = c then Some r else None | [] \<Rightarrow> None)"

definition lit_space :: "string \<Rightarrow> string option" where
  \<comment> \<open>a space of the layout: any number of spaces, at least one unless the value ends here\<close>
  "lit_space s = (case s of
       [] \<Rightarrow> Some []
     | x # r \<Rightarrow> if x = CHR '' '' then Some (dropWhile (\<lambda>c. c = CHR '' '') r) else None)"

definition skip_fraction :: "string \<Rightarrow> string" where
  \<comment> \<open>a fraction of a second may follow the seconds though the layout has none\<close>
  "skip_fraction s = (case s of
       p # d # r \<Rightarrow> if (p = CHR ''.'' \<or> p = CHR '','') \<and> is_digit d then dropWhile is_digit r else s
     | _ \<Rightarrow> s)"

definition isLeap :: "int \<Rightarrow> bool" where
  "isLeap y \<longleftrightarrow> y mod 4 = 0 \<and> (y mod 100 \<noteq> 0 \<or> y mod 400 = 0)"

definition daysIn :: "int \<Rightarrow> int \<Rightarrow> int" where
  "daysIn m y = (if m = 2 then (if isLeap y then 29 else 28)
                 else if m \<in> {4, 6, 9, 11} then 30 else 31)"

definition days_before_year :: "int \<Rightarrow> int" where
  \<comment> \<open>days from 1 January 1970 to 1 January of the year\<close>
  "days_before_year y = 365 * (y - 1970) + ((y - 1) div 4 - (y - 1) div 100 + (y - 1) div 400) - 477"

definition days_before_month :: "int \<Rightarrow> int \<Rightarrow> int" where
  "days_before_month m y = sum_list (map (\<lambda>k. daysIn k y) [1..m - 1])"

definition unix_time :: "int \<Rightarrow> int \<Rightarrow> int \<Rightarrow> int \<Rightarrow> int \<Rightarrow> int \<Rightarrow> int" where
  "unix_time y mo d h mi s =
     (days_before_year y + days_before_month mo y + (d - 1)) * 86400 + h * 3600 + mi * 60 + s"

definition parse_clock :: "string \<Rightarrow> ((int \<times> int \<times> int) \<times> string) option" where
  \<comment> \<open>\<^verbatim>\<open>15:04:05\<close>\<close>
  "parse_clock s =
     Option.bind (digit12 s) (\<lambda>(h, s).
     if \<not> h < 24 then None else
     Option.bind (lit CHR '':'' s) (\<lambda>s.
     Option.bind (digit2 s) (\<lambda>(mi, s).
     if \<not> mi < 60 then None else
     Option.bind (lit CHR '':'' s) (\<lambda>s.
     Option.bind (digit2 s) (\<lambda>(sec, s).
     if \<not> sec < 60 then None else Some ((h, mi, sec), skip_fraction s))))))"

definition finish_date :: "int \<Rightarrow> int \<Rightarrow> int \<Rightarrow> string \<Rightarrow> int option" where
  \<comment> \<open>the time of day, the end of the value, and the check of the day\<close>
  "finish_date y mo d s =
     Option.bind (lit_space s) (\<lambda>s.
     Option.bind (parse_clock s) (\<lambda>((h, mi, sec), s).
     if s \<noteq> [] \<or> d < 1 \<or> daysIn mo y < d then None else Some (unix_time y mo d h mi sec)))"

definition parse_iso :: "string \<Rightarrow> int option" where
  \<comment> \<open>the layout \<^verbatim>\<open>2006-01-02 15:04:05\<close>\<close>
  "parse_iso s =
     Option.bind (digit4 s) (\<lambda>(y, s).
     Option.bind (lit CHR ''-'' s) (\<lambda>s.
     Option.bind (digit2 s) (\<lambda>(mo, s).
     if mo < 1 \<or> 12 < mo then None else
     Option.bind (lit CHR ''-'' s) (\<lambda>s.
     Option.bind (digit2 s) (\<lambda>(d, s). finish_date y mo d s)))))"

definition parse_us :: "string \<Rightarrow> int option" where
  \<comment> \<open>the layout \<^verbatim>\<open>Jan/02/2006 15:04:05\<close>\<close>
  "parse_us s =
     Option.bind (month_abbrev s) (\<lambda>(mo, s).
     Option.bind (lit CHR ''/'' s) (\<lambda>s.
     Option.bind (digit2 s) (\<lambda>(d, s).
     Option.bind (lit CHR ''/'' s) (\<lambda>s.
     Option.bind (digit4 s) (\<lambda>(y, s). finish_date y mo d s)))))"

definition ParseTS :: ValueConverter where
  "ParseTS val =
     (if val = '''' then Inr f64_zero
      else case parse_iso val of
             Some t \<Rightarrow> Inr (f64_of_int t)
           | None \<Rightarrow>
               (case parse_us val of
                  None \<Rightarrow> Inl (Wrapf ''parse time %s error: %w'' [val] (ParseError val))
                | Some t \<Rightarrow> Inr (f64_of_int t)))"

definition ParseTSInLocation :: "(string \<Rightarrow> goerror + (int \<Rightarrow> int)) \<Rightarrow> string \<Rightarrow> string \<Rightarrow> goerror + f64" where
  \<comment> \<open>\<open>load\<close> is the time zone database: a zone takes a wall clock time, in seconds as if it
     were UTC, to Unix time\<close>
  "ParseTSInLocation load val timezone =
     (if val = '''' then Inr f64_zero
      else case load timezone of
             Inl e \<Rightarrow> Inl (Wrapf ''parse timezone %s error: %w'' [timezone] e)
           | Inr loc \<Rightarrow>
               (case parse_iso val of
                  Some t \<Rightarrow> Inr (f64_of_int (loc t))
                | None \<Rightarrow>
                    (case parse_us val of
                       None \<Rightarrow> Inl (Wrapf ''parse time %s error: %w'' [val] (ParseError val))
                     | Some t \<Rightarrow> Inr (f64_of_int t))))"


section \<open>Pairs of numbers\<close>

definition SplitStringToFloats :: "string \<Rightarrow> string \<Rightarrow> goerror + f64 \<times> f64" where
  "SplitStringToFloats metric separator =
     (if metric = '''' then Inl ErrEmptyValue
      else case split_on metric separator of
             [] \<Rightarrow> Inr (f64_zero, f64_zero)
           | [_] \<Rightarrow> Inl (InvalidInputError (''can't split '' @ metric @ '' to floats''))
           | s1 # s2 # _ \<Rightarrow>
               (case ParseFloat s1 of
                  Inl e \<Rightarrow> Inl (Wrapf ''parse %v error: %w'' [metric] e)
                | Inr m1 \<Rightarrow>
                    (case ParseFloat s2 of
                       Inl e \<Rightarrow> Inl (Wrapf ''parse %v error: %w'' [metric] e)
                     | Inr m2 \<Rightarrow> Inr (m1, m2))))"

definition SplitStringToFloatsOn :: "string \<Rightarrow> TXRXValueConverter" where
  "SplitStringToFloatsOn sep = (\<lambda>metric. SplitStringToFloats metric sep)"

definition SplitStringToFloatsOnComma :: TXRXValueConverter where
  "SplitStringToFloatsOnComma metric = SplitStringToFloats metric '',''"


section \<open>Durations\<close>

type_synonym duration = "64 word"

definition indexFuncDigit :: "char \<Rightarrow> bool" where "indexFuncDigit c = is_digit c"
definition indexFuncChar :: "char \<Rightarrow> bool" where "indexFuncChar c \<longleftrightarrow> 65 \<le> char_code c"

definition index_func :: "(char \<Rightarrow> bool) \<Rightarrow> string \<Rightarrow> nat option" where
  \<comment> \<open>\<^verbatim>\<open>strings.IndexFunc\<close>; both predicates answer for a UTF-8 sequence as for its first byte\<close>
  "index_func p s = List.find (\<lambda>i. p (s ! i)) [0..<length s]"

definition unit_nanos :: "string \<Rightarrow> int option" where
  "unit_nanos u =
     (if u = ''w'' then Some (168 * 3600000000000)
      else if u = ''d'' then Some (24 * 3600000000000)
      else if u = ''h'' then Some 3600000000000
      else if u = ''m'' then Some 60000000000
      else if u = ''s'' then Some 1000000000
      else if u = ''ms'' then Some 1000000
      else if u = ''us'' then Some 1000
      else None)"

definition adjustDuration :: "int \<Rightarrow> string \<Rightarrow> goerror + duration" where
  "adjustDuration dur u =
     (case unit_nanos u of
        Some k \<Rightarrow> Inr (word_of_int dur * word_of_int k)
      | None \<Rightarrow> Inl (Wrapf ''parse dur unit %q error: %w'' [u] ErrUnknownUnit))"

definition getDurationParts :: "string \<Rightarrow> goerror + duration \<times> string" where
  "getDurationParts inp =
     (case index_func indexFuncChar inp of
        None \<Rightarrow> Inl (Wrapf ''parse duration error: %w'' [] ErrUnknownUnit)
      | Some unitIdx \<Rightarrow>
          (let valuePart = take unitIdx inp; rest0 = drop unitIdx inp;
               (u, rest) = (case index_func indexFuncDigit rest0 of
                              Some i \<Rightarrow> (take i rest0, drop i rest0)
                            | None \<Rightarrow> (rest0, ''''))
           in if u = '''' then Inl (Wrapf ''parse duration error: %w'' [] ErrUnknownUnit)
              else if valuePart = '''' then Inr (0, rest)
              else case Atoi valuePart of
                     Inl e \<Rightarrow> Inl (Wrapf ''parse duration %q error: %w'' [valuePart] e)
                   | Inr v \<Rightarrow>
                       (case adjustDuration v u of
                          Inl e \<Rightarrow> Inl e
                        | Inr d \<Rightarrow> Inr (d, rest))))"

lemma index_func_Some:
  "index_func p s = Some i \<Longrightarrow> i < length s \<and> p (s ! i) \<and> (\<forall>j < i. \<not> p (s ! j))"
  by (auto simp: index_func_def find_Some_iff)

lemma index_func_None: "index_func p s = None \<longleftrightarrow> (\<forall>c \<in> set s. \<not> p c)"
  unfolding index_func_def find_None_iff by (fastforce simp: in_set_conv_nth)

lemma getDurationParts_shorter:
  "getDurationParts inp = Inr (d, rest) \<Longrightarrow> length rest < length inp"
  by (auto simp: getDurationParts_def Let_def dest!: index_func_Some split: option.splits prod.splits if_splits sum.splits)

text \<open>The loop shared by \<open>MetricFromDuration\<close> and \<open>UnixTimeFromDuration\<close>.\<close>

function sum_duration :: "duration \<Rightarrow> string \<Rightarrow> goerror + duration" where
  "sum_duration totalDur dur =
     (if dur = '''' then Inr totalDur
      else case getDurationParts dur of
             Inl e \<Rightarrow> Inl e
           | Inr (d, rest) \<Rightarrow> sum_duration (totalDur + d) rest)"
  by pat_completeness auto
termination
  by (relation "measure (\<lambda>(t, dur). length dur)") (auto dest: getDurationParts_shorter)

declare sum_duration.simps [simp del]

definition Seconds :: "duration \<Rightarrow> f64" where
  \<comment> \<open>\<^verbatim>\<open>Duration.Seconds\<close>\<close>
  "Seconds d = f64_add (f64_of_int (sint d sdiv 1000000000))
                 (f64_div (f64_of_int (sint d smod 1000000000)) (f64_of_int 1000000000))"

definition MetricFromDuration :: ValueConverter where
  "MetricFromDuration dur =
     (case sum_duration 0 dur of
        Inl _ \<Rightarrow> Inl (Wrapf ''parse %s error: %w'' [dur] ErrInvalidDuration)
      | Inr totalDur \<Rightarrow> Inr (Seconds totalDur))"

definition UnixTimeFromDuration :: "int \<Rightarrow> ValueConverter" where
  \<comment> \<open>\<open>now\<close> is the time of the call in nanoseconds since the epoch\<close>
  "UnixTimeFromDuration now dur =
     (case sum_duration 0 dur of
        Inl _ \<Rightarrow> Inl (Wrapf ''parse %s error: %w'' [dur] ErrInvalidDuration)
      | Inr totalDur \<Rightarrow> Inr (f64_of_int ((now + sint (- totalDur)) div 1000000000)))"


section \<open>Other converters\<close>

definition MetricFromString :: ValueConverter where
  "MetricFromString val = ParseFloat val"

definition MetricFromBool :: ValueConverter where
  "MetricFromBool val = Inr (if val = ''true'' \<or> val = ''yes'' then f64_one else f64_zero)"

definition MetricFromBoolNeg :: ValueConverter where
  "MetricFromBoolNeg val = Inr (if val = ''false'' then f64_one else f64_zero)"

definition MetricConstantValue :: ValueConverter where
  "MetricConstantValue val = Inr f64_one"

definition MetricFromEnabled :: ValueConverter where
  "MetricFromEnabled val = Inr (if val = ''enabled'' then f64_one else f64_zero)"

definition MetricFromRunning :: ValueConverter where
  "MetricFromRunning inp = Inr (if inp = ''running'' then f64_one else f64_zero)"

definition ExtractPropertyFromReplay :: "reply \<Rightarrow> string \<Rightarrow> string list" where
  "ExtractPropertyFromReplay rep name = map (\<lambda>re. mlookup (sen_map re) name) (rep_re rep)"

definition before_at :: "string \<Rightarrow> string" where
  \<comment> \<open>\<^verbatim>\<open>if i := strings.Index(v, "@"); i > -1 { v = v[:i] }\<close>\<close>
  "before_at s = takeWhile (\<lambda>c. c \<noteq> CHR ''@'') s"

definition TruncAfterAt :: "ValueConverter \<Rightarrow> ValueConverter" where
  "TruncAfterAt conv = (\<lambda>val. if val = '''' then Inl ErrEmptyValue else conv (before_at val))"


section \<open>Properties\<close>

definition dur_part :: "int \<times> string \<Rightarrow> string" where
  "dur_part p = Itoa (fst p) @ snd p"

definition nanos :: "int \<times> string \<Rightarrow> int" where
  "nanos p = fst p * (case unit_nanos (snd p) of Some k \<Rightarrow> k | None \<Rightarrow> 0)"

definition good_part :: "int \<times> string \<Rightarrow> bool" where
  "good_part p \<longleftrightarrow> 0 \<le> fst p \<and> fst p \<le> MaxInt64 \<and> unit_nanos (snd p) \<noteq> None"

lemma unit_chars:
  "unit_nanos u \<noteq> None \<Longrightarrow> u \<noteq> '''' \<and> indexFuncChar (hd u) \<and> (\<forall>c \<in> set u. \<not> is_digit c)"
  by (auto simp: unit_nanos_def indexFuncChar_def is_digit_def char_code_def split: if_splits)

lemma find_first:
  "i < n \<Longrightarrow> P i \<Longrightarrow> (\<forall>j < i. \<not> P j) \<Longrightarrow> List.find P [0..<n] = Some i"
  by (auto simp: find_Some_iff)

lemma index_func_append:
  assumes "\<forall>c \<in> set a. \<not> p c" and "p b"
  shows "index_func p (a @ b # r) = Some (length a)"
proof -
  have "\<forall>j < length a. \<not> p ((a @ b # r) ! j)" using assms(1) by (simp add: nth_append)
  then show ?thesis unfolding index_func_def using assms(2) by (intro find_first) simp_all
qed

lemma digit_not_unit: "is_digit c \<Longrightarrow> \<not> indexFuncChar c"
  by (simp add: is_digit_def indexFuncChar_def)

lemma getDurationParts_part:
  assumes "good_part p" and r: "r = '''' \<or> is_digit (hd r)"
  shows "getDurationParts (dur_part p @ r) = Inr (word_of_int (nanos p), r)"
proof -
  obtain n u where p: "p = (n, u)" by (cases p)
  obtain k where k: "unit_nanos u = Some k" and n: "0 \<le> n" "n \<le> MaxInt64"
    using assms(1) by (auto simp: good_part_def p)
  obtain c cs where u: "u = c # cs" and c: "indexFuncChar c" and nd: "\<forall>x \<in> set u. \<not> is_digit x"
    using unit_chars [of u] k by (cases u) auto
  let ?v = "show_digits n"
  have v: "all_digits ?v" "?v \<noteq> []" "dec_val 0 ?v = n" using n by simp_all
  have i: "index_func indexFuncChar (?v @ c # cs @ r) = Some (length ?v)"
    using v(1) c by (intro index_func_append) (auto simp: all_digits_def dest: digit_not_unit)
  have j: "index_func indexFuncDigit (u @ r) = (if r = '''' then None else Some (length u))"
  proof (cases r)
    case Nil
    with nd show ?thesis by (simp add: index_func_None indexFuncDigit_def)
  next
    case (Cons d ds)
    with nd r index_func_append [of u indexFuncDigit d ds] show ?thesis by (simp add: indexFuncDigit_def)
  qed
  have "Atoi ?v = Inr n" using Atoi_digits [of ?v] v n by simp
  moreover have "dur_part p @ r = ?v @ c # cs @ r" using n by (simp add: dur_part_def p Itoa_def u)
  moreover have "adjustDuration n u = Inr (word_of_int (nanos p))"
    using k by (simp add: adjustDuration_def nanos_def p)
  ultimately show ?thesis using i j v u
    by (auto simp: getDurationParts_def Let_def)
qed

lemma parts_start:
  "\<forall>p \<in> set ps. good_part p \<Longrightarrow> concat (map dur_part ps) = '''' \<or> is_digit (hd (concat (map dur_part ps)))"
proof (cases ps)
  case (Cons p qs)
  assume "\<forall>p \<in> set ps. good_part p"
  with Cons have "0 \<le> fst p" by (simp add: good_part_def)
  then have "all_digits (show_digits (fst p))" "show_digits (fst p) \<noteq> []" by simp_all
  then show ?thesis using Cons \<open>0 \<le> fst p\<close>
    by (cases "show_digits (fst p)") (simp_all add: dur_part_def Itoa_def)
qed simp

lemma dur_part_not_Nil: "good_part p \<Longrightarrow> dur_part p \<noteq> ''''"
  by (auto simp: dur_part_def good_part_def unit_nanos_def)

lemma sum_duration_parts:
  "\<forall>p \<in> set ps. good_part p \<Longrightarrow>
     sum_duration t (concat (map dur_part ps)) = Inr (t + word_of_int (sum_list (map nanos ps)))"
proof (induction ps arbitrary: t)
  case Nil
  then show ?case by (subst sum_duration.simps) simp
next
  case (Cons p ps)
  let ?r = "concat (map dur_part ps)"
  have g: "getDurationParts (dur_part p @ ?r) = Inr (word_of_int (nanos p), ?r)"
    using Cons.prems getDurationParts_part [of p ?r] parts_start [of ps] by simp
  have "dur_part p \<noteq> ''''" using Cons.prems dur_part_not_Nil [of p] by simp
  with g have "sum_duration t (dur_part p @ ?r) = sum_duration (t + word_of_int (nanos p)) ?r"
    by (subst sum_duration.simps) simp
  with Cons show ?case by (simp add: add.assoc)
qed

lemma sint_small: "- (2 ^ 63) \<le> n \<Longrightarrow> n < 2 ^ 63 \<Longrightarrow> sint (word_of_int n :: 64 word) = n"
  by (simp add: signed_of_int signed_take_bit_int_eq_self)

text \<open>
  Property C20: a duration written as a sequence of numbers with units (\<^verbatim>\<open>w d h m s ms us\<close>, in any
  order) is read as the sum of its parts.  The sum is the one of 64-bit nanoseconds, which is the
  exact one below \<open>2 ^ 63\<close>.
\<close>

theorem MetricFromDuration_parts:
  assumes "\<forall>p \<in> set ps. good_part p"
  shows "\<exists>d. MetricFromDuration (concat (map dur_part ps)) = Inr (Seconds d)
     \<and> d = word_of_int (sum_list (map nanos ps))
     \<and> (sum_list (map nanos ps) < 2 ^ 63 \<longrightarrow> sint d = sum_list (map nanos ps))"
proof -
  let ?n = "sum_list (map nanos ps)"
  have "0 \<le> nanos p" if "good_part p" for p
    using that by (auto simp: good_part_def nanos_def unit_nanos_def split: if_splits)
  then have "0 \<le> ?n" using assms by (intro sum_list_nonneg) auto
  then have "?n < 2 ^ 63 \<longrightarrow> sint (word_of_int ?n :: duration) = ?n" by (simp add: sint_small)
  then show ?thesis using sum_duration_parts [OF assms, of 0] by (simp add: MetricFromDuration_def)
qed

theorem MetricFromDuration_parts_witness:
  "\<exists>d. MetricFromDuration ''3d42m53s'' = Inr (Seconds d) \<and> sint d = 261773000000000"
proof -
  have "concat (map dur_part [(3, ''d''), (42, ''m''), (53, ''s'')]) = ''3d42m53s''" by code_simp
  then show ?thesis
    using MetricFromDuration_parts [of "[(3, ''d''), (42, ''m''), (53, ''s'')]"]
    by (auto simp: good_part_def MaxInt64_def unit_nanos_def nanos_def)
qed


text \<open>
  A value that starts with a letter and has no digit, such as \<^verbatim>\<open>never\<close>, is read as a
  duration of zero, with no error.
\<close>

lemma MetricFromDuration_word:
  assumes "val \<noteq> ''''" and "indexFuncChar (hd val)" and "\<forall>c \<in> set val. \<not> is_digit c"
  shows "MetricFromDuration val = Inr f64_zero"
proof -
  obtain c cs where v: "val = c # cs" using assms(1) by (cases val) auto
  have "index_func indexFuncChar val = Some 0"
    using index_func_append [of "[]" indexFuncChar c cs] assms(2) v by simp
  moreover have "index_func indexFuncDigit val = None"
    using assms(3) by (simp add: index_func_None indexFuncDigit_def)
  ultimately have "getDurationParts val = Inr (0, '''')"
    using assms(1) by (simp add: getDurationParts_def Let_def)
  then have "sum_duration 0 val = Inr 0"
    using assms(1) by (subst sum_duration.simps) (simp add: sum_duration.simps [of 0 "''''"])
  moreover have "Seconds 0 = f64_zero" by code_simp
  ultimately show ?thesis by (simp add: MetricFromDuration_def)
qed

lemma digit_not_sep: "\<not> is_digit c \<Longrightarrow> all_digits ds \<Longrightarrow> c \<notin> set ds"
  by (auto simp: all_digits_def)

text \<open>
  A pair of counters: two numbers joined by the separator come back, in order, for
  every separator character that is not a digit and every number a float holds exactly.
\<close>

lemma SplitStringToFloats_counters:
  assumes "0 \<le> x" "x < 2 ^ 53" "0 \<le> y" "y < 2 ^ 53" and "\<not> is_digit c"
  shows "SplitStringToFloats (Itoa x @ c # Itoa y) [c] = Inr (f64_of_int x, f64_of_int y)"
proof -
  have n: "c \<notin> set (Itoa x)" "c \<notin> set (Itoa y)"
    using digit_not_sep [OF assms(5)] assms by (simp_all add: Itoa_def)
  have "split_on (Itoa x @ c # Itoa y) [c] = [Itoa x, Itoa y]"
    using n by (simp add: split_on_append split_on_none)
  then show ?thesis
    using ParseFloat_Itoa assms by (simp add: SplitStringToFloats_def)
qed

text \<open>Formatted dates.\<close>

definition pad2 :: "int \<Rightarrow> string" where
  "pad2 n = [digit_char (n div 10), digit_char (n mod 10)]"

definition pad4 :: "int \<Rightarrow> string" where
  "pad4 n = pad2 (n div 100) @ pad2 (n mod 100)"

definition format_clock :: "int \<Rightarrow> int \<Rightarrow> int \<Rightarrow> string" where
  "format_clock h mi s = pad2 h @ '':'' @ pad2 mi @ '':'' @ pad2 s"

definition valid_time :: "int \<Rightarrow> int \<Rightarrow> int \<Rightarrow> int \<Rightarrow> int \<Rightarrow> int \<Rightarrow> bool" where
  "valid_time y mo d h mi s \<longleftrightarrow> 0 \<le> y \<and> y \<le> 9999 \<and> 1 \<le> mo \<and> mo \<le> 12 \<and> 1 \<le> d \<and> d \<le> daysIn mo y
     \<and> 0 \<le> h \<and> h < 24 \<and> 0 \<le> mi \<and> mi < 60 \<and> 0 \<le> s \<and> s < 60"

lemma digit2_pad2: "0 \<le> n \<Longrightarrow> n < 100 \<Longrightarrow> digit2 (pad2 n @ r) = Some (n, r)"
  by (simp add: digit2_def pad2_def)

lemma digit12_pad2: "0 \<le> n \<Longrightarrow> n < 100 \<Longrightarrow> digit12 (pad2 n @ r) = Some (n, r)"
  by (simp add: digit12_def pad2_def)

lemma digit4_pad4: "0 \<le> n \<Longrightarrow> n < 10000 \<Longrightarrow> digit4 (pad4 n @ r) = Some (n, r)"
proof -
  assume n: "0 \<le> n" "n < 10000"
  have "((n div 100 div 10 * 10 + n div 100 mod 10) * 10 + n mod 100 div 10) * 10 + n mod 100 mod 10 = n"
    by presburger
  with n show ?thesis
    by (simp add: digit4_def pad4_def pad2_def)
qed

lemma lit_match [simp]: "lit c (c # r) = Some r"
  by (simp add: lit_def)

lemma parse_clock_format:
  assumes "0 \<le> h" "h < 24" "0 \<le> mi" "mi < 60" "0 \<le> s" "s < 60"
  shows "parse_clock (format_clock h mi s) = Some ((h, mi, s), '''')"
  using assms digit2_pad2 [of s "[]"]
  by (simp add: parse_clock_def format_clock_def digit2_pad2 digit12_pad2 skip_fraction_def)

lemma daysIn_le: "daysIn mo y \<le> 31"
  by (simp add: daysIn_def)

lemma finish_date_format:
  assumes "valid_time y mo d h mi s"
  shows "finish_date y mo d (CHR '' '' # format_clock h mi s) = Some (unix_time y mo d h mi s)"
proof -
  have h: "0 \<le> h div 10" "h div 10 < 10" using assms by (auto simp: valid_time_def)
  have "dropWhile (\<lambda>c. c = CHR '' '') (format_clock h mi s) = format_clock h mi s"
    using is_digit_char [of "h div 10"] h
    by (auto simp: format_clock_def pad2_def is_digit_def char_code_def)
  with assms show ?thesis
    by (auto simp: finish_date_def lit_space_def parse_clock_format valid_time_def)
qed

text \<open>
  Property C35: dates round trip.  A valid date and time printed in the layout
  \<^verbatim>\<open>YYYY-MM-DD hh:mm:ss\<close> is converted to its Unix time.
\<close>

theorem ParseTS_iso:
  assumes "valid_time y mo d h mi s"
  shows "ParseTS (pad4 y @ ''-'' @ pad2 mo @ ''-'' @ pad2 d @ '' '' @ format_clock h mi s)
           = Inr (f64_of_int (unix_time y mo d h mi s))"
proof -
  let ?s = "pad4 y @ ''-'' @ pad2 mo @ ''-'' @ pad2 d @ '' '' @ format_clock h mi s"
  have "parse_iso ?s = Some (unix_time y mo d h mi s)"
    using assms daysIn_le [of mo y] finish_date_format [OF assms]
    by (simp add: parse_iso_def digit4_pad4 digit2_pad2 valid_time_def)
  moreover have "?s \<noteq> ''''" by (simp add: pad4_def pad2_def)
  ultimately show ?thesis by (simp add: ParseTS_def)
qed

theorem ParseTS_iso_witness: "ParseTS ''2025-06-02 11:32:45'' = Inr (f64_of_int 1748863965)"
proof -
  have "pad4 2025 @ ''-'' @ pad2 6 @ ''-'' @ pad2 2 @ '' '' @ format_clock 11 32 45 = ''2025-06-02 11:32:45''"
    by code_simp
  moreover have "valid_time 2025 6 2 11 32 45" "unix_time 2025 6 2 11 32 45 = 1748863965" by code_simp+
  ultimately show ?thesis using ParseTS_iso [of 2025 6 2 11 32 45] by simp
qed

lemma div_pred:
  assumes "0 < (k::int)"
  shows "y div k = (y - 1) div k + (if k dvd y then 1 else 0)"
proof (cases "k dvd y")
  case True
  then obtain q where q: "y = k * q" by blast
  have "(k * q - 1) div k = (k * (q - 1) + (k - 1)) div k" by (simp add: algebra_simps)
  also have "\<dots> = q - 1" using assms by (simp add: div_pos_pos_trivial)
  finally show ?thesis using q assms by simp
next
  case False
  then have "y mod k \<noteq> 0" by (simp add: dvd_eq_mod_eq_0)
  with assms have r: "1 \<le> y mod k" "y mod k < k" using pos_mod_bound [of k y] pos_mod_sign [of k y] by linarith+
  have z: "(y mod k - 1) div k = 0" by (rule div_pos_pos_trivial; use r in linarith)
  have "(y - 1) div k = (k * (y div k) + (y mod k - 1)) div k" by (simp add: algebra_simps)
  also have "\<dots> = y div k" using z assms by simp
  finally show ?thesis using False by simp
qed

lemma isLeap_dvd: "isLeap y \<longleftrightarrow> 4 dvd y \<and> (\<not> 100 dvd y \<or> 400 dvd y)"
  by (simp add: isLeap_def dvd_eq_mod_eq_0)

lemma diff_parts:
  "365 * (y + 1 - 1970) + (a - b + c) - 477 - (365 * (y - 1970) + (a' - b' + c') - 477)
     = 365 + (a - a') - (b - b') + (c - (c' :: int))"
  by (simp add: algebra_simps)

lemma diff_of_eq: "a = b + c \<Longrightarrow> a - b = (c :: int)"
  by simp

lemma days_next_year: "days_before_year (y + 1) = days_before_year y + (if isLeap y then 366 else 365)"
proof -
  have d: "400 dvd y \<Longrightarrow> 100 dvd y" "100 dvd y \<Longrightarrow> 4 dvd y"
    by (rule dvd_trans; simp)+
  have e: "y div 4 = (y - 1) div 4 + (if 4 dvd y then 1 else 0)"
    "y div 100 = (y - 1) div 100 + (if 100 dvd y then 1 else 0)"
    "y div 400 = (y - 1) div 400 + (if 400 dvd y then 1 else 0)"
    by (rule div_pred, simp)+
  have "days_before_year (y + 1) - days_before_year y
      = 365 + (y div 4 - (y - 1) div 4) - (y div 100 - (y - 1) div 100) + (y div 400 - (y - 1) div 400)"
    unfolding days_before_year_def add_diff_cancel_right' by (rule diff_parts)
  also have "\<dots> = 365 + (if 4 dvd y then 1 else 0) - (if 100 dvd y then 1 else 0) + (if 400 dvd y then 1 else 0)"
    by (simp only: diff_of_eq [OF e(1)] diff_of_eq [OF e(2)] diff_of_eq [OF e(3)])
  also have "\<dots> = (if isLeap y then 366 else 365)"
    unfolding isLeap_dvd using d by (cases "400 dvd y"; cases "100 dvd y"; cases "4 dvd y") simp_all
  finally show ?thesis by linarith
qed

lemma days_next_month:
  "1 \<le> mo \<Longrightarrow> days_before_month (mo + 1) y = days_before_month mo y + daysIn mo y"
  by (simp add: days_before_month_def upto_rec2)

lemma days_of_year: "days_before_month 13 y = (if isLeap y then 366 else 365)"
  by (simp add: days_before_month_def daysIn_def upto_rec1)

text \<open>
  Unix time follows the calendar.  It is zero at the epoch and counts seconds within
  a day and days within a month; the first of a month comes one day after the last of the month
  before it, and the first of January one day after the 31st of December, leap years included.
\<close>

lemma unix_time_calendar:
  "unix_time 1970 1 1 0 0 0 = 0
   \<and> unix_time y mo d h mi s = unix_time y mo 1 0 0 0 + (d - 1) * 86400 + h * 3600 + mi * 60 + s
   \<and> unix_time y (int m + 2) 1 0 0 0 = unix_time y (int m + 1) (daysIn (int m + 1) y) 0 0 0 + 86400
   \<and> unix_time (y + 1) 1 1 0 0 0 = unix_time y 12 31 0 0 0 + 86400"
proof (intro conjI)
  show "unix_time 1970 1 1 0 0 0 = 0" by code_simp
  show "unix_time y mo d h mi s = unix_time y mo 1 0 0 0 + (d - 1) * 86400 + h * 3600 + mi * 60 + s"
    by (simp add: unix_time_def)
  show "unix_time y (int m + 2) 1 0 0 0 = unix_time y (int m + 1) (daysIn (int m + 1) y) 0 0 0 + 86400"
    using days_next_month [of "int m + 1" y] by (simp add: unix_time_def algebra_simps)
  have "days_before_month 12 y + 31 = days_before_month 13 y"
    using days_next_month [of 12 y] by (simp add: daysIn_def)
  moreover have "days_before_month 1 y = 0" for y by (simp add: days_before_month_def)
  ultimately show "unix_time (y + 1) 1 1 0 0 0 = unix_time y 12 31 0 0 0 + 86400"
    using days_of_year [of y] days_next_year [of y] by (simp add: unix_time_def)
qed

end
