(* ===== verification/Config.thy ===== *)
theory Config
  imports Strconv "HOL-Library.Product_Lexorder"
begin

text \<open>
  Package \<^verbatim>\<open>internal/config\<close>: the configuration, its validation and normalisation (\<open>Load\<close>), the
  features of a device and the firmware version.  The YAML decoder of \<^verbatim>\<open>gopkg.in/yaml.v3\<close> is a
  parameter: \<open>Load\<close> gets the decoded configuration, \<open>UnmarshalYAML\<close> the two ways to decode a node.
  A Go map that may be nil is an option.
\<close>

section \<open>Feature configuration\<close>

datatype yval = YNull | YBool bool | YInt int | YFloat f64 | YStr string | YList "yval list"
  | YMap "(string \<times> yval) list"

type_synonym FeatureConf = "yval gomap option"

definition NewFeatureConf :: FeatureConf where
  "NewFeatureConf = Some [(''enabled'', YBool True)]"

definition conf_get :: "FeatureConf \<Rightarrow> string \<Rightarrow> yval option" where
  "conf_get f name = (case f of None \<Rightarrow> None | Some m \<Rightarrow> mget m name)"

definition BoolValue :: "FeatureConf \<Rightarrow> string \<Rightarrow> bool \<Rightarrow> bool" where
  "BoolValue f name defaultValue =
     (case conf_get f name of Some (YBool b) \<Rightarrow> b | _ \<Rightarrow> defaultValue)"

definition Enabled :: "FeatureConf \<Rightarrow> bool" where
  "Enabled f = BoolValue f ''enabled'' True"

fun strs_loop :: "yval list \<Rightarrow> goerror + string list" where
  "strs_loop [] = Inr []"
| "strs_loop (inp # inlist) =
     (case inp of
        YStr v \<Rightarrow>
          (case strs_loop inlist of
             Inl e \<Rightarrow> Inl e
           | Inr res \<Rightarrow> Inr (if trim_space v \<noteq> '''' then trim_space v # res else res))
      | _ \<Rightarrow> Inl ErrInvalidValueType)"

definition Strs :: "FeatureConf \<Rightarrow> string \<Rightarrow> goerror + string list" where
  "Strs f name =
     (case conf_get f name of
        None \<Rightarrow> Inr []
      | Some (YList inlist) \<Rightarrow> strs_loop inlist
      | Some _ \<Rightarrow> Inl ErrInvalidValueType)"

definition UnmarshalYAML :: "('n \<Rightarrow> goerror + yval gomap) \<Rightarrow> ('n \<Rightarrow> goerror + bool) \<Rightarrow> 'n
    \<Rightarrow> goerror + FeatureConf" where
  "UnmarshalYAML decode_map decode_bool node =
     (case decode_map node of
        Inr valmap \<Rightarrow> Inr (Some valmap)
      | Inl _ \<Rightarrow>
          (case decode_bool node of
             Inl err \<Rightarrow> Inl (Wrapf ''decode FeatureConf %v error: %w'' [] err)
           | Inr single \<Rightarrow> Inr (Some [(''enabled'', YBool single)])))"


section \<open>Features\<close>

type_synonym Features = "FeatureConf gomap option"

definition feats :: "Features \<Rightarrow> FeatureConf gomap" where
  \<comment> \<open>what ranging over the map sees\<close>
  "feats f = (case f of None \<Rightarrow> [] | Some m \<Rightarrow> m)"

definition ConfigFor :: "Features \<Rightarrow> string \<Rightarrow> FeatureConf" where
  "ConfigFor f name = (case mget (feats f) name of Some c \<Rightarrow> c | None \<Rightarrow> None)"

definition FeatureNames :: "Features \<Rightarrow> string list" where
  "FeatureNames f = map fst (filter (\<lambda>(name, cfg). Enabled cfg) (feats f))"

fun unknown_features :: "string list \<Rightarrow> string list \<Rightarrow> goerror option \<Rightarrow> goerror option" where
  "unknown_features collectors [] result = result"
| "unknown_features collectors (key # ks) result =
     unknown_features collectors ks
       (if ToLower key \<in> set collectors then result
        else errors_join [result, Some (UnknownFeatureError key)])"

definition features_validate :: "string list \<Rightarrow> Features \<Rightarrow> goerror option" where
  "features_validate collectors f =
     (if collectors = [] then None else unknown_features collectors (mkeys (feats f)) None)"

definition fix_conf :: "FeatureConf \<Rightarrow> FeatureConf" where
  "fix_conf v =
     (case v of
        None \<Rightarrow> Some [(''enabled'', YBool True)]
      | Some m \<Rightarrow> if mget m ''enabled'' = None then Some (mput ''enabled'' (YBool True) m) else Some m)"

definition features_fix :: "Features \<Rightarrow> Features" where
  "features_fix f = map_option (map (\<lambda>(k, v). (k, fix_conf v))) f"


section \<open>Devices\<close>

record DNSServer =
  dns_Address :: string
  dns_Port :: int

record SrvRecord =
  srv_DNS :: "DNSServer option"
  srv_Record :: string

record FirmwareVersion =
  fv_Major :: int
  fv_Minor :: int
  fv_Patch :: int
  fv_Architecture :: string

record Device =
  dev_Srv :: "SrvRecord option"
  dev_Profile :: string
  dev_User :: string
  dev_Password :: string
  dev_Port :: string
  dev_Name :: string
  dev_Address :: string
  dev_Timeout :: int
  dev_CollectTimeout :: int
  dev_IPv6Disabled :: bool
  dev_TLS :: bool
  dev_Insecure :: bool
  dev_Disabled :: bool
  dev_FirmwareVersion :: FirmwareVersion
  dev_Timezone :: string

definition zero_version :: FirmwareVersion where
  "zero_version = \<lparr>fv_Major = 0, fv_Minor = 0, fv_Patch = 0, fv_Architecture = ''''\<rparr>"

definition zero_device :: Device where
  \<comment> \<open>the composite literal \<^verbatim>\<open>Device{}\<close>\<close>
  "zero_device = \<lparr>dev_Srv = None, dev_Profile = '''', dev_User = '''', dev_Password = '''',
     dev_Port = '''', dev_Name = '''', dev_Address = '''', dev_Timeout = 0, dev_CollectTimeout = 0,
     dev_IPv6Disabled = False, dev_TLS = False, dev_Insecure = False, dev_Disabled = False,
     dev_FirmwareVersion = zero_version, dev_Timezone = ''''\<rparr>"

definition validateConnConf :: "Device \<Rightarrow> goerror option" where
  "validateConnConf d =
     (let need = (\<lambda>bad name errs. if bad then errors_join [errs, Some (MissingFieldError name)] else errs);
          errs0 = (case dev_Srv d of
                     None \<Rightarrow> need (dev_Address d = '''') ''address'' (need (dev_Name d = '''') ''name'' None)
                   | Some srv \<Rightarrow> need (srv_Record srv = '''') ''srv.record'' None)
      in need (dev_Password d = '''') ''password'' (need (dev_User d = '''') ''user'' errs0))"

definition validateProfile :: "Features gomap \<Rightarrow> Device \<Rightarrow> goerror option" where
  "validateProfile profiles d =
     (if dev_Profile d \<noteq> '''' \<and> mget profiles (dev_Profile d) = None
      then Some (UnknownProfileError (dev_Profile d)) else None)"

definition device_validate :: "Features gomap \<Rightarrow> Device \<Rightarrow> goerror option" where
  "device_validate profiles d = errors_join [validateConnConf d, validateProfile profiles d]"

definition Compare :: "FirmwareVersion \<Rightarrow> int \<Rightarrow> int \<Rightarrow> int \<Rightarrow> int" where
  "Compare f major minor patch =
     (if fv_Major f < major then -1 else if fv_Major f > major then 1
      else if fv_Minor f < minor then -1 else if fv_Minor f > minor then 1
      else if fv_Patch f < patch then -1 else if fv_Patch f > patch then 1
      else 0)"

definition CheckArchitecture :: "FirmwareVersion \<Rightarrow> string list \<Rightarrow> bool" where
  "CheckArchitecture f expected \<longleftrightarrow> fv_Architecture f \<in> set expected"

definition filterDevices :: "Device list \<Rightarrow> Device list" where
  "filterDevices devices = filter (\<lambda>d. \<not> dev_Disabled d) devices"


section \<open>The configuration\<close>

record Config =
  cfg_Features :: Features
  cfg_Profiles :: "Features gomap"
  cfg_Devices :: "Device list"

definition DeviceFeatures :: "Config \<Rightarrow> string \<Rightarrow> Features outcome" where
  "DeviceFeatures c deviceName =
     (case List.find (\<lambda>d. dev_Name d = deviceName) (cfg_Devices c) of
        None \<Rightarrow> Panicked (PanicMsg (''unknown device '' @ deviceName))
      | Some d \<Rightarrow>
          if dev_Profile d = '''' then Return (cfg_Features c)
          else (case mget (cfg_Profiles c) (dev_Profile d) of
                  Some f \<Rightarrow> Return f
                | None \<Rightarrow> Panicked (PanicMsg (''unknown profile '' @ dev_Profile d @ '' in device ''
                                              @ deviceName))))"

definition FindDevice :: "Config \<Rightarrow> string \<Rightarrow> Device outcome" where
  "FindDevice c deviceName =
     (case List.find (\<lambda>d. dev_Name d = deviceName) (cfg_Devices c) of
        None \<Rightarrow> Panicked (PanicMsg (''unknown device '' @ deviceName))
      | Some d \<Rightarrow> Return d)"

definition unique_names :: "string list \<Rightarrow> unit gomap \<Rightarrow> unit gomap" where
  "unique_names ns m = fold (\<lambda>n. mput n ()) ns m"

fun all_enabled :: "Config \<Rightarrow> Device list \<Rightarrow> unit gomap \<Rightarrow> unit gomap outcome" where
  "all_enabled c [] uniqueNames = Return uniqueNames"
| "all_enabled c (dev # devs) uniqueNames =
     (case (if dev_Profile dev \<noteq> '''' then DeviceFeatures c (dev_Name dev) else Return (cfg_Features c)) of
        Return features \<Rightarrow> all_enabled c devs (unique_names (FeatureNames features) uniqueNames)
      | Panicked p \<Rightarrow> Panicked p
      | Blocked \<Rightarrow> Blocked)"

definition AllEnabledFeatures :: "Config \<Rightarrow> string list outcome" where
  "AllEnabledFeatures c =
     (case all_enabled c (cfg_Devices c) [] of
        Return m \<Rightarrow> Return (mkeys m) | Panicked p \<Rightarrow> Panicked p | Blocked \<Rightarrow> Blocked)"

fun validate_profiles :: "string list \<Rightarrow> (string \<times> Features) list
    \<Rightarrow> (goerror + (string \<times> Features) list) outcome" where
  "validate_profiles collectors [] = Return (Inr [])"
| "validate_profiles collectors ((name, features) # ps) =
     (case features_validate collectors features of
        Some err \<Rightarrow> Return (Inl (Wrapf ''invalid profile '%s': %w'' [name] err))
      | None \<Rightarrow>
          (case features of
             None \<Rightarrow> Panicked NilMapAssignment
           | Some m \<Rightarrow>
               (case validate_profiles collectors ps of
                  Return (Inr ps') \<Rightarrow> Return (Inr ((name, Some (mput ''resource'' None m)) # ps'))
                | r \<Rightarrow> r)))"

fun validate_devices :: "Features gomap \<Rightarrow> nat \<Rightarrow> Device list \<Rightarrow> goerror option \<Rightarrow> goerror option" where
  "validate_devices profiles idx [] errs = errs"
| "validate_devices profiles idx (d # ds) errs =
     validate_devices profiles (Suc idx) ds
       (case device_validate profiles d of
          None \<Rightarrow> errs
        | Some err \<Rightarrow> errors_join [errs,
            Some (Wrapf ''invalid device %d (%s) configuration: %w'' [Itoa (int idx), dev_Name d] err)])"

definition config_validate :: "string list \<Rightarrow> Config \<Rightarrow> (goerror + Config) outcome" where
  "config_validate collectors c =
     (case validate_profiles collectors (cfg_Profiles c) of
        Return (Inl e) \<Rightarrow> Return (Inl e)
      | Return (Inr ps) \<Rightarrow>
          (case validate_devices ps 0 (cfg_Devices c) None of
             Some e \<Rightarrow> Return (Inl e)
           | None \<Rightarrow> Return (Inr (c\<lparr>cfg_Profiles := ps\<rparr>)))
      | Panicked p \<Rightarrow> Panicked p
      | Blocked \<Rightarrow> Blocked)"

definition config_fix :: "Config \<Rightarrow> Config" where
  "config_fix c = c\<lparr>cfg_Features := features_fix (cfg_Features c),
                    cfg_Profiles := map (\<lambda>(n, f). (n, features_fix f)) (cfg_Profiles c)\<rparr>"

definition Load :: "(string \<Rightarrow> goerror + Config) \<Rightarrow> goerror + string \<Rightarrow> string list
    \<Rightarrow> (goerror + Config) outcome" where
  \<comment> \<open>the second argument is what reading the file gives\<close>
  "Load unmarshal r collectors =
     (case r of
        Inl err \<Rightarrow> Return (Inl (Wrapf ''read error: %w'' [] err))
      | Inr b \<Rightarrow>
          (case unmarshal b of
             Inl err \<Rightarrow> Return (Inl (Wrapf ''unmarshal error: %w'' [] err))
           | Inr cfg \<Rightarrow>
               (case features_validate collectors (cfg_Features cfg) of
                  Some err \<Rightarrow> Return (Inl (Wrapf ''validate features error: %w'' [] err))
                | None \<Rightarrow>
                    (let cfg1 = cfg\<lparr>cfg_Features := Some (mput ''resource'' None (feats (cfg_Features cfg))),
                                    cfg_Devices := filterDevices (cfg_Devices cfg)\<rparr>
                     in case config_validate collectors cfg1 of
                          Return (Inr cfg2) \<Rightarrow> Return (Inr (config_fix cfg2))
                        | r \<Rightarrow> r))))"


section \<open>Lemmas\<close>

lemma mget_map_snd: "mget (map (\<lambda>(k, v). (k, g v)) m) k = map_option g (mget m k)"
  by (simp add: mget_def map_of_map)

lemma mkeys_map_snd: "mkeys (map (\<lambda>(k, v). (k, g v)) m) = mkeys m"
  by (auto simp: mkeys_def)

lemma feats_fix: "feats (features_fix f) = map (\<lambda>(k, v). (k, fix_conf v)) (feats f)"
  by (simp add: feats_def features_fix_def split: option.splits)

lemma conf_get_fix: "conf_get (fix_conf v) k = (case conf_get v k of
     Some x \<Rightarrow> Some x | None \<Rightarrow> if k = ''enabled'' then Some (YBool True) else None)"
  by (cases v) (auto simp: conf_get_def fix_conf_def split: option.splits, simp_all add: mget_def)

lemma Enabled_fix [simp]: "Enabled (fix_conf v) = Enabled v"
  by (auto simp: Enabled_def BoolValue_def conf_get_fix split: option.splits)

lemma fix_conf_idem [simp]: "fix_conf (fix_conf v) = fix_conf v"
  by (cases v) (auto simp: fix_conf_def, simp add: mget_def)

lemma FeatureNames_fix [simp]: "FeatureNames (features_fix f) = FeatureNames f"
proof -
  have "map fst (filter (\<lambda>(n, c). Enabled c) (map (\<lambda>(k, v). (k, fix_conf v)) m))
      = map fst (filter (\<lambda>(n, c). Enabled c) m)" for m
    by (induction m) auto
  then show ?thesis by (simp add: FeatureNames_def feats_fix)
qed

lemma in_FeatureNames:
  "wf_map (feats f) \<Longrightarrow> n \<in> set (FeatureNames f) \<longleftrightarrow> (\<exists>c. mget (feats f) n = Some c \<and> Enabled c)"
  by (force simp: FeatureNames_def mget_iff_in_set image_iff)

lemma unknown_features_None_iff:
  "unknown_features cs ks r = None \<longleftrightarrow> r = None \<and> (\<forall>k \<in> set ks. ToLower k \<in> set cs)"
  by (induction cs ks r rule: unknown_features.induct) (auto simp: errors_join_None_iff)

lemma features_validate_None_iff:
  "features_validate cs f = None \<longleftrightarrow> cs = [] \<or> (\<forall>k \<in> set (mkeys (feats f)). ToLower k \<in> set cs)"
  by (simp add: features_validate_def unknown_features_None_iff)

lemma validate_devices_None_iff:
  "validate_devices ps i ds r = None \<longleftrightarrow> r = None \<and> (\<forall>d \<in> set ds. device_validate ps d = None)"
  by (induction ps i ds r rule: validate_devices.induct) (auto simp: errors_join_None_iff split: option.splits)

lemma device_validate_None_iff:
  "device_validate ps d = None \<longleftrightarrow> validateConnConf d = None
     \<and> (dev_Profile d = '''' \<or> (\<exists>f. mget ps (dev_Profile d) = Some f))"
  by (auto simp: device_validate_def errors_join_None_iff validateProfile_def)

text \<open>What \<open>validate_profiles\<close> returns: every profile with \<^verbatim>\<open>resource\<close>, provided none is nil.\<close>

lemma validate_profiles_Return:
  "validate_profiles cs ps = Return (Inr ps') \<longleftrightarrow>
     (\<forall>(n, f) \<in> set ps. f \<noteq> None \<and> features_validate cs f = None)
     \<and> ps' = map (\<lambda>(n, f). (n, Some (mput ''resource'' None (feats f)))) ps"
proof (induction cs ps arbitrary: ps' rule: validate_profiles.induct)
  case (2 cs n f ps)
  show ?case
  proof (cases "features_validate cs f = None \<and> f \<noteq> None")
    case False
    then show ?thesis by (auto split: option.splits)
  next
    case True
    then obtain m where f: "f = Some m" and v: "features_validate cs f = None" by auto
    let ?g = "\<lambda>(n, f). (n, Some (mput ''resource'' None (feats f)))"
    have IH: "validate_profiles cs ps = Return (Inr ps') \<longleftrightarrow>
        (\<forall>(n, f) \<in> set ps. f \<noteq> None \<and> features_validate cs f = None) \<and> ps' = map ?g ps" for ps'
      by (rule "2.IH" [OF v f])
    show ?thesis
    proof (cases "\<forall>(n, f) \<in> set ps. f \<noteq> None \<and> features_validate cs f = None")
      case True
      then have "validate_profiles cs ps = Return (Inr (map ?g ps))" by (simp add: IH)
      with True f v show ?thesis by (auto simp: feats_def)
    next
      case False
      then have "validate_profiles cs ps \<noteq> Return (Inr qs)" for qs by (simp only: IH simp_thms)
      with False f v show ?thesis by (auto split: outcome.splits sum.splits)
    qed
  qed
qed auto

lemma fixed_profiles:
  "map ((\<lambda>(n, f). (n, features_fix f)) \<circ> (\<lambda>(n, f). (n, Some (mput ''resource'' None (feats f))))) ps
     = map (\<lambda>(n, f). (n, features_fix (Some (mput ''resource'' None (feats f))))) ps"
  by (induction ps) auto

lemma Load_InrE:
  assumes "Load unmarshal r collectors = Return (Inr cfg)"
  obtains b raw where "r = Inr b" "unmarshal b = Inr raw"
    "features_validate collectors (cfg_Features raw) = None"
    "\<forall>(n, f) \<in> set (cfg_Profiles raw). f \<noteq> None \<and> features_validate collectors f = None"
    "\<forall>d \<in> set (filterDevices (cfg_Devices raw)). device_validate
        (map (\<lambda>(n, f). (n, Some (mput ''resource'' None (feats f)))) (cfg_Profiles raw)) d = None"
    "cfg = \<lparr>cfg_Features = features_fix (Some (mput ''resource'' None (feats (cfg_Features raw)))),
           cfg_Profiles = map (\<lambda>(n, f). (n, features_fix (Some (mput ''resource'' None (feats f))))) (cfg_Profiles raw),
           cfg_Devices = filterDevices (cfg_Devices raw)\<rparr>"
proof -
  from assms obtain b raw where r: "r = Inr b" "unmarshal b = Inr raw"
    and v: "features_validate collectors (cfg_Features raw) = None"
    by (auto simp: Load_def split: sum.splits option.splits)
  let ?f = "Some (mput ''resource'' None (feats (cfg_Features raw)))"
  let ?c1 = "raw\<lparr>cfg_Features := ?f, cfg_Devices := filterDevices (cfg_Devices raw)\<rparr>"
  from assms r v obtain cfg2 where c2: "config_validate collectors ?c1 = Return (Inr cfg2)"
    and cfg: "cfg = config_fix cfg2"
    by (auto simp: Load_def Let_def split: outcome.splits sum.splits)
  from c2 obtain ps where ps: "validate_profiles collectors (cfg_Profiles raw) = Return (Inr ps)"
    and d: "validate_devices ps 0 (filterDevices (cfg_Devices raw)) None = None"
    and c2': "cfg2 = ?c1\<lparr>cfg_Profiles := ps\<rparr>"
    by (auto simp: config_validate_def split: outcome.splits sum.splits option.splits)
  show thesis
    by (rule that [OF r v])
       (use ps d c2' cfg in \<open>auto simp: validate_profiles_Return validate_devices_None_iff config_fix_def fixed_profiles\<close>)
qed

text \<open>The configurations \<open>Load\<close> returns.\<close>

definition good_features :: "string list \<Rightarrow> Features \<Rightarrow> bool" where
  "good_features collectors f \<longleftrightarrow>
     (\<forall>k \<in> set (mkeys (feats f)). k = ''resource'' \<or> collectors = [] \<or> ToLower k \<in> set collectors)
     \<and> (\<forall>(k, c) \<in> set (feats f). conf_get c ''enabled'' \<noteq> None)
     \<and> mget (feats f) ''resource'' = Some NewFeatureConf"

definition good_config :: "string list \<Rightarrow> Config \<Rightarrow> bool" where
  "good_config collectors c \<longleftrightarrow>
     good_features collectors (cfg_Features c)
     \<and> (\<forall>(n, f) \<in> set (cfg_Profiles c). good_features collectors f)
     \<and> (\<forall>d \<in> set (cfg_Devices c). \<not> dev_Disabled d \<and> validateConnConf d = None
          \<and> (dev_Profile d = '''' \<or> mget (cfg_Profiles c) (dev_Profile d) \<noteq> None))"

lemma good_features_fixed:
  assumes "features_validate collectors f = None"
  shows "good_features collectors (features_fix (Some (mput ''resource'' None (feats f))))"
proof -
  have "conf_get (fix_conf c) ''enabled'' \<noteq> None" for c by (auto simp: conf_get_fix split: option.splits)
  moreover have "mkeys (map (\<lambda>(k, v). (k, fix_conf v)) m) = mkeys m" for m by (rule mkeys_map_snd)
  moreover have "\<forall>k \<in> set (mkeys (feats f)). collectors = [] \<or> ToLower k \<in> set collectors"
    using assms by (auto simp: features_validate_None_iff)
  ultimately show ?thesis
    by (auto simp: good_features_def feats_fix feats_def [of "Some _"] mget_map_snd fix_conf_def NewFeatureConf_def)
qed

lemma Load_good:
  assumes "Load unmarshal r collectors = Return (Inr cfg)"
  shows "good_config collectors cfg"
  using assms
proof (rule Load_InrE)
  fix b raw
  assume f: "features_validate collectors (cfg_Features raw) = None"
    and p: "\<forall>(n, f) \<in> set (cfg_Profiles raw). f \<noteq> None \<and> features_validate collectors f = None"
    and d: "\<forall>d \<in> set (filterDevices (cfg_Devices raw)). device_validate
        (map (\<lambda>(n, f). (n, Some (mput ''resource'' None (feats f)))) (cfg_Profiles raw)) d = None"
    and cfg: "cfg = \<lparr>cfg_Features = features_fix (Some (mput ''resource'' None (feats (cfg_Features raw)))),
           cfg_Profiles = map (\<lambda>(n, f). (n, features_fix (Some (mput ''resource'' None (feats f))))) (cfg_Profiles raw),
           cfg_Devices = filterDevices (cfg_Devices raw)\<rparr>"
  show ?thesis
    unfolding good_config_def cfg
    using f p d
    by (auto simp: good_features_fixed device_validate_None_iff mget_map_snd filterDevices_def)
qed


lemma in_unique_names: "n \<in> set (mkeys (unique_names ns m)) \<longleftrightarrow> n \<in> set ns \<or> n \<in> set (mkeys m)"
  unfolding unique_names_def by (induction ns arbitrary: m) auto

lemma wf_unique_names: "wf_map m \<Longrightarrow> wf_map (unique_names ns m)"
  unfolding unique_names_def by (induction ns arbitrary: m) auto

definition used_features :: "Config \<Rightarrow> Device \<Rightarrow> Features outcome" where
  "used_features c dev =
     (if dev_Profile dev \<noteq> '''' then DeviceFeatures c (dev_Name dev) else Return (cfg_Features c))"

lemma all_enabled_Return:
  "\<forall>d \<in> set devs. \<exists>f. used_features c d = Return f \<Longrightarrow> wf_map m \<Longrightarrow>
     \<exists>m'. all_enabled c devs m = Return m' \<and> wf_map m' \<and>
       (\<forall>n. n \<in> set (mkeys m') \<longleftrightarrow> n \<in> set (mkeys m) \<or>
          (\<exists>d \<in> set devs. \<exists>f. used_features c d = Return f \<and> n \<in> set (FeatureNames f)))"
proof (induction devs arbitrary: m)
  case (Cons d devs)
  then obtain f where f: "used_features c d = Return f" by auto
  let ?m = "unique_names (FeatureNames f) m"
  obtain m' where "all_enabled c devs ?m = Return m'" "wf_map m'"
    and "\<forall>n. n \<in> set (mkeys m') \<longleftrightarrow> n \<in> set (mkeys ?m) \<or>
          (\<exists>d \<in> set devs. \<exists>f. used_features c d = Return f \<and> n \<in> set (FeatureNames f))"
    using Cons.IH [of ?m] Cons.prems wf_unique_names by auto
  moreover have "all_enabled c (d # devs) m = all_enabled c devs ?m"
    using f by (auto simp: used_features_def split: if_splits)
  ultimately show ?case using f by (auto simp: in_unique_names)
qed simp

lemma DeviceFeatures_good:
  assumes "good_config collectors c" and "d \<in> set (cfg_Devices c)"
  shows "\<exists>d0 f. d0 \<in> set (cfg_Devices c) \<and> dev_Name d0 = dev_Name d
     \<and> DeviceFeatures c (dev_Name d) = Return f \<and> used_features c d0 = Return f \<and> good_features collectors f"
proof -
  obtain d0 where d0: "List.find (\<lambda>x. dev_Name x = dev_Name d) (cfg_Devices c) = Some d0"
    using assms(2) by (fastforce simp: find_None_iff simp flip: not_None_eq)
  then have in0: "d0 \<in> set (cfg_Devices c)" "dev_Name d0 = dev_Name d"
    by (auto simp: find_Some_iff)
  show ?thesis
  proof (cases "dev_Profile d0 = ''''")
    case True
    with d0 in0 assms show ?thesis by (auto simp: DeviceFeatures_def used_features_def good_config_def)
  next
    case False
    with in0 assms(1) obtain f where f: "mget (cfg_Profiles c) (dev_Profile d0) = Some f"
      by (auto simp: good_config_def)
    with assms(1) mget_in_set [OF f] have "good_features collectors f" by (auto simp: good_config_def)
    with d0 in0 False f show ?thesis by (auto simp: DeviceFeatures_def used_features_def)
  qed
qed

lemma good_features_resource:
  assumes "good_features collectors f"
  shows "''resource'' \<in> set (FeatureNames f)"
proof -
  have "(''resource'', NewFeatureConf) \<in> set (feats f)"
    using assms by (auto simp: good_features_def dest: mget_in_set)
  moreover have "Enabled NewFeatureConf" by code_simp
  ultimately show ?thesis unfolding FeatureNames_def by (force simp: image_iff)
qed


lemma enabled_features_good:
  assumes "good_config collectors cfg"
  shows "\<exists>ns. AllEnabledFeatures cfg = Return ns \<and> distinct ns
     \<and> (\<forall>d \<in> set (cfg_Devices cfg). \<exists>f. DeviceFeatures cfg (dev_Name d) = Return f
          \<and> good_features collectors f \<and> ''resource'' \<in> set (FeatureNames f) \<and> set (FeatureNames f) \<subseteq> set ns)"
proof -
  note g = assms
  have u: "\<forall>d \<in> set (cfg_Devices cfg). \<exists>f. used_features cfg d = Return f"
    using DeviceFeatures_good [OF g] by (auto simp: used_features_def)
  obtain m where m: "all_enabled cfg (cfg_Devices cfg) [] = Return m" "wf_map m"
    and n: "\<forall>n. n \<in> set (mkeys m) \<longleftrightarrow> (\<exists>d \<in> set (cfg_Devices cfg). \<exists>f. used_features cfg d = Return f
            \<and> n \<in> set (FeatureNames f))"
    using all_enabled_Return [OF u, of "[]"] by (auto simp: mkeys_def)
  have "\<exists>f. DeviceFeatures cfg (dev_Name d) = Return f \<and> good_features collectors f
          \<and> ''resource'' \<in> set (FeatureNames f) \<and> set (FeatureNames f) \<subseteq> set (mkeys m)"
    if "d \<in> set (cfg_Devices cfg)" for d
    using DeviceFeatures_good [OF g that] n good_features_resource by blast
  with m show ?thesis by (auto simp: AllEnabledFeatures_def wf_map_def mkeys_def)
qed


section \<open>Properties\<close>

text \<open>
  Property C8: what \<open>Load\<close> guarantees of every configuration it accepts.  All devices are enabled
  and have their connection data, every profile a device names exists, and the features of the
  configuration and of every profile have known names, an explicit \<^verbatim>\<open>enabled\<close> and the \<^verbatim>\<open>resource\<close>
  feature switched on.
\<close>

theorem Load_invariant:
  assumes "Load unmarshal r collectors = Return (Inr cfg)"
  shows "good_config collectors cfg"
  by (rule Load_good [OF assms])

definition example_config :: Config where
  "example_config = \<lparr>cfg_Features = Some [(''dhcp'', None)],
     cfg_Profiles = [(''edge'', Some [(''poe'', Some [(''enabled'', YBool False)])])],
     cfg_Devices = [zero_device\<lparr>dev_Name := ''r1'', dev_Address := ''10.0.0.1'', dev_User := ''u'',
                                dev_Password := ''p'', dev_Profile := ''edge''\<rparr>,
                    zero_device\<lparr>dev_Name := ''r2'', dev_Disabled := True\<rparr>]\<rparr>"

definition example_loaded :: Config where
  "example_loaded = \<lparr>cfg_Features = Some [(''dhcp'', Some [(''enabled'', YBool True)]),
                                          (''resource'', Some [(''enabled'', YBool True)])],
     cfg_Profiles = [(''edge'', Some [(''poe'', Some [(''enabled'', YBool False)]),
                                      (''resource'', Some [(''enabled'', YBool True)])])],
     cfg_Devices = [zero_device\<lparr>dev_Name := ''r1'', dev_Address := ''10.0.0.1'', dev_User := ''u'',
                                dev_Password := ''p'', dev_Profile := ''edge''\<rparr>]\<rparr>"

lemma example_load:
  "Load (\<lambda>b. Inr example_config) (Inr '''') [''dhcp'', ''poe'', ''resource''] = Return (Inr example_loaded)"
  by code_simp

theorem Load_invariant_witness: "good_config [''dhcp'', ''poe'', ''resource''] example_loaded"
  by (rule Load_invariant [OF example_load])

text \<open>
  Property C26: the lookups of the collector cannot panic on a loaded configuration.
  \<open>DeviceFeatures\<close> returns for every device, and \<open>AllEnabledFeatures\<close> returns a list without
  duplicates that has every feature switched on for any device, \<^verbatim>\<open>resource\<close> among them.
\<close>

theorem Load_features_total:
  assumes "Load unmarshal r collectors = Return (Inr cfg)"
  shows "\<exists>ns. AllEnabledFeatures cfg = Return ns \<and> distinct ns
     \<and> (\<forall>d \<in> set (cfg_Devices cfg). \<exists>f. DeviceFeatures cfg (dev_Name d) = Return f
          \<and> ''resource'' \<in> set (FeatureNames f) \<and> set (FeatureNames f) \<subseteq> set ns)"
  using enabled_features_good [OF Load_good [OF assms]] by blast

theorem Load_features_total_witness:
  "\<exists>ns. AllEnabledFeatures example_loaded = Return ns \<and> distinct ns"
  using Load_features_total [OF example_load] by blast

text \<open>
  A profile with nothing in it (a YAML key without a value) is a nil map, and \<open>Load\<close>
  panics when it adds the \<^verbatim>\<open>resource\<close> feature to it, whatever else the configuration holds,
  provided the feature names before it are known.
\<close>

lemma Load_nil_profile_panics:
  assumes "unmarshal b = Inr raw" and "(n, None) \<in> set (cfg_Profiles raw)"
    and "features_validate collectors (cfg_Features raw) = None"
    and "\<forall>(n, f) \<in> set (cfg_Profiles raw). features_validate collectors f = None"
  shows "Load unmarshal (Inr b) collectors = Panicked NilMapAssignment"
proof -
  have "(n, None) \<in> set ps \<Longrightarrow> \<forall>(n, f) \<in> set ps. features_validate collectors f = None \<Longrightarrow>
      validate_profiles collectors ps = Panicked NilMapAssignment" for ps
    by (induction collectors ps rule: validate_profiles.induct) (auto split: option.splits)
  then show ?thesis using assms by (auto simp: Load_def Let_def config_validate_def)
qed

lemma Enabled_iff: "Enabled c \<longleftrightarrow> conf_get c ''enabled'' \<noteq> Some (YBool False)"
  by (auto simp: Enabled_def BoolValue_def split: option.splits yval.splits)

text \<open>
  A feature is off exactly when its \<^verbatim>\<open>enabled\<close> is the boolean false.  A feature
  without a configuration, without \<^verbatim>\<open>enabled\<close> or with an \<^verbatim>\<open>enabled\<close> of another type is on, and
  the normalisation of \<open>Load\<close> changes nothing in this.
\<close>

lemma FeatureNames_enabled:
  assumes "wf_map (feats f)"
  shows "(n \<in> set (FeatureNames f) \<longleftrightarrow>
       (\<exists>c. mget (feats f) n = Some c \<and> conf_get c ''enabled'' \<noteq> Some (YBool False)))
     \<and> FeatureNames (features_fix f) = FeatureNames f"
  by (simp add: in_FeatureNames [OF assms] Enabled_iff)

text \<open>
  Versions are ordered by major, minor and patch number; the architecture does not count, so this
  is a preorder.
\<close>

definition version_key :: "'a FirmwareVersion_scheme \<Rightarrow> int \<times> int \<times> int" where
  "version_key v = (fv_Major v, fv_Minor v, fv_Patch v)"

instantiation FirmwareVersion_ext :: (type) preorder
begin

definition less_eq_FirmwareVersion_ext :: "'a FirmwareVersion_scheme \<Rightarrow> 'a FirmwareVersion_scheme \<Rightarrow> bool" where
  "less_eq_FirmwareVersion_ext v w \<longleftrightarrow> version_key v \<le> version_key w"

definition less_FirmwareVersion_ext :: "'a FirmwareVersion_scheme \<Rightarrow> 'a FirmwareVersion_scheme \<Rightarrow> bool" where
  "less_FirmwareVersion_ext v w \<longleftrightarrow> version_key v < version_key w"

instance
  by standard (auto simp: less_eq_FirmwareVersion_ext_def less_FirmwareVersion_ext_def)

end

text \<open>
  \<open>Compare\<close> decides this order: it is -1, 0 or 1 for a version below, equivalent to or above
  another.
\<close>

lemma Compare_order:
  "Compare v (fv_Major w) (fv_Minor w) (fv_Patch w) = (if v < w then -1 else if v \<le> w then 0 else 1)"
  by (auto simp: Compare_def less_eq_FirmwareVersion_ext_def less_FirmwareVersion_ext_def version_key_def less_eq_prod_simp less_prod_simp)

end
