(* ===== verification/Metrics.thy ===== *)
theory Metrics
  imports Convert Config
begin

text \<open>
  Package \<^verbatim>\<open>internal/metrics\<close>: the metrics that read a property of a device's reply, their
  builders, and the context a collector works in.  \<^verbatim>\<open>prometheus.Desc\<close> is kept as the arguments
  it is made from; whether \<^verbatim>\<open>prometheus.MustNewConstMetric\<close> accepts a description with some
  label values or panics is the parameter \<open>cx_accepts\<close>.  The state is that of the client and the
  metrics sent to the channel so far.
\<close>

section \<open>Descriptions and metrics\<close>

record desc =
  dc_subsystem :: string
  dc_name :: string
  dc_help :: string
  dc_labels :: "string list"

datatype ValueType = CounterValue | GaugeValue

record metric =
  mt_desc :: desc
  mt_type :: ValueType
  mt_value :: f64
  mt_labels :: "string list"

definition LabelDevName :: string where "LabelDevName = ''dev_name''"
definition LabelDevAddress :: string where "LabelDevAddress = ''dev_address''"
definition LabelInterface :: string where "LabelInterface = ''interface''"
definition LabelComment :: string where "LabelComment = ''comment''"

definition MetricStringCleanup :: "string \<Rightarrow> string" where
  "MetricStringCleanup inp = replace_byte CHR ''-'' CHR ''_'' inp"

definition descriptionForPropertyNameHelpText :: "string \<Rightarrow> string \<Rightarrow> string list \<Rightarrow> string \<Rightarrow> desc" where
  "descriptionForPropertyNameHelpText prefix property labelNames helpText =
     \<lparr>dc_subsystem = prefix, dc_name = MetricStringCleanup property, dc_help = helpText,
      dc_labels = labelNames\<rparr>"

definition Description :: "string \<Rightarrow> string \<Rightarrow> string \<Rightarrow> string list \<Rightarrow> desc" where
  "Description prefix name helpText labelNames =
     \<lparr>dc_subsystem = prefix, dc_name = MetricStringCleanup name, dc_help = helpText,
      dc_labels = labelNames\<rparr>"


section \<open>The context\<close>

record 'w mstate =
  ms_world :: 'w
  ms_ch :: "metric list"

record 'w ctx =
  cx_Device :: Device
  cx_Client :: "string list \<Rightarrow> ('w, goerror + reply) gom"
  cx_collector :: string
  cx_FeatureCfg :: FeatureConf
  cx_Labels :: "string list"
  cx_accepts :: "desc \<Rightarrow> string list \<Rightarrow> bool"

definition NewCollectorContext :: "Device \<Rightarrow> (string list \<Rightarrow> ('w, goerror + reply) gom) \<Rightarrow> string
    \<Rightarrow> FeatureConf \<Rightarrow> (desc \<Rightarrow> string list \<Rightarrow> bool) \<Rightarrow> 'w ctx" where
  "NewCollectorContext device client collector featureCfg accepts =
     \<lparr>cx_Device = device, cx_Client = client, cx_collector = collector, cx_FeatureCfg = featureCfg,
      cx_Labels = [dev_Name device, dev_Address device], cx_accepts = accepts\<rparr>"

definition WithLabels :: "string list \<Rightarrow> 'w ctx \<Rightarrow> 'w ctx" where
  "WithLabels labels c =
     c\<lparr>cx_Labels := [dev_Name (cx_Device c), dev_Address (cx_Device c)] @ labels\<rparr>"

definition WithLabelsFromMap :: "string gomap \<Rightarrow> string list \<Rightarrow> 'w ctx \<Rightarrow> 'w ctx" where
  "WithLabelsFromMap values labelName c =
     c\<lparr>cx_Labels := [dev_Name (cx_Device c), dev_Address (cx_Device c)] @ map (mlookup values) labelName\<rparr>"

definition AppendLabelsFromMap :: "string gomap \<Rightarrow> string list \<Rightarrow> 'w ctx \<Rightarrow> 'w ctx" where
  "AppendLabelsFromMap values labelName c = c\<lparr>cx_Labels := cx_Labels c @ map (mlookup values) labelName\<rparr>"

definition on_world :: "('w, 'a) gom \<Rightarrow> ('w mstate, 'a) gom" where
  "on_world m = (\<lambda>s. case m (ms_world s) of (r, w) \<Rightarrow> (r, s\<lparr>ms_world := w\<rparr>))"

definition ctx_Run :: "'w ctx \<Rightarrow> string list \<Rightarrow> ('w mstate, goerror + reply) gom" where
  "ctx_Run c sentence =
     gbind (on_world (cx_Client c sentence)) (\<lambda>r. case r of
       Inl err \<Rightarrow> gret (Inl (Wrapf ''client run error: %w'' [] err))
     | Inr reply \<Rightarrow> gret (Inr reply))"

definition emit :: "'w ctx \<Rightarrow> desc \<Rightarrow> ValueType \<Rightarrow> f64 \<Rightarrow> ('w mstate, unit) gom" where
  \<comment> \<open>\<^verbatim>\<open>ctx.Ch <- prometheus.MustNewConstMetric(desc, valueType, value, ctx.Labels...)\<close>\<close>
  "emit c d t v =
     (if cx_accepts c d (cx_Labels c)
      then gupdate (\<lambda>s. s\<lparr>ms_ch := ms_ch s @ [\<lparr>mt_desc = d, mt_type = t, mt_value = v,
                                              mt_labels = cx_Labels c\<rparr>]\<rparr>)
      else gpanic BadMetric)"


section \<open>Metrics read from a property\<close>

record simplePropertyMetric =
  sp_desc :: desc
  sp_valueConverter :: ValueConverter
  sp_property :: string
  sp_valueType :: ValueType
  sp_defaultValue :: string

record rxTxPropertyMetric =
  rt_rxDesc :: desc
  rt_txDesc :: desc
  rt_valueConverter :: TXRXValueConverter
  rt_property :: string
  rt_defaultValue :: string

record statusPropertyMetric =
  st_descs :: "(string \<times> desc) list"
  st_property :: string
  st_defaultValue :: string

record constPropertyMetric =
  cp_desc :: desc
  cp_property :: string

record retGaugeCollector =
  rg_desc :: desc
  rg_valueConverter :: ValueConverter
  rg_property :: string

definition property_value :: "string gomap \<Rightarrow> string \<Rightarrow> string \<Rightarrow> string option" where
  \<comment> \<open>the value \<open>Collect\<close> goes on with; \<open>None\<close> where it returns nil early\<close>
  "property_value reply property defaultValue =
     (if reply = [] then None
      else case mget reply property of
             None \<Rightarrow> if defaultValue = '''' then None else Some defaultValue
           | Some v \<Rightarrow> if v = '''' then None else Some v)"

definition simple_Collect :: "simplePropertyMetric \<Rightarrow> string gomap \<Rightarrow> 'w ctx
    \<Rightarrow> ('w mstate, goerror option) gom" where
  "simple_Collect p reply c =
     (case property_value reply (sp_property p) (sp_defaultValue p) of
        None \<Rightarrow> gret None
      | Some v \<Rightarrow>
          (let propertyVal = before_at v
           in case sp_valueConverter p propertyVal of
                Inl err \<Rightarrow> gret (Some (Wrapf ''parse %v for property %s error: %w''
                                          [propertyVal, sp_property p] err))
              | Inr val \<Rightarrow> gseq (emit c (sp_desc p) (sp_valueType p) val) (gret None)))"

definition simple_Set :: "simplePropertyMetric \<Rightarrow> f64 \<Rightarrow> 'w ctx \<Rightarrow> ('w mstate, goerror option) gom" where
  "simple_Set p val c = gseq (emit c (sp_desc p) (sp_valueType p) val) (gret None)"

definition rxTx_Collect :: "rxTxPropertyMetric \<Rightarrow> string gomap \<Rightarrow> 'w ctx
    \<Rightarrow> ('w mstate, goerror option) gom" where
  "rxTx_Collect p reply c =
     (case property_value reply (rt_property p) (rt_defaultValue p) of
        None \<Rightarrow> gret None
      | Some propertyVal \<Rightarrow>
          (case rt_valueConverter p propertyVal of
             Inl err \<Rightarrow> gret (Some (Wrapf ''Collect %v for property %s error: %w''
                                       [propertyVal, rt_property p] err))
           | Inr (tx, rx) \<Rightarrow>
               gseq (emit c (rt_txDesc p) CounterValue tx)
               (gseq (emit c (rt_rxDesc p) CounterValue rx) (gret None))))"

fun status_loop :: "'w ctx \<Rightarrow> string \<Rightarrow> (string \<times> desc) list \<Rightarrow> ('w mstate, goerror option) gom" where
  "status_loop c propertyVal [] = gret None"
| "status_loop c propertyVal ((v, d) # descs) =
     gseq (emit c d GaugeValue (if v = propertyVal then f64_one else f64_zero))
          (status_loop c propertyVal descs)"

definition status_Collect :: "statusPropertyMetric \<Rightarrow> string gomap \<Rightarrow> 'w ctx
    \<Rightarrow> ('w mstate, goerror option) gom" where
  "status_Collect p reply c =
     (case property_value reply (st_property p) (st_defaultValue p) of
        None \<Rightarrow> gret None
      | Some propertyVal \<Rightarrow> status_loop c propertyVal (st_descs p))"

definition const_Collect :: "constPropertyMetric \<Rightarrow> string gomap \<Rightarrow> 'w ctx
    \<Rightarrow> ('w mstate, goerror option) gom" where
  "const_Collect p reply c =
     (if reply = [] then gret None
      else case mget reply (cp_property p) of
             None \<Rightarrow> gret None
           | Some _ \<Rightarrow> gseq (emit c (cp_desc p) GaugeValue f64_one) (gret None))"

definition ret_Collect :: "retGaugeCollector \<Rightarrow> string gomap \<Rightarrow> 'w ctx
    \<Rightarrow> ('w mstate, goerror option) gom" where
  "ret_Collect r reply c =
     (let v = mlookup reply ''ret''
      in if v = '''' then gret None
         else (let propertyVal = before_at v
               in case rg_valueConverter r propertyVal of
                    Inl err \<Rightarrow> gret (Some (Wrapf ''parse ret value %v error: %w'' [propertyVal] err))
                  | Inr val \<Rightarrow> gseq (emit c (rg_desc r) GaugeValue val) (gret None)))"

text \<open>The interface \<^verbatim>\<open>PropertyMetric\<close> with its implementations, and lists of them.\<close>

datatype PropertyMetric =
    SimpleMetric simplePropertyMetric
  | RxTxMetric rxTxPropertyMetric
  | StatusMetric statusPropertyMetric
  | ConstMetric constPropertyMetric
  | RetGauge retGaugeCollector

fun Describe :: "PropertyMetric \<Rightarrow> desc list" where
  "Describe (SimpleMetric p) = [sp_desc p]"
| "Describe (RxTxMetric p) = [rt_rxDesc p, rt_txDesc p]"
| "Describe (StatusMetric p) = map snd (st_descs p)"
| "Describe (ConstMetric p) = [cp_desc p]"
| "Describe (RetGauge p) = [rg_desc p]"

fun Collect :: "PropertyMetric \<Rightarrow> string gomap \<Rightarrow> 'w ctx \<Rightarrow> ('w mstate, goerror option) gom" where
  "Collect (SimpleMetric p) reply c = simple_Collect p reply c"
| "Collect (RxTxMetric p) reply c = rxTx_Collect p reply c"
| "Collect (StatusMetric p) reply c = status_Collect p reply c"
| "Collect (ConstMetric p) reply c = const_Collect p reply c"
| "Collect (RetGauge p) reply c = ret_Collect p reply c"

definition list_Describe :: "PropertyMetric list \<Rightarrow> desc list" where
  "list_Describe ms = concat (map Describe ms)"

definition list_Collect :: "PropertyMetric list \<Rightarrow> string gomap \<Rightarrow> 'w ctx
    \<Rightarrow> ('w mstate, goerror option) gom" where
  "list_Collect ms reply c = join_loop (\<lambda>m. Collect m reply c) ms None"


section \<open>Builders\<close>

datatype metricType = metricCounter | metricGauge | metricRxTx | metricStatus | metricConst | metricRet

record PropertyMetricBuilder =
  pb_valueConverter :: "ValueConverter option"
  pb_rxTxValueConverter :: "TXRXValueConverter option"
  pb_prefix :: string
  pb_property :: string
  pb_metricName :: string
  pb_metricHelp :: string
  pb_labels :: "string list"
  pb_metricType :: metricType
  pb_values :: "string list"
  pb_defaultValue :: string

definition new_builder :: "metricType \<Rightarrow> string \<Rightarrow> string \<Rightarrow> string \<Rightarrow> string list \<Rightarrow> string list
    \<Rightarrow> PropertyMetricBuilder" where
  "new_builder t prefix property name values labels =
     \<lparr>pb_valueConverter = None, pb_rxTxValueConverter = None, pb_prefix = prefix,
      pb_property = property, pb_metricName = name, pb_metricHelp = '''',
      pb_labels = [LabelDevName, LabelDevAddress] @ labels, pb_metricType = t,
      pb_values = values, pb_defaultValue = ''''\<rparr>"

text \<open>
  The methods of a builder return it, so that calls are chained; a method that panics ends the
  chain.
\<close>

definition NewPropertyCounterMetric :: "string \<Rightarrow> string \<Rightarrow> string list \<Rightarrow> PropertyMetricBuilder outcome" where
  "NewPropertyCounterMetric prefix property labels =
     Return (new_builder metricCounter prefix property '''' [] labels)"

definition NewPropertyGaugeMetric :: "string \<Rightarrow> string \<Rightarrow> string list \<Rightarrow> PropertyMetricBuilder outcome" where
  "NewPropertyGaugeMetric prefix property labels =
     Return (new_builder metricGauge prefix property '''' [] labels)"

definition NewPropertyRxTxMetric :: "string \<Rightarrow> string \<Rightarrow> string list \<Rightarrow> PropertyMetricBuilder outcome" where
  "NewPropertyRxTxMetric prefix property labels =
     Return (new_builder metricRxTx prefix property '''' [] labels)"

definition NewPropertyStatusMetric :: "string \<Rightarrow> string \<Rightarrow> string list \<Rightarrow> string list
    \<Rightarrow> PropertyMetricBuilder outcome" where
  "NewPropertyStatusMetric prefix property values labels =
     Return (new_builder metricStatus prefix property '''' values labels)"

definition NewPropertyConstMetric :: "string \<Rightarrow> string \<Rightarrow> string list \<Rightarrow> PropertyMetricBuilder outcome" where
  "NewPropertyConstMetric prefix property labels =
     Return (new_builder metricConst prefix property '''' [] labels)"

definition NewPropertyRetMetric :: "string \<Rightarrow> string \<Rightarrow> string list \<Rightarrow> PropertyMetricBuilder outcome" where
  "NewPropertyRetMetric prefix name labels =
     Return (new_builder metricRet prefix ''ret'' name [] labels)"

definition obind :: "'a outcome \<Rightarrow> ('a \<Rightarrow> 'b outcome) \<Rightarrow> 'b outcome" where
  "obind m f = (case m of Return x \<Rightarrow> f x | Panicked p \<Rightarrow> Panicked p | Blocked \<Rightarrow> Blocked)"

lemma obind_simps [simp]:
  "obind (Return x) f = f x" "obind (Panicked p) f = Panicked p" "obind Blocked f = Blocked"
  by (simp_all add: obind_def)

definition WithName :: "string \<Rightarrow> PropertyMetricBuilder outcome \<Rightarrow> PropertyMetricBuilder outcome" where
  "WithName name b = obind b (\<lambda>p. Return (p\<lparr>pb_metricName := name\<rparr>))"

definition WithHelp :: "string \<Rightarrow> PropertyMetricBuilder outcome \<Rightarrow> PropertyMetricBuilder outcome" where
  "WithHelp help b = obind b (\<lambda>p. Return (p\<lparr>pb_metricHelp := help\<rparr>))"

definition WithConverter :: "ValueConverter \<Rightarrow> PropertyMetricBuilder outcome
    \<Rightarrow> PropertyMetricBuilder outcome" where
  "WithConverter vc b = obind b (\<lambda>p.
     if pb_metricType p \<noteq> metricCounter \<and> pb_metricType p \<noteq> metricGauge \<and> pb_metricType p \<noteq> metricRet
     then Panicked (PanicMsg ''can't set ValueConverter for not counter/gauge metric'')
     else Return (p\<lparr>pb_valueConverter := Some vc\<rparr>))"

definition WithRxTxConverter :: "TXRXValueConverter \<Rightarrow> PropertyMetricBuilder outcome
    \<Rightarrow> PropertyMetricBuilder outcome" where
  "WithRxTxConverter vc b = obind b (\<lambda>p.
     if pb_metricType p \<noteq> metricRxTx
     then Panicked (PanicMsg ''can't set TXRXValueConverter for non-rxtx metric'')
     else Return (p\<lparr>pb_rxTxValueConverter := Some vc\<rparr>))"

definition WithDefault :: "string \<Rightarrow> PropertyMetricBuilder outcome \<Rightarrow> PropertyMetricBuilder outcome" where
  "WithDefault defaultValue b = obind b (\<lambda>p.
     if pb_metricType p = metricConst
     then Panicked (PanicMsg ''default value is not supported for const metrics'')
     else Return (p\<lparr>pb_defaultValue := defaultValue\<rparr>))"

definition prepare :: "PropertyMetricBuilder \<Rightarrow> PropertyMetricBuilder" where
  "prepare p =
     p\<lparr>pb_metricName := (if pb_metricName p = ''''
          then pb_property p @ (if pb_metricType p = metricCounter \<or> pb_metricType p = metricRxTx
                                then ''_total'' else '''')
          else pb_metricName p),
       pb_metricHelp := (if pb_metricHelp p = '''' then pb_property p @ '' for '' @ pb_prefix p
                         else pb_metricHelp p),
       pb_valueConverter := Some (case pb_valueConverter p of None \<Rightarrow> MetricFromString | Some vc \<Rightarrow> vc),
       pb_rxTxValueConverter :=
         Some (case pb_rxTxValueConverter p of None \<Rightarrow> SplitStringToFloatsOnComma | Some vc \<Rightarrow> vc)\<rparr>"

definition quoted :: "string \<Rightarrow> string" where
  \<comment> \<open>the verb \<^verbatim>\<open>%q\<close> on a label, which is a plain identifier\<close>
  "quoted l = CHR 0x22 # l @ [CHR 0x22]"

definition duplicate_errors :: "string list \<Rightarrow> nat \<Rightarrow> goerror list" where
  \<comment> \<open>the inner loop of \<open>check\<close> at index \<open>i\<close>, over \<^verbatim>\<open>p.labels[:i-1]\<close>\<close>
  "duplicate_errors labels i =
     (if i = 0 then []
      else map (\<lambda>ll. BuilderError (''duplicated label '' @ quoted (labels ! i)))
             (filter (\<lambda>ll. labels ! i = ll) (take (i - 1) labels)))"

definition check :: "PropertyMetricBuilder \<Rightarrow> goerror option" where
  "check p =
     (let labels = pb_labels p;
          missing = (\<lambda>l. if l \<in> set labels then [] else [BuilderError (''missing label '' @ quoted l)])
      in fold (\<lambda>e errs. errors_join [errs, Some e])
           (concat (map (duplicate_errors labels) [0..<length labels])
            @ missing LabelDevName @ missing LabelDevAddress) None)"

definition newStatusPropertyMetric :: "string \<Rightarrow> string \<Rightarrow> string \<Rightarrow> string \<Rightarrow> string list \<Rightarrow> string list
    \<Rightarrow> string \<Rightarrow> statusPropertyMetric" where
  "newStatusPropertyMetric prefix metricName property metricHelp labels values defaultValue =
     \<lparr>st_descs = map (\<lambda>v. (v, descriptionForPropertyNameHelpText prefix (metricName @ ''_'' @ v)
                                labels metricHelp)) values,
      st_property = property, st_defaultValue = defaultValue\<rparr>"

definition build_metric :: "PropertyMetricBuilder \<Rightarrow> PropertyMetric" where
  \<comment> \<open>\<open>Build\<close> after \<open>prepare\<close>; an error of \<open>check\<close> is only logged\<close>
  "build_metric p =
     (let d = descriptionForPropertyNameHelpText (pb_prefix p) (pb_metricName p) (pb_labels p) (pb_metricHelp p);
          vc = (case pb_valueConverter p of Some vc \<Rightarrow> vc | None \<Rightarrow> MetricFromString);
          simple = (\<lambda>t. SimpleMetric \<lparr>sp_desc = d, sp_valueConverter = vc, sp_property = pb_property p,
                           sp_valueType = t, sp_defaultValue = pb_defaultValue p\<rparr>)
      in case pb_metricType p of
           metricCounter \<Rightarrow> simple CounterValue
         | metricGauge \<Rightarrow> simple GaugeValue
         | metricRxTx \<Rightarrow> RxTxMetric
             \<lparr>rt_rxDesc = descriptionForPropertyNameHelpText (pb_prefix p) (''rx_'' @ pb_metricName p)
                            (pb_labels p) (pb_metricHelp p @ '' (RX)''),
              rt_txDesc = descriptionForPropertyNameHelpText (pb_prefix p) (''tx_'' @ pb_metricName p)
                            (pb_labels p) (pb_metricHelp p @ '' (TX)''),
              rt_valueConverter = (case pb_rxTxValueConverter p of
                                     Some vc \<Rightarrow> vc | None \<Rightarrow> SplitStringToFloatsOnComma),
              rt_property = pb_property p, rt_defaultValue = pb_defaultValue p\<rparr>
         | metricStatus \<Rightarrow> StatusMetric (newStatusPropertyMetric (pb_prefix p) (pb_metricName p)
             (pb_property p) (pb_metricHelp p) (pb_labels p) (pb_values p) (pb_defaultValue p))
         | metricConst \<Rightarrow> ConstMetric \<lparr>cp_desc = d, cp_property = pb_property p\<rparr>
         | metricRet \<Rightarrow> simple GaugeValue)"

definition Build :: "PropertyMetricBuilder outcome \<Rightarrow> PropertyMetric outcome" where
  "Build b = obind b (\<lambda>p. Return (build_metric (prepare p)))"

text \<open>The separate builder of a metric on the \<^verbatim>\<open>ret\<close> value.\<close>

record RetMetricBuilder =
  rb_valueConverter :: "ValueConverter option"
  rb_prefix :: string
  rb_property :: string
  rb_metricName :: string
  rb_metricHelp :: string
  rb_labels :: "string list"
  rb_metricType :: metricType

definition NewRetGaugeMetric :: "string \<Rightarrow> string \<Rightarrow> string list \<Rightarrow> RetMetricBuilder" where
  "NewRetGaugeMetric prefix property labels =
     \<lparr>rb_valueConverter = None, rb_prefix = prefix, rb_property = property, rb_metricName = '''',
      rb_metricHelp = '''', rb_labels = [LabelDevName, LabelDevAddress] @ labels,
      rb_metricType = metricGauge\<rparr>"

definition ret_WithName :: "string \<Rightarrow> RetMetricBuilder \<Rightarrow> RetMetricBuilder" where
  "ret_WithName name r = r\<lparr>rb_metricName := name\<rparr>"

definition ret_WithHelp :: "string \<Rightarrow> RetMetricBuilder \<Rightarrow> RetMetricBuilder" where
  "ret_WithHelp help r = r\<lparr>rb_metricHelp := help\<rparr>"

definition ret_WithConverter :: "ValueConverter \<Rightarrow> RetMetricBuilder \<Rightarrow> RetMetricBuilder" where
  "ret_WithConverter vc r = r\<lparr>rb_valueConverter := Some vc\<rparr>"

definition ret_Build :: "RetMetricBuilder \<Rightarrow> PropertyMetric outcome" where
  "ret_Build r =
     (let metricName = (if rb_metricName r = ''''
            then rb_property r @ (if rb_metricType r = metricCounter then ''_total'' else '''')
            else rb_metricName r);
          metricHelp = (if rb_metricHelp r = '''' then rb_property r @ '' for '' @ rb_prefix r
                        else rb_metricHelp r);
          vc = (case rb_valueConverter r of Some vc \<Rightarrow> vc | None \<Rightarrow> MetricFromString)
      in if rb_metricType r = metricGauge
         then Return (RetGauge \<lparr>rg_desc = descriptionForPropertyNameHelpText (rb_prefix r) metricName
                                          (rb_labels r) metricHelp,
                               rg_valueConverter = vc, rg_property = rb_property r\<rparr>)
         else Panicked (PanicMsg ''unknown metric type''))"


section \<open>Counting\<close>

definition CountByProperty :: "sentence list \<Rightarrow> string \<Rightarrow> int gomap" where
  "CountByProperty re property =
     fold (\<lambda>r counter. let pool = mlookup (sen_map r) property
                       in mput pool (case mget counter pool of Some cnt \<Rightarrow> cnt + 1 | None \<Rightarrow> 1) counter)
          re []"


definition CleanHostName :: "string \<Rightarrow> string outcome" where
  "CleanHostName hostname =
     (if hostname = '''' then Return ''''
      else obind (if hd hostname = CHR 0x22
                  then (if length hostname = 1 then Panicked IndexOutOfRange
                        else Return (butlast (tl hostname)))
                  else Return hostname)
             (\<lambda>h. Return (butlast (tl (QuoteToASCII h)))))"


section \<open>Sending metrics\<close>

text \<open>
  \<open>emits P m\<close>: however the computation ends, it has only added metrics with \<open>P\<close> to the channel.
\<close>

named_theorems emits_rules \<open>what computations add to the metrics channel\<close>

definition emits :: "(metric \<Rightarrow> bool) \<Rightarrow> ('w mstate, 'a) gom \<Rightarrow> bool" where
  "emits P m \<longleftrightarrow> (\<forall>s. \<exists>ms. ms_ch (snd (m s)) = ms_ch s @ ms \<and> (\<forall>x \<in> set ms. P x))"

lemma emitsI: "(\<And>s. \<exists>ms. ms_ch (snd (m s)) = ms_ch s @ ms \<and> (\<forall>x \<in> set ms. P x)) \<Longrightarrow> emits P m"
  by (simp add: emits_def)

lemma emitsD: "emits P m \<Longrightarrow> m s = (r, s') \<Longrightarrow> \<exists>ms. ms_ch s' = ms_ch s @ ms \<and> (\<forall>x \<in> set ms. P x)"
  unfolding emits_def by (metis snd_conv)

lemma emits_gret [emits_rules]: "emits P (gret x)"
  by (rule emitsI) simp

lemma emits_gpanic [emits_rules]: "emits P (gpanic x)"
  by (rule emitsI) simp

lemma emits_gbind [emits_rules]:
  assumes m: "emits P m" and f: "\<And>x. emits P (f x)" shows "emits P (gbind m f)"
proof (rule emitsI)
  fix s
  obtain r s1 where 1: "m s = (r, s1)" by (cases "m s")
  then obtain ms where ms: "ms_ch s1 = ms_ch s @ ms" "\<forall>x \<in> set ms. P x" using emitsD [OF m] by blast
  show "\<exists>ms. ms_ch (snd (gbind m f s)) = ms_ch s @ ms \<and> (\<forall>x \<in> set ms. P x)"
  proof (cases r)
    case (Return x)
    obtain r2 s2 where 2: "f x s1 = (r2, s2)" by (cases "f x s1")
    obtain ms2 where "ms_ch s2 = ms_ch s1 @ ms2" "\<forall>x \<in> set ms2. P x" using emitsD [OF f 2] by blast
    with 1 2 ms Return show ?thesis by (intro exI [of _ "ms @ ms2"]) (auto simp: gbind_def)
  qed (use 1 ms in \<open>auto simp: gbind_def\<close>)
qed

lemma emits_gseq [emits_rules]: "emits P m \<Longrightarrow> emits P k \<Longrightarrow> emits P (gseq m k)"
  unfolding gseq_def by (rule emits_gbind)

lemma emits_if [emits_rules]: "(b \<Longrightarrow> emits P m) \<Longrightarrow> (\<not> b \<Longrightarrow> emits P m') \<Longrightarrow> emits P (if b then m else m')"
  by simp

lemma emits_option [emits_rules]:
  "emits P m \<Longrightarrow> (\<And>x. emits P (f x)) \<Longrightarrow> emits P (case v of None \<Rightarrow> m | Some x \<Rightarrow> f x)"
  by (simp split: option.splits)

lemma emits_sum [emits_rules]:
  "(\<And>x. emits P (f x)) \<Longrightarrow> (\<And>x. emits P (g x)) \<Longrightarrow> emits P (case v of Inl x \<Rightarrow> f x | Inr x \<Rightarrow> g x)"
  by (simp split: sum.splits)

lemma emits_prod [emits_rules]: "(\<And>x y. emits P (f x y)) \<Longrightarrow> emits P (case v of (x, y) \<Rightarrow> f x y)"
  by (simp split: prod.splits)

lemma emits_on_world [emits_rules]: "emits P (on_world m)"
  by (rule emitsI) (simp add: on_world_def split: prod.splits)

lemma emits_ctx_Run [emits_rules]: "emits P (ctx_Run c ws)"
  unfolding ctx_Run_def by (intro emits_rules)

lemma emits_emit:
  "(\<And>v. P \<lparr>mt_desc = d, mt_type = t, mt_value = v, mt_labels = cx_Labels c\<rparr>) \<Longrightarrow> emits P (emit c d t v)"
  by (rule emitsI) (auto simp: emit_def)

lemma emits_join_loop [emits_rules]: "(\<And>x. x \<in> set xs \<Longrightarrow> emits P (f x)) \<Longrightarrow> emits P (join_loop f xs e)"
  by (induction xs arbitrary: e) (auto intro!: emits_rules)

lemma emits_weaken: "emits P m \<Longrightarrow> (\<And>x. P x \<Longrightarrow> Q x) \<Longrightarrow> emits Q m"
  unfolding emits_def by meson


section \<open>The contract of a metric source\<close>

text \<open>
  The interface \<^verbatim>\<open>PropertyMetric\<close>: \<open>describe\<close> lists the descriptions, and \<open>collect\<close> sends metrics
  of these descriptions only, with the labels of the context, does not use the client, and returns
  whenever the metric library accepts its descriptions with these labels.
\<close>

definition labelled :: "desc list \<Rightarrow> 'w ctx \<Rightarrow> metric \<Rightarrow> bool" where
  "labelled ds c x \<longleftrightarrow> mt_desc x \<in> set ds \<and> mt_labels x = cx_Labels c"

definition accepted :: "desc list \<Rightarrow> 'w ctx \<Rightarrow> bool" where
  "accepted ds c \<longleftrightarrow> (\<forall>d \<in> set ds. cx_accepts c d (cx_Labels c))"

locale metric_source =
  fixes describe :: "'m \<Rightarrow> desc list"
    and collect :: "'m \<Rightarrow> string gomap \<Rightarrow> 'w ctx \<Rightarrow> ('w mstate, goerror option) gom"
  assumes sends: "emits (labelled (describe m) c) (collect m reply c)"
    and returns: "accepted (describe m) c \<Longrightarrow>
           ok False (\<lambda>s. ms_world s = w) (collect m reply c) (\<lambda>_ s. ms_world s = w)"

context metric_source
begin

lemma list_sends:
  "emits (labelled (concat (map describe ms)) c) (join_loop (\<lambda>m. collect m reply c) ms e)"
  by (intro emits_join_loop) (rule emits_weaken [OF sends], auto simp: labelled_def)

lemma list_returns:
  "accepted (concat (map describe ms)) c \<Longrightarrow>
     ok False (\<lambda>s. ms_world s = w) (join_loop (\<lambda>m. collect m reply c) ms e) (\<lambda>_ s. ms_world s = w)"
proof (induction ms arbitrary: e)
  case (Cons m ms)
  then have "accepted (describe m) c" "accepted (concat (map describe ms)) c"
    by (auto simp: accepted_def)
  then show ?case
    unfolding join_loop.simps by (intro ok_gbind [OF returns] Cons.IH)
qed (simp only: join_loop.simps list.map concat.simps, rule ok_gret)

end

lemma ok_emit:
  "cx_accepts c d (cx_Labels c) \<Longrightarrow> ok False (\<lambda>s. ms_world s = w) (emit c d t v) (\<lambda>_ s. ms_world s = w)"
  by (auto simp: emit_def intro: ok_rules)

lemma ok_gret_same: "ok wait P (gret x) (\<lambda>_. P)"
  by (rule ok_gret)

lemma ok_option: "ok wait P m Q \<Longrightarrow> (\<And>x. ok wait P (f x) Q) \<Longrightarrow> ok wait P (case v of None \<Rightarrow> m | Some x \<Rightarrow> f x) Q"
  by (simp split: option.splits)

lemma ok_sum: "(\<And>x. ok wait P (f x) Q) \<Longrightarrow> (\<And>x. ok wait P (g x) Q) \<Longrightarrow> ok wait P (case v of Inl x \<Rightarrow> f x | Inr x \<Rightarrow> g x) Q"
  by (simp split: sum.splits)

lemma ok_prod: "(\<And>x y. ok wait P (f x y) Q) \<Longrightarrow> ok wait P (case v of (x, y) \<Rightarrow> f x y) Q"
  by (simp split: prod.splits)

lemma status_loop_sends: "emits (\<lambda>x. mt_desc x \<in> snd ` set ds \<and> mt_labels x = cx_Labels c) (status_loop c v ds)"
proof (induction ds)
  case (Cons d ds)
  then show ?case
    by (cases d) (auto intro!: emits_gseq emits_emit elim: emits_weaken)
qed (simp only: status_loop.simps emits_gret)

lemma status_loop_returns:
  "\<forall>d \<in> snd ` set ds. cx_accepts c d (cx_Labels c) \<Longrightarrow>
     ok False (\<lambda>s. ms_world s = w) (status_loop c v ds) (\<lambda>_ s. ms_world s = w)"
proof (induction ds)
  case (Cons d ds)
  then show ?case by (cases d) (auto intro!: ok_gseq [OF ok_emit])
qed (simp only: status_loop.simps ok_gret_same)

lemma Collect_sends: "emits (labelled (Describe m) c) (Collect m reply c)"
proof (cases m)
  case (SimpleMetric p)
  show ?thesis unfolding SimpleMetric Collect.simps simple_Collect_def Let_def
    by (intro emits_rules emits_emit) (simp add: labelled_def)
next
  case (RxTxMetric p)
  show ?thesis unfolding RxTxMetric Collect.simps rxTx_Collect_def
    by (intro emits_rules emits_emit) (simp_all add: labelled_def)
next
  case (StatusMetric p)
  show ?thesis unfolding StatusMetric Collect.simps status_Collect_def
    by (intro emits_rules emits_weaken [OF status_loop_sends]) (auto simp: labelled_def)
next
  case (ConstMetric p)
  show ?thesis unfolding ConstMetric Collect.simps const_Collect_def
    by (intro emits_rules emits_emit) (simp add: labelled_def)
next
  case (RetGauge p)
  show ?thesis unfolding RetGauge Collect.simps ret_Collect_def Let_def
    by (intro emits_rules emits_emit) (simp add: labelled_def)
qed

lemma Collect_returns:
  assumes "accepted (Describe m) c"
  shows "ok False (\<lambda>s. ms_world s = w) (Collect m reply c) (\<lambda>_ s. ms_world s = w)"
proof (cases m)
  case (SimpleMetric p)
  show ?thesis unfolding SimpleMetric Collect.simps simple_Collect_def Let_def
    by (intro ok_option ok_sum ok_gseq [OF ok_emit] ok_gret_same)
       (use assms SimpleMetric in \<open>simp add: accepted_def\<close>)
next
  case (RxTxMetric p)
  show ?thesis unfolding RxTxMetric Collect.simps rxTx_Collect_def
    by (intro ok_option ok_sum ok_prod ok_gseq [OF ok_emit] ok_gret_same)
       (use assms RxTxMetric in \<open>simp_all add: accepted_def\<close>)
next
  case (StatusMetric p)
  show ?thesis unfolding StatusMetric Collect.simps status_Collect_def
    by (intro ok_option status_loop_returns ok_gret_same)
       (use assms StatusMetric in \<open>auto simp: accepted_def\<close>)
next
  case (ConstMetric p)
  show ?thesis unfolding ConstMetric Collect.simps const_Collect_def
    by (intro ok_option ok_if ok_gseq [OF ok_emit] ok_gret_same)
       (use assms ConstMetric in \<open>simp add: accepted_def\<close>)
next
  case (RetGauge p)
  show ?thesis unfolding RetGauge Collect.simps ret_Collect_def Let_def
    by (intro ok_sum ok_if ok_gseq [OF ok_emit] ok_gret_same)
       (use assms RetGauge in \<open>simp add: accepted_def\<close>)
qed

interpretation metric: metric_source Describe Collect
  by unfold_locales (rule Collect_sends, rule Collect_returns)

interpretation metrics: metric_source list_Describe list_Collect
  unfolding list_Describe_def list_Collect_def
  by unfold_locales (rule metric.list_sends, rule metric.list_returns)


section \<open>Properties\<close>

text \<open>
  Property C21: collecting a list of metrics.  Whatever the reply holds, the list sends only metrics
  of the descriptions it announces in \<open>Describe\<close>, with the labels of the context, does not touch
  the client, and returns (no panic) when the metric library accepts its descriptions with these
  labels.
\<close>

theorem list_Collect_contract:
  assumes "accepted (list_Describe ms) c"
  shows "\<exists>err sent. list_Collect ms reply c s = (Return err, s\<lparr>ms_ch := ms_ch s @ sent\<rparr>)
     \<and> (\<forall>x \<in> set sent. mt_desc x \<in> set (list_Describe ms) \<and> mt_labels x = cx_Labels c)"
proof -
  obtain err s' where r: "list_Collect ms reply c s = (Return err, s')" and w: "ms_world s' = ms_world s"
    using okD [OF metrics.returns [OF assms], of s "ms_world s" reply] by auto
  obtain sent where "ms_ch s' = ms_ch s @ sent" "\<forall>x \<in> set sent. labelled (list_Describe ms) c x"
    using emitsD [OF metrics.sends r] by blast
  with r w show ?thesis by (cases s'; cases s) (auto simp: labelled_def)
qed

definition test_ctx :: "string list \<Rightarrow> unit ctx" where
  \<comment> \<open>a context with the given labels after those of the device, and a library that checks their number\<close>
  "test_ctx labels = WithLabels labels (NewCollectorContext
     (zero_device\<lparr>dev_Name := ''r1'', dev_Address := ''10.0.0.1''\<rparr>) (\<lambda>ws. gret (Inl EOF)) ''test'' None
     (\<lambda>d ls. length ls = length (dc_labels d)))"

definition test_list :: "PropertyMetric list" where
  "test_list = [build_metric (prepare (new_builder metricCounter ''interface'' ''rx-byte'' '''' [] [''interface'']))]"

lemma test_accepted: "accepted (list_Describe test_list) (test_ctx [''ether1''])"
  by (simp add: accepted_def test_list_def list_Describe_def build_metric_def prepare_def new_builder_def
      descriptionForPropertyNameHelpText_def test_ctx_def WithLabels_def NewCollectorContext_def Let_def)

theorem list_Collect_contract_witness:
  "\<exists>err sent. list_Collect test_list [(''rx-byte'', ''12'')] (test_ctx [''ether1'']) \<lparr>ms_world = (), ms_ch = []\<rparr>
     = (Return err, \<lparr>ms_world = (), ms_ch = sent\<rparr>)"
  using list_Collect_contract [OF test_accepted, of "[(''rx-byte'', ''12'')]" "\<lparr>ms_world = (), ms_ch = []\<rparr>"]
  by auto

lemma status_loop_run:
  "\<forall>(v, d) \<in> set ds. cx_accepts c d (cx_Labels c) \<Longrightarrow>
     status_loop c val ds s = (Return None, s\<lparr>ms_ch := ms_ch s @
       map (\<lambda>(v, d). \<lparr>mt_desc = d, mt_type = GaugeValue, mt_value = (if v = val then f64_one else f64_zero),
                      mt_labels = cx_Labels c\<rparr>) ds\<rparr>)"
proof (induction ds arbitrary: s)
  case (Cons d ds)
  then show ?case by (cases d) (simp add: gseq_def gbind_def emit_def)
qed simp

text \<open>
  Property C33: a status metric sends, in the order of its values, one gauge for every value it
  knows: 1 for the value the device reports and 0 for all others, so at most one 1 when the values
  differ.
\<close>

theorem status_Collect_values:
  assumes "mget reply (st_property p) = Some val" and "val \<noteq> ''''"
    and "\<forall>(v, d) \<in> set (st_descs p). cx_accepts c d (cx_Labels c)"
  shows "status_Collect p reply c s = (Return None, s\<lparr>ms_ch := ms_ch s @
     map (\<lambda>(v, d). \<lparr>mt_desc = d, mt_type = GaugeValue, mt_value = (if v = val then f64_one else f64_zero),
                    mt_labels = cx_Labels c\<rparr>) (st_descs p)\<rparr>)"
proof -
  have "reply \<noteq> []" using assms(1) by auto
  with assms show ?thesis by (simp add: status_Collect_def property_value_def status_loop_run)
qed

theorem status_Collect_values_witness:
  "fst (status_Collect (newStatusPropertyMetric ''netwatch'' ''status'' ''status'' ''h'' [] [''up'', ''down''] '''')
      [(''status'', ''up'')] (test_ctx []\<lparr>cx_accepts := \<lambda>d ls. True\<rparr>) \<lparr>ms_world = (), ms_ch = []\<rparr>) = Return None"
  using status_Collect_values [of "[(''status'', ''up'')]"
      "newStatusPropertyMetric ''netwatch'' ''status'' ''status'' ''h'' [] [''up'', ''down''] ''''" "''up''"
      "test_ctx []\<lparr>cx_accepts := \<lambda>d ls. True\<rparr>" "\<lparr>ms_world = (), ms_ch = []\<rparr>"]
  by (simp add: newStatusPropertyMetric_def mget_def)

lemma takeWhile_until: "c \<notin> set a \<Longrightarrow> r = [] \<or> hd r = c \<Longrightarrow> takeWhile (\<lambda>x. x \<noteq> c) (a @ r) = a"
  by (subst takeWhile_append2) (auto, cases r, auto)

text \<open>
  Property C27: from the builder to the sample.  A counter built for a property without a name of
  its own is announced as the property with \<^verbatim>\<open>-\<close> replaced and \<^verbatim>\<open>_total\<close> appended; collected from a
  reply in which the device gives a number below \<open>2 ^ 53\<close>, also when \<^verbatim>\<open>@\<close> and more text follow,
  it sends exactly one counter sample with that number and the labels of the context.
\<close>

theorem counter_sample:
  assumes "Build (NewPropertyCounterMetric prefix property labels) = Return m" and "property \<noteq> ''''"
    and "mget reply property = Some (Itoa n @ suffix)" and "suffix = '''' \<or> hd suffix = CHR ''@''"
    and "0 \<le> n" and "n < 2 ^ 53" and "accepted (Describe m) c"
  shows "Collect m reply c s = (Return None, s\<lparr>ms_ch := ms_ch s @
     [\<lparr>mt_desc = \<lparr>dc_subsystem = prefix, dc_name = MetricStringCleanup (property @ ''_total''),
                  dc_help = property @ '' for '' @ prefix,
                  dc_labels = [''dev_name'', ''dev_address''] @ labels\<rparr>,
       mt_type = CounterValue, mt_value = f64_of_int n, mt_labels = cx_Labels c\<rparr>]\<rparr>)"
proof -
  have d: "all_digits (show_digits n)" "show_digits n \<noteq> ''''" using assms by simp_all
  then have "CHR ''@'' \<notin> set (show_digits n)"
    by (auto simp: all_digits_def is_digit_def char_code_def)
  then have "takeWhile (\<lambda>x. x \<noteq> CHR ''@'') (show_digits n @ suffix) = show_digits n"
    by (rule takeWhile_until) (use assms(4) in blast)
  then have v: "before_at (Itoa n @ suffix) = Itoa n" using assms by (simp add: before_at_def Itoa_def)
  have ne: "reply \<noteq> []" "Itoa n @ suffix \<noteq> ''''" using assms d by (auto simp: Itoa_def)
  show ?thesis
    using assms v ne ParseFloat_Itoa [of n]
    by (auto simp: Build_def NewPropertyCounterMetric_def prepare_def build_metric_def new_builder_def
        simple_Collect_def property_value_def MetricFromString_def emit_def gseq_def gbind_def accepted_def
        descriptionForPropertyNameHelpText_def LabelDevName_def LabelDevAddress_def Let_def)
qed

theorem counter_sample_witness:
  "\<exists>m. Build (NewPropertyCounterMetric ''interface'' ''rx-byte'' [''interface'']) = Return m
     \<and> fst (Collect m [(''rx-byte'', ''120@x'')] (test_ctx [''ether1'']) \<lparr>ms_world = (), ms_ch = []\<rparr>) = Return None"
proof -
  let ?m = "build_metric (prepare (new_builder metricCounter ''interface'' ''rx-byte'' '''' [] [''interface'']))"
  have b: "Build (NewPropertyCounterMetric ''interface'' ''rx-byte'' [''interface'']) = Return ?m"
    by (simp add: Build_def NewPropertyCounterMetric_def)
  have i: "Itoa 120 @ ''@x'' = ''120@x''" by code_simp
  have "mget [(''rx-byte'', ''120@x'')] ''rx-byte'' = Some (Itoa 120 @ ''@x'')" by (simp add: i mget_def)
  moreover have "accepted (Describe ?m) (test_ctx [''ether1''])"
    using test_accepted by (simp add: test_list_def list_Describe_def)
  ultimately show ?thesis 
    using counter_sample [OF b, of "[(''rx-byte'', ''120@x'')]" 120 "''@x''" "test_ctx [''ether1'']"
        "\<lparr>ms_world = (), ms_ch = []\<rparr>"] b by simp
qed

lemma butlast_tl_quote: "butlast (tl (QuoteToASCII h)) = quote_body h"
  by (simp add: QuoteToASCII_def)

text \<open>
  Host names become printable ASCII.  \<open>CleanHostName\<close> returns only printable ASCII
  characters for every host name a device may report, and panics for exactly one: a single
  double quote.
\<close>

lemma CleanHostName_total:
  "(CleanHostName h = Panicked IndexOutOfRange \<longleftrightarrow> h = [CHR 0x22])
   \<and> (h \<noteq> [CHR 0x22] \<longrightarrow> (\<exists>t. CleanHostName h = Return t \<and> (\<forall>c \<in> set t. printable c)))"
proof -
  have "length h = 1 \<and> hd h = CHR 0x22 \<longleftrightarrow> h = [CHR 0x22]" by (cases h) auto
  then show ?thesis
    using quote_body_printable [of h] quote_body_printable [of "butlast (tl h)"]
    by (auto simp: CleanHostName_def butlast_tl_quote)
qed

text \<open>
  \<open>CountByProperty\<close> counts.  A value has an entry exactly when some sentence has it
  (a missing property counts as the empty value), and the entry is the number of these sentences.
\<close>

lemma CountByProperty_count:
  "mget (CountByProperty re property) k =
     (let n = length (filter (\<lambda>r. mlookup (sen_map r) property = k) re)
      in if n = 0 then None else Some (int n))"
proof -
  let ?step = "\<lambda>r counter. let pool = mlookup (sen_map r) property
       in mput pool (case mget counter pool of Some cnt \<Rightarrow> cnt + 1 | None \<Rightarrow> 1) counter"
  let ?n = "\<lambda>re. length (filter (\<lambda>r. mlookup (sen_map r) property = k) re)"
  have "mget (fold ?step re m) k = (case mget m k of
      Some v \<Rightarrow> Some (v + int (?n re)) | None \<Rightarrow> if ?n re = 0 then None else Some (int (?n re)))" for m
    by (induction re arbitrary: m) (auto simp: Let_def split: option.splits)
  then show ?thesis by (simp add: CountByProperty_def Let_def)
qed

lemma fold_join_None: "fold (\<lambda>e errs. errors_join [errs, Some e]) es r = None \<longleftrightarrow> es = [] \<and> r = None"
  by (induction es arbitrary: r) (auto simp: errors_join_None_iff)

text \<open>
  What the check of a builder finds.  It accepts exactly the label lists that contain
  the two device labels and in which no two positions at a distance of two or more hold the same
  label: a label repeated in the next position is not found.
\<close>

lemma check_accepts:
  "check p = None \<longleftrightarrow> LabelDevName \<in> set (pb_labels p) \<and> LabelDevAddress \<in> set (pb_labels p)
     \<and> (\<forall>i j. i < length (pb_labels p) \<longrightarrow> j + 1 < i \<longrightarrow> pb_labels p ! j \<noteq> pb_labels p ! i)"
proof -
  let ?ls = "pb_labels p"
  have "duplicate_errors ?ls i = [] \<longleftrightarrow> (\<forall>j. j + 1 < i \<longrightarrow> ?ls ! j \<noteq> ?ls ! i)" if "i < length ?ls" for i
  proof -
    have "(\<forall>x \<in> set (take (i - 1) ?ls). ?ls ! i \<noteq> x) \<longleftrightarrow> (\<forall>j. j + 1 < i \<longrightarrow> ?ls ! j \<noteq> ?ls ! i)"
      using that by (fastforce simp: in_set_conv_nth)
    then show ?thesis by (auto simp: duplicate_errors_def filter_empty_conv)
  qed
  then have "concat (map (duplicate_errors ?ls) [0..<length ?ls]) = []
      \<longleftrightarrow> (\<forall>i j. i < length ?ls \<longrightarrow> j + 1 < i \<longrightarrow> ?ls ! j \<noteq> ?ls ! i)" by auto
  then show ?thesis by (auto simp: check_def Let_def fold_join_None)
qed

end
