(* ===== verification/Conn.thy ===== *)
theory Conn
  imports Errors
begin

text \<open>
  The network connection under a client (\<^verbatim>\<open>net.Conn\<close>) and the parts of \<^verbatim>\<open>io\<close> and \<^verbatim>\<open>bufio\<close> the
  protocol code calls.  The peer is not part of the program: it appears as the bytes it will send
  (\<open>rs_in\<close>) and what the next read meets after them (\<open>rs_end\<close>), and as the number of bytes it
  accepts (\<open>cn_room\<close>, \<open>None\<close> for no limit) and what a write meets after them (\<open>cn_full\<close>).
  A read or a write meets an error, or nothing at all: the peer neither sends nor closes, or does not
  take what is sent.  The program sets no deadline on a connection, so the call then never returns
  (\<open>Silent\<close>).  An error stands for everything that ends the call: the end of the stream, a reset, and
  the keep-alive of \<^verbatim>\<open>net.Dialer\<close>, which notices a host that is gone but not one that is up and says
  nothing.  How long a call takes before it ends is not modelled.
\<close>

type_synonym byte = "8 word"

definition bytes_of :: "string \<Rightarrow> byte list" where
  "bytes_of s = map of_char s"

definition string_of :: "byte list \<Rightarrow> string" where
  "string_of bs = map (\<lambda>b. char_of (unat b)) bs"

lemma string_of_bytes_of [simp]: "string_of (bytes_of s) = s"
proof -
  have "char_of (unat (of_char c :: byte)) = c" for c
  proof -
    have "unat (of_nat (of_char c) :: byte) = of_char c mod 256"
      by (simp add: unat_of_nat)
    then show ?thesis by (simp add: of_nat_of_char)
  qed
  then show ?thesis by (induction s) (simp_all add: string_of_def bytes_of_def)
qed

lemma bytes_of_simps [simp]:
  "bytes_of [] = []" "bytes_of (s @ t) = bytes_of s @ bytes_of t" "length (bytes_of s) = length s"
  by (simp_all add: bytes_of_def)


section \<open>Reading\<close>

datatype halt = Failed goerror | Silent

fun wrap_halt :: "(goerror \<Rightarrow> goerror) \<Rightarrow> halt \<Rightarrow> halt" where
  \<comment> \<open>an error is wrapped on its way up; a call that never returns has none\<close>
  "wrap_halt wrap (Failed e) = Failed (wrap e)"
| "wrap_halt wrap Silent = Silent"

lemma wrap_halt_Silent [simp]: "wrap_halt wrap h = Silent \<longleftrightarrow> h = Silent"
  "Silent = wrap_halt wrap h \<longleftrightarrow> h = Silent"
  by (cases h; simp)+

lemma not_Silent: "h \<noteq> Silent \<longleftrightarrow> (\<exists>e. h = Failed e)"
  by (cases h) simp_all

record rstream =
  rs_in :: "byte list"
  rs_end :: halt

definition read1 :: "rstream \<Rightarrow> (halt + byte) \<times> rstream" where
  \<comment> \<open>\<^verbatim>\<open>Read\<close> of a buffered reader into a slice of one byte\<close>
  "read1 st = (case rs_in st of
       [] \<Rightarrow> (Inl (rs_end st), st)
     | b # bs \<Rightarrow> (Inr b, st\<lparr>rs_in := bs\<rparr>))"

definition read_full :: "nat \<Rightarrow> rstream \<Rightarrow> (halt + byte list) \<times> rstream" where
  \<comment> \<open>\<^verbatim>\<open>io.ReadFull\<close> and \<^verbatim>\<open>io.ReadAtLeast\<close> for a slice of exactly \<open>n\<close> bytes\<close>
  "read_full n st =
     (if n \<le> length (rs_in st)
      then (Inr (take n (rs_in st)), st\<lparr>rs_in := drop n (rs_in st)\<rparr>)
      else (Inl (if rs_in st \<noteq> [] \<and> rs_end st = Failed EOF then Failed ErrUnexpectedEOF else rs_end st),
            st\<lparr>rs_in := []\<rparr>))"

text \<open>
  Reading steps in sequence: \<open>rthen wrap d f\<close> is \<^verbatim>\<open>x, err := d(); if err != nil { return wrap(err) }\<close>
  followed by \<open>f x\<close>.  A read ends with a value or an error, or it does not end (\<open>Inl Silent\<close>), and
  then nothing after it happens.
\<close>

type_synonym 'a reads = "rstream \<Rightarrow> (halt + 'a) \<times> rstream"

definition rret :: "'a \<Rightarrow> 'a reads" where
  "rret x = (\<lambda>st. (Inr x, st))"

definition rfail :: "goerror \<Rightarrow> 'a reads" where
  "rfail e = (\<lambda>st. (Inl (Failed e), st))"

definition rthen :: "(goerror \<Rightarrow> goerror) \<Rightarrow> 'a reads \<Rightarrow> ('a \<Rightarrow> 'b reads) \<Rightarrow> 'b reads" where
  "rthen wrap d f = (\<lambda>st. case d st of
       (Inl h, st') \<Rightarrow> (Inl (wrap_halt wrap h), st')
     | (Inr x, st') \<Rightarrow> f x st')"

lemma rret_run [simp]: "rret x st = (Inr x, st)" and rfail_run [simp]: "rfail e st = (Inl (Failed e), st)"
  by (simp_all add: rret_def rfail_def)

lemma rthen_Inr: "d st = (Inr x, st') \<Longrightarrow> rthen wrap d f st = f x st'"
  and rthen_Inl: "d st = (Inl h, st') \<Longrightarrow> rthen wrap d f st = (Inl (wrap_halt wrap h), st')"
  by (simp_all add: rthen_def)

lemma rthen_InrE:
  assumes "rthen wrap d f st = (Inr y, st'')"
  obtains x st' where "d st = (Inr x, st')" and "f x st' = (Inr y, st'')"
  using assms by (auto simp: rthen_def split: prod.splits sum.splits)

text \<open>
  \<open>extends d\<close>: a read that has succeeded depends only on the bytes it consumed, and so does one that
  has failed on a peer that falls silent, because then it failed before the end of what was sent.
\<close>

definition conclusive :: "halt \<Rightarrow> halt + 'a \<Rightarrow> bool" where
  "conclusive e r \<longleftrightarrow> (case r of Inr w \<Rightarrow> True | Inl h \<Rightarrow> e = Silent \<and> h \<noteq> Silent)"

lemma conclusive_simps [simp]: "conclusive e (Inr w)" "conclusive e (Inl h) \<longleftrightarrow> e = Silent \<and> h \<noteq> Silent"
  by (simp_all add: conclusive_def)

definition extends :: "'a reads \<Rightarrow> bool" where
  "extends d \<longleftrightarrow> (\<forall>i e r st x e'. d \<lparr>rs_in = i, rs_end = e\<rparr> = (r, st) \<and> conclusive e r \<longrightarrow>
     d \<lparr>rs_in = i @ x, rs_end = e'\<rparr> = (r, \<lparr>rs_in = rs_in st @ x, rs_end = e'\<rparr>))"

lemma extendsI:
  "(\<And>i e r st x e'. d \<lparr>rs_in = i, rs_end = e\<rparr> = (r, st) \<Longrightarrow> conclusive e r \<Longrightarrow>
     d \<lparr>rs_in = i @ x, rs_end = e'\<rparr> = (r, \<lparr>rs_in = rs_in st @ x, rs_end = e'\<rparr>)) \<Longrightarrow> extends d"
  unfolding extends_def by blast

lemma extendsD:
  "extends d \<Longrightarrow> d st0 = (r, st) \<Longrightarrow> conclusive (rs_end st0) r \<Longrightarrow>
     d \<lparr>rs_in = rs_in st0 @ x, rs_end = e'\<rparr> = (r, \<lparr>rs_in = rs_in st @ x, rs_end = e'\<rparr>)"
  unfolding extends_def by (cases st0) auto

lemma extends_end: "extends d \<Longrightarrow> d st0 = (r, st) \<Longrightarrow> conclusive (rs_end st0) r \<Longrightarrow> rs_end st = rs_end st0"
  using extendsD [of d st0 r st "[]" "rs_end st0"] by (cases st0; cases st) auto

named_theorems extends_rules \<open>which readers extend\<close>

lemma extends_rret [extends_rules, intro]: "extends (rret x)"
  by (rule extendsI) auto

lemma extends_rfail [extends_rules, intro]: "extends (rfail x)"
  by (rule extendsI) auto

lemma extends_read1 [extends_rules, intro]: "extends read1"
  by (rule extendsI) (auto simp: read1_def split: list.splits)

lemma extends_read_full [extends_rules, intro]: "extends (read_full n)"
  by (rule extendsI) (auto simp: read_full_def split: if_splits)

lemma extends_rthen [extends_rules, intro]:
  assumes "extends d" and "\<And>x. extends (f x)" shows "extends (rthen wrap d f)"
proof (rule extendsI)
  fix i e r st x e'
  assume rt: "rthen wrap d f \<lparr>rs_in = i, rs_end = e\<rparr> = (r, st)" and c: "conclusive e r"
  obtain q st' where 1: "d \<lparr>rs_in = i, rs_end = e\<rparr> = (q, st')" by fastforce
  show "rthen wrap d f \<lparr>rs_in = i @ x, rs_end = e'\<rparr> = (r, \<lparr>rs_in = rs_in st @ x, rs_end = e'\<rparr>)"
  proof (cases q)
    case (Inl h)
    with rt 1 have "r = Inl (wrap_halt wrap h)" "st = st'" by (simp_all add: rthen_def)
    with c extendsD [OF assms(1) 1, of x e'] Inl show ?thesis by (simp add: rthen_def)
  next
    case (Inr y)
    with rt 1 have 2: "f y st' = (r, st)" by (simp add: rthen_def)
    have "rs_end st' = e" using extends_end [OF assms(1) 1] Inr by simp
    with extendsD [OF assms(1) 1, of x e'] extendsD [OF assms(2) 2, of x e'] Inr c
    show ?thesis by (simp add: rthen_def)
  qed
qed

lemma extends_if [extends_rules, intro]:
  "extends d \<Longrightarrow> extends d' \<Longrightarrow> extends (if b then d else d')"
  by simp

text \<open>\<open>respects_end d\<close>: reading does not change what the peer will do, and only a silent peer keeps it waiting.\<close>

definition respects_end :: "'a reads \<Rightarrow> bool" where
  "respects_end d \<longleftrightarrow> (\<forall>st. rs_end (snd (d st)) = rs_end st \<and> (fst (d st) = Inl Silent \<longrightarrow> rs_end st = Silent))"

lemma respects_endD:
  "respects_end d \<Longrightarrow> d st = (r, st') \<Longrightarrow> rs_end st' = rs_end st \<and> (r = Inl Silent \<longrightarrow> rs_end st = Silent)"
  unfolding respects_end_def by (metis fst_conv snd_conv)

named_theorems end_rules \<open>which readers respect the end of the stream\<close>

lemma respects_end_basic [end_rules]:
  "respects_end (rret x)" "respects_end (rfail e)" "respects_end read1" "respects_end (read_full n)"
  by (auto simp: respects_end_def read1_def read_full_def split: list.splits)

lemma respects_end_rthen [end_rules]:
  "respects_end d \<Longrightarrow> (\<And>x. respects_end (f x)) \<Longrightarrow> respects_end (rthen wrap d f)"
  unfolding respects_end_def rthen_def
  by (auto split: prod.splits sum.splits) (metis fst_conv snd_conv)+

lemma respects_end_if [end_rules]:
  "respects_end d \<Longrightarrow> respects_end d' \<Longrightarrow> respects_end (if b then d else d')"
  by simp

lemma read_full_append:
  "length bs = n \<Longrightarrow> read_full n \<lparr>rs_in = bs @ rest, rs_end = e\<rparr> = (Inr bs, \<lparr>rs_in = rest, rs_end = e\<rparr>)"
  by (simp add: read_full_def)

lemma read_full_length:
  "read_full n st = (Inr bs, st') \<Longrightarrow> length bs = n \<and> rs_in st = bs @ rs_in st' \<and> rs_end st' = rs_end st"
  by (auto simp: read_full_def split: if_splits)

lemma read1_Inr:
  "read1 st = (Inr b, st') \<Longrightarrow> rs_in st = b # rs_in st' \<and> rs_end st' = rs_end st"
  by (auto simp: read1_def split: list.splits)


section \<open>Writing\<close>

record conn =
  cn_rx :: rstream
  cn_tx :: "byte list"
  cn_room :: "nat option"
  cn_full :: halt
  cn_closed :: bool

text \<open>
  A peer is \<open>silent\<close> when it will at some point neither answer nor close the connection, or
  neither take bytes nor close it.
\<close>

definition silent :: "conn \<Rightarrow> bool" where
  "silent c \<longleftrightarrow> rs_end (cn_rx c) = Silent \<or> cn_room c \<noteq> None \<and> cn_full c = Silent"

definition conn_write :: "byte list \<Rightarrow> conn \<Rightarrow> nat \<times> halt option \<times> conn" where
  \<comment> \<open>\<^verbatim>\<open>Write\<close> of the connection: the number of bytes taken, and what it met when not all were; with
     \<open>Some Silent\<close> the call does not return\<close>
  "conn_write p c =
     (if cn_closed c then (0, Some (Failed (ErrConn ''closed'')), c)
      else case cn_room c of
             None \<Rightarrow> (length p, None, c\<lparr>cn_tx := cn_tx c @ p\<rparr>)
           | Some r \<Rightarrow>
               if length p \<le> r
               then (length p, None, c\<lparr>cn_tx := cn_tx c @ p, cn_room := Some (r - length p)\<rparr>)
               else (r, Some (cn_full c), c\<lparr>cn_tx := cn_tx c @ take r p, cn_room := Some 0\<rparr>))"

definition same_peer :: "conn \<Rightarrow> conn \<Rightarrow> bool" where
  \<comment> \<open>writing does not change what the peer will do\<close>
  "same_peer c c' \<longleftrightarrow> cn_rx c' = cn_rx c \<and> cn_closed c' = cn_closed c \<and> cn_full c' = cn_full c
     \<and> (cn_room c' = None \<longleftrightarrow> cn_room c = None)"

lemma same_peer_refl [simp]: "same_peer c c"
  by (simp add: same_peer_def)

lemma same_peer_trans: "same_peer a b \<Longrightarrow> same_peer b c \<Longrightarrow> same_peer a c"
  by (simp add: same_peer_def)

lemma same_peer_silent: "same_peer c c' \<Longrightarrow> silent c' = silent c"
  by (simp add: same_peer_def silent_def)

lemma silent_update [simp]: "rs_end st = rs_end (cn_rx c) \<Longrightarrow> silent (c\<lparr>cn_rx := st\<rparr>) = silent c"
  "silent (c\<lparr>cn_closed := b\<rparr>) = silent c"
  by (simp_all add: silent_def)

lemma conn_write_ok:
  "conn_write p c = (n, None, c') \<Longrightarrow>
     n = length p \<and> cn_tx c' = cn_tx c @ p \<and> cn_rx c' = cn_rx c \<and> cn_closed c' = cn_closed c"
  by (auto simp: conn_write_def split: if_splits option.splits)

lemma conn_write_any:
  "conn_write p c = (n, e, c') \<Longrightarrow> same_peer c c' \<and> n \<le> length p \<and> cn_tx c' = cn_tx c @ take n p
     \<and> (e = Some Silent \<longrightarrow> silent c)"
  by (auto simp: conn_write_def same_peer_def silent_def split: if_splits option.splits)

definition buf_size :: nat where "buf_size = 4096"

text \<open>
  A buffered writer remembers the error it met, and does nothing from then on.  A write that does not
  return is remembered in the same place: what would come after it does not happen.
\<close>

record bufw =
  bw_buf :: "byte list"
  bw_err :: "halt option"

definition bufw_flush :: "bufw \<Rightarrow> conn \<Rightarrow> halt option \<times> bufw \<times> conn" where
  \<comment> \<open>\<^verbatim>\<open>bufio.Writer.Flush\<close>\<close>
  "bufw_flush w c =
     (case bw_err w of
        Some e \<Rightarrow> (Some e, w, c)
      | None \<Rightarrow>
          if bw_buf w = [] then (None, w, c)
          else (case conn_write (bw_buf w) c of
                  (n, err, c') \<Rightarrow>
                    (case (if n < length (bw_buf w) \<and> err = None then Some (Failed ErrShortWrite) else err) of
                       None \<Rightarrow> (None, w\<lparr>bw_buf := []\<rparr>, c')
                     | Some e \<Rightarrow>
                         (Some e, w\<lparr>bw_buf := drop n (bw_buf w), bw_err := Some e\<rparr>, c'))))"

lemma bufw_flush_ok:
  "bufw_flush w c = (None, w', c') \<Longrightarrow>
     bw_err w = None \<and> bw_err w' = None \<and> bw_buf w' = [] \<and> cn_tx c' = cn_tx c @ bw_buf w
     \<and> cn_rx c' = cn_rx c \<and> cn_closed c' = cn_closed c"
  by (auto simp: bufw_flush_def split: option.splits if_splits prod.splits dest: conn_write_ok)

lemma bufw_flush_err: "bufw_flush w c = (Some e, w', c') \<Longrightarrow> bw_err w' = Some e"
  by (auto simp: bufw_flush_def split: option.splits if_splits prod.splits)

lemma bufw_flush_step: "bufw_flush w c = (e, w', c') \<Longrightarrow> bw_err w' = None \<Longrightarrow> bw_buf w' = []"
  by (auto simp: bufw_flush_def split: option.splits if_splits prod.splits)

lemma bufw_flush_any: "bufw_flush w c = (e, w', c') \<Longrightarrow> same_peer c c'"
  by (auto simp: bufw_flush_def split: option.splits if_splits prod.splits dest: conn_write_any)

lemma bufw_flush_Silent:
  "bufw_flush w c = (e, w', c') \<Longrightarrow> e = bw_err w' \<and> (bw_err w' = Some Silent \<longrightarrow> bw_err w = Some Silent \<or> silent c)"
  by (auto simp: bufw_flush_def split: option.splits if_splits prod.splits dest: conn_write_any)

function bufw_write :: "byte list \<Rightarrow> bufw \<Rightarrow> conn \<Rightarrow> halt option \<times> bufw \<times> conn" where
  \<comment> \<open>\<^verbatim>\<open>bufio.Writer.Write\<close>: large writes bypass an empty buffer, others fill and flush it\<close>
  "bufw_write p w c =
     (if bw_err w \<noteq> None then (bw_err w, w, c)
      else if length p \<le> buf_size - length (bw_buf w) then
        (None, w\<lparr>bw_buf := bw_buf w @ p\<rparr>, c)
      else if bw_buf w = [] then
        (case conn_write p c of
           (n, err, c') \<Rightarrow> bufw_write (drop n p) (w\<lparr>bw_err := err\<rparr>) c')
      else
        (let k = buf_size - length (bw_buf w)
         in case bufw_flush (w\<lparr>bw_buf := bw_buf w @ take k p\<rparr>) c of
              (_, w', c') \<Rightarrow> bufw_write (drop k p) w' c'))"
  by pat_completeness auto
termination
  by (relation "measure (\<lambda>(p, w, c). if bw_err w \<noteq> None then 0
         else 1 + 2 * length p + (if bw_buf w = [] then 0 else 1))")
     (auto dest!: sym [THEN conn_write_ok] sym [THEN bufw_flush_step] split: if_splits)

declare bufw_write.simps [simp del]

text \<open>What a writer without error holds or has sent is exactly what was written to it.\<close>

lemma bufw_write_ok:
  "bufw_write p w c = (None, w', c') \<Longrightarrow>
     bw_err w = None \<and> bw_err w' = None \<and> cn_tx c' @ bw_buf w' = cn_tx c @ bw_buf w @ p
     \<and> cn_rx c' = cn_rx c \<and> cn_closed c' = cn_closed c"
proof (induction p w c arbitrary: w' c' rule: bufw_write.induct)
  case (1 p w c)
  have e: "bw_err w = None" using "1.prems"
    by (subst (asm) bufw_write.simps) (auto split: if_splits)
  show ?case
  proof (cases "length p \<le> buf_size - length (bw_buf w)")
    case True
    with "1.prems" e show ?thesis by (subst (asm) bufw_write.simps) auto
  next
    case big: False
    show ?thesis
    proof (cases "bw_buf w = []")
      case True
      obtain n err c2 where w2: "conn_write p c = (n, err, c2)" by (metis prod_cases3)
      with "1.prems" e big True have r: "bufw_write (drop n p) (w\<lparr>bw_err := err\<rparr>) c2 = (None, w', c')"
        by (subst (asm) bufw_write.simps) simp
      from "1.IH"(1) [OF _ big True w2 [symmetric] refl r] e have "err = None"
        and ih: "bw_err w' = None" "cn_tx c' @ bw_buf w' = cn_tx c2 @ drop n p"
          "cn_rx c' = cn_rx c2" "cn_closed c' = cn_closed c2" using True by auto
      with conn_write_ok [of p c n c2] w2 e True show ?thesis by simp
    next
      case False
      let ?k = "buf_size - length (bw_buf w)"
      obtain fe w2 c2 where f: "bufw_flush (w\<lparr>bw_buf := bw_buf w @ take ?k p\<rparr>) c = (fe, w2, c2)"
        by (metis prod_cases3)
      with "1.prems" e big False have r: "bufw_write (drop ?k p) w2 c2 = (None, w', c')"
        by (subst (asm) bufw_write.simps) (simp add: Let_def)
      from "1.IH"(2) [OF _ big False refl f [symmetric] refl r] e
      have ih: "bw_err w2 = None" "bw_err w' = None"
        "cn_tx c' @ bw_buf w' = cn_tx c2 @ bw_buf w2 @ drop ?k p"
        "cn_rx c' = cn_rx c2" "cn_closed c' = cn_closed c2" by auto
      from f ih(1) have "fe = None" by (cases fe) (auto dest: bufw_flush_err)
      with bufw_flush_ok [of _ c w2 c2] f ih e show ?thesis by fastforce
    qed
  qed
qed

lemma bufw_write_any:
  "bufw_write p w c = (e, w', c') \<Longrightarrow> same_peer c c' \<and> e = bw_err w'
     \<and> (e = Some Silent \<longrightarrow> bw_err w = Some Silent \<or> silent c)"
proof (induction p w c arbitrary: e w' c' rule: bufw_write.induct)
  case (1 p w c)
  show ?case
  proof (cases "bw_err w \<noteq> None \<or> length p \<le> buf_size - length (bw_buf w)")
    case True
    with "1.prems" show ?thesis by (subst (asm) bufw_write.simps) (auto split: if_splits)
  next
    case False
    then have e: "\<not> bw_err w \<noteq> None" and big: "\<not> length p \<le> buf_size - length (bw_buf w)" by auto
    show ?thesis
    proof (cases "bw_buf w = []")
      case True
      obtain n err c2 where w2: "conn_write p c = (n, err, c2)" by (metis prod_cases3)
      with "1.prems" e big True have r: "bufw_write (drop n p) (w\<lparr>bw_err := err\<rparr>) c2 = (e, w', c')"
        by (subst (asm) bufw_write.simps) simp
      from "1.IH"(1) [OF e big True w2 [symmetric] refl r] conn_write_any [OF w2]
      show ?thesis using same_peer_trans same_peer_silent by auto
    next
      case False
      let ?k = "buf_size - length (bw_buf w)"
      obtain fe w2 c2 where f: "bufw_flush (w\<lparr>bw_buf := bw_buf w @ take ?k p\<rparr>) c = (fe, w2, c2)"
        by (metis prod_cases3)
      with "1.prems" e big False have r: "bufw_write (drop ?k p) w2 c2 = (e, w', c')"
        by (subst (asm) bufw_write.simps) (simp add: Let_def)
      from "1.IH"(2) [OF e big False refl f [symmetric] refl r] bufw_flush_any [OF f] bufw_flush_Silent [OF f]
      show ?thesis using same_peer_trans same_peer_silent by auto
    qed
  qed
qed

text \<open>With room for every byte and an open connection nothing fails.\<close>

definition writable :: "conn \<Rightarrow> bool" where
  "writable c \<longleftrightarrow> \<not> cn_closed c \<and> cn_room c = None"

lemma bufw_flush_writable:
  "writable c \<Longrightarrow> bw_err w = None \<Longrightarrow> \<exists>w' c'. bufw_flush w c = (None, w', c') \<and> writable c'"
  by (auto simp: bufw_flush_def conn_write_def writable_def)

lemma bufw_write_writable:
  "writable c \<Longrightarrow> bw_err w = None \<Longrightarrow> \<exists>w' c'. bufw_write p w c = (None, w', c') \<and> writable c'"
proof (induction p w c rule: bufw_write.induct)
  case (1 p w c)
  show ?case
  proof (cases "length p \<le> buf_size - length (bw_buf w)")
    case True
    with "1.prems" show ?thesis by (subst bufw_write.simps) simp
  next
    case big: False
    show ?thesis
    proof (cases "bw_buf w = []")
      case True
      have cw: "conn_write p c = (length p, None, c\<lparr>cn_tx := cn_tx c @ p\<rparr>)"
        using "1.prems" by (simp add: conn_write_def writable_def)
      have "writable (c\<lparr>cn_tx := cn_tx c @ p\<rparr>)" using "1.prems" by (simp add: writable_def)
      from "1.IH"(1) [OF _ big True cw [symmetric] refl this] "1.prems" big True cw show ?thesis
        by (subst bufw_write.simps) simp
    next
      case False
      let ?k = "buf_size - length (bw_buf w)"
      obtain w2 c2 where f: "bufw_flush (w\<lparr>bw_buf := bw_buf w @ take ?k p\<rparr>) c = (None, w2, c2)"
        and wr: "writable c2"
        using bufw_flush_writable [of c "w\<lparr>bw_buf := bw_buf w @ take ?k p\<rparr>"] "1.prems" by auto
      have e2: "bw_err w2 = None" using bufw_flush_ok [OF f] by simp
      from "1.IH"(2) [OF _ big False refl f [symmetric] refl wr e2] "1.prems" big False f show ?thesis
        by (subst bufw_write.simps) (simp add: Let_def)
    qed
  qed
qed

end
