(* ===== verification/Proto.thy ===== *)
theory Proto
  imports Conn Strconv
begin

text \<open>
  Package \<^verbatim>\<open>routeros/proto\<close>: the length-prefixed words of the RouterOS API
  (\<open>encodeLength\<close>, \<open>readLength\<close>, \<open>WriteWord\<close>, \<open>readWord\<close>) and its sentences
  (\<open>BeginSentence\<close>, \<open>EndSentence\<close>, \<open>ReadSentence\<close>).  Received words pass through the
  Windows-1250 decoder of \<^verbatim>\<open>golang.org/x/text\<close>, which is the parameter \<open>dec\<close>; the properties
  that need it assume its documented behaviour on ASCII (\<open>ascii_decoder\<close>).
\<close>

section \<open>Lengths\<close>

definition go_byte :: "int \<Rightarrow> byte" where
  \<comment> \<open>the conversion \<^verbatim>\<open>byte(x)\<close>\<close>
  "go_byte x = word_of_int x"

definition encodeLength :: "int \<Rightarrow> byte list" where
  "encodeLength l =
     (if l < 0x80 then [go_byte (l AND 0xFF)]
      else if l < 0x4000 then
        [go_byte (drop_bit 8 l) OR 0x80, go_byte (l AND 0xFF)]
      else if l < 0x200000 then
        [go_byte (drop_bit 16 l AND 0xFF) OR 0xC0, go_byte (drop_bit 8 l AND 0xFF),
         go_byte (l AND 0xFF)]
      else if l < 0x10000000 then
        [go_byte (drop_bit 24 l AND 0xFF) OR 0xE0, go_byte (drop_bit 16 l AND 0xFF),
         go_byte (drop_bit 8 l AND 0xFF), go_byte (l AND 0xFF)]
      else
        [0xF0, go_byte (drop_bit 24 l AND 0xFF), go_byte (drop_bit 16 l AND 0xFF),
         go_byte (drop_bit 8 l AND 0xFF), go_byte (l AND 0xFF)])"

definition read_wrap :: "goerror \<Rightarrow> goerror" where
  "read_wrap e = Wrapf ''read to buffer error: %w'' [] e"

definition readBytes :: "byte list \<Rightarrow> nat \<Rightarrow> byte list reads" where
  \<comment> \<open>the filled buffer: the bytes already in it, then \<open>n\<close> read ones\<close>
  "readBytes buf n = rthen read_wrap (read_full n) (\<lambda>bs. rret (buf @ bs))"

definition accumulate :: "byte list \<Rightarrow> 64 word" where
  "accumulate buf = foldl (\<lambda>res v. push_bit 8 res OR ucast v) 0 buf"

definition readLength :: "64 word reads" where
  "readLength =
     rthen read_wrap read1 (\<lambda>b.
       let res = (ucast b :: 64 word)
       in rthen (\<lambda>e. e)
            (if res AND 0x80 = 0x00 then rret [0, 0, 0, b]
             else if res AND 0xC0 = 0x80 then
               readBytes [0, 0, ucast (res AND NOT 0xC0 AND 0xFF)] 1
             else if res AND 0xE0 = 0xC0 then
               readBytes [0, ucast (res AND NOT 0xE0 AND 0xFF)] 2
             else if res AND 0xF0 = 0xE0 then
               readBytes [ucast (res AND NOT 0xF0 AND 0xFF)] 3
             else if res AND 0xF8 = 0xF0 then readBytes [] 4
             else rret [0, 0, 0, b])
            (\<lambda>buf. rret (accumulate buf)))"

text \<open>The bytes of a length and how they are put together again.\<close>

definition byte_at :: "nat \<Rightarrow> int \<Rightarrow> byte" where
  "byte_at k l = word_of_int (drop_bit k l)"

lemma go_byte_and_FF [simp]: "go_byte (x AND 0xFF) = go_byte x"
proof -
  have m: "x AND 0xFF = take_bit 8 x" by (simp add: take_bit_eq_mask mask_eq_exp_minus_1)
  show ?thesis
    unfolding go_byte_def m by (intro bit_word_eqI) (auto simp: bit_simps)
qed

lemma go_byte_drop: "go_byte (drop_bit k l) = byte_at k l" "go_byte l = byte_at 0 l"
  by (simp_all add: go_byte_def byte_at_def)

lemma uint_byte_at: "uint (byte_at k l) = l div 2 ^ k mod 256"
  by (simp add: byte_at_def uint_word_of_int drop_bit_eq_div)

lemma accumulate_step:
  assumes "uint r < 2 ^ 56"
  shows "uint (push_bit 8 r OR ucast (v :: byte) :: 64 word) = uint r * 256 + uint v"
proof -
  have d: "push_bit 8 r AND (ucast v :: 64 word) = 0"
    by (rule bit_word_eqI) (auto simp: bit_simps dest: bit_imp_le_length)
  have "push_bit 8 r OR ucast v = push_bit 8 r + (ucast v :: 64 word)"
    using d by (simp add: disjunctive_add_eq_or)
  moreover have "uint (push_bit 8 r :: 64 word) = uint r * 256"
    using assms by (simp add: push_bit_eq_mult uint_word_ariths)
  moreover have "uint (ucast v :: 64 word) = uint v"
    by (simp add: uint_up_ucast is_up)
  moreover have "uint v < 256" using uint_lt2p [of v] by simp
  ultimately show ?thesis using assms by (simp add: uint_word_ariths)
qed

lemma uint_byte_lt: "uint (v :: byte) < 256"
  using uint_lt2p [of v] by simp

lemma accumulate_4:
  "uint (accumulate [b3, b2, b1, b0]) =
     uint b3 * 2 ^ 24 + uint b2 * 2 ^ 16 + uint b1 * 2 ^ 8 + uint b0"
proof -
  let ?f = "\<lambda>res v. push_bit 8 res OR ucast (v :: byte) :: 64 word"
  note b = uint_byte_lt [of b3] uint_byte_lt [of b2] uint_byte_lt [of b1] uint_byte_lt [of b0]
  have nn: "0 \<le> uint b3" "0 \<le> uint b2" "0 \<le> uint b1" by simp_all
  have s1: "uint (?f 0 b3) = uint b3" using accumulate_step [of 0 b3] by simp
  have s2: "uint (?f (?f 0 b3) b2) = uint b3 * 256 + uint b2"
    using accumulate_step [of "?f 0 b3" b2] s1 b by simp
  have s3: "uint (?f (?f (?f 0 b3) b2) b1) = (uint b3 * 256 + uint b2) * 256 + uint b1"
    using accumulate_step [of "?f (?f 0 b3) b2" b1] s2 b by simp
  have s4: "uint (?f (?f (?f (?f 0 b3) b2) b1) b0)
      = ((uint b3 * 256 + uint b2) * 256 + uint b1) * 256 + uint b0"
    using accumulate_step [of "?f (?f (?f 0 b3) b2) b1" b0] s3 b by simp
  show ?thesis unfolding accumulate_def by (simp add: s4 [simplified])
qed

lemma byte_high_bits:
  assumes "uint (b :: byte) < 2 ^ k" and "k \<le> n" shows "\<not> bit b n"
proof
  assume b: "bit b n"
  have "uint b < 2 ^ n" using assms power_increasing [of k n "2::int"] by linarith
  then have "\<not> bit (uint b) n" by (simp add: bit_iff_odd)
  with b bit_imp_le_length [OF b] show False by (simp add: bit_uint_iff)
qed

lemma byte_bits:
  "uint (b :: byte) < 128 \<Longrightarrow> \<not> bit b 7"
  "uint b < 64 \<Longrightarrow> \<not> bit b 6 \<and> \<not> bit b 7"
  "uint b < 32 \<Longrightarrow> \<not> bit b 5 \<and> \<not> bit b 6 \<and> \<not> bit b 7"
  "uint b < 16 \<Longrightarrow> \<not> bit b 4 \<and> \<not> bit b 5 \<and> \<not> bit b 6 \<and> \<not> bit b 7"
  using byte_high_bits [of b 7] byte_high_bits [of b 6] byte_high_bits [of b 5]
    byte_high_bits [of b 4] by simp_all

lemma less_8_cases: "n < 8 \<longleftrightarrow> n \<in> {0, 1, 2, 3, 4, 5, 6, 7 :: nat}"
  by auto

lemma ucast_eq_64: "(ucast (b :: byte) :: 64 word) = ucast c \<longleftrightarrow> b = c"
  by (simp add: unsigned_eq_0_iff word_uint_eq_iff uint_up_ucast is_up)

text \<open>The tests of \<open>readLength\<close> on the first byte, as tests of the byte itself.\<close>

lemma first_byte_tests:
  "(ucast (b :: byte) :: 64 word) AND 0x80 = 0 \<longleftrightarrow> b AND 0x80 = 0"
  "(ucast (b :: byte) :: 64 word) AND 0xC0 = 0x80 \<longleftrightarrow> b AND 0xC0 = 0x80"
  "(ucast (b :: byte) :: 64 word) AND 0xE0 = 0xC0 \<longleftrightarrow> b AND 0xE0 = 0xC0"
  "(ucast (b :: byte) :: 64 word) AND 0xF0 = 0xE0 \<longleftrightarrow> b AND 0xF0 = 0xE0"
  "(ucast (b :: byte) :: 64 word) AND 0xF8 = 0xF0 \<longleftrightarrow> b AND 0xF8 = 0xF0"
  using ucast_eq_64 [of "b AND 0x80" 0] ucast_eq_64 [of "b AND 0xC0" "0x80"]
    ucast_eq_64 [of "b AND 0xE0" "0xC0"] ucast_eq_64 [of "b AND 0xF0" "0xE0"]
    ucast_eq_64 [of "b AND 0xF8" "0xF0"]
  by (simp_all add: unsigned_and_eq)

lemma masked_first_byte:
  "ucast ((ucast (b :: byte) :: 64 word) AND 63) = b AND 63"
  "ucast ((ucast (b :: byte) :: 64 word) AND 31) = b AND 31"
  "ucast ((ucast (b :: byte) :: 64 word) AND 15) = b AND 15"
  by (rule bit_word_eqI; auto simp: bit_simps less_8_cases)+

lemma prefix_bits:
  "uint b < 128 \<Longrightarrow> b AND 0x80 = 0"
  "uint b < 64 \<Longrightarrow> (b OR 0x80) AND 0xC0 = 0x80"
  "uint b < 64 \<Longrightarrow> (b OR 0x80) AND 63 = b"
  "uint b < 32 \<Longrightarrow> (b OR 0xC0) AND 0xE0 = 0xC0"
  "uint b < 32 \<Longrightarrow> (b OR 0xC0) AND 31 = b"
  "uint b < 16 \<Longrightarrow> (b OR 0xE0) AND 0xF0 = 0xE0"
  "uint b < 16 \<Longrightarrow> (b OR 0xE0) AND 15 = b"
  "(b OR 0xC0) AND 0xC0 = 0xC0" "(b OR 0xE0) AND 0xE0 = 0xE0" "(b OR 0xE0) AND 0xC0 = 0xC0"
  "(b OR 0x80) AND 0x80 = 0x80" "(b OR 0xC0) AND 0x80 = 0x80" "(b OR 0xE0) AND 0x80 = 0x80"
  for b :: byte
  by (rule bit_word_eqI; auto simp: bit_simps less_8_cases dest: byte_bits)+

lemmas length_bits = first_byte_tests masked_first_byte prefix_bits

lemma readBytes_append:
  "length bs = n \<Longrightarrow> readBytes buf n \<lparr>rs_in = bs @ rest, rs_end = e\<rparr> =
     (Inr (buf @ bs), \<lparr>rs_in = rest, rs_end = e\<rparr>)"
  by (simp add: readBytes_def rthen_def read_full_append)

lemma byte_at_sum:
  assumes "0 \<le> l" and "l < 2 ^ 32"
  shows "uint (byte_at 24 l) * 2 ^ 24 + uint (byte_at 16 l) * 2 ^ 16 + uint (byte_at 8 l) * 2 ^ 8
           + uint (byte_at 0 l) = l"
proof -
  have "l div 16777216 < 256" using assms by simp
  moreover have "0 \<le> l div 16777216" using assms by simp
  ultimately have m: "l div 16777216 mod 256 = l div 16777216" by simp
  have e1: "l = 256 * (l div 256) + l mod 256" by simp
  have e2: "l div 256 = 256 * (l div 65536) + l div 256 mod 256"
    using mult_div_mod_eq [of 256 "l div 256"] by (simp add: zdiv_zmult2_eq [symmetric])
  have e3: "l div 65536 = 256 * (l div 16777216) + l div 65536 mod 256"
    using mult_div_mod_eq [of 256 "l div 65536"] by (simp add: zdiv_zmult2_eq [symmetric])
  have "uint (byte_at 24 l) * 2 ^ 24 + uint (byte_at 16 l) * 2 ^ 16 + uint (byte_at 8 l) * 2 ^ 8
           + uint (byte_at 0 l)
      = (l div 16777216 mod 256) * 16777216 + (l div 65536 mod 256) * 65536
           + (l div 256 mod 256) * 256 + l mod 256"
    by (simp add: uint_byte_at)
  also have "\<dots> = l" using m e1 e2 e3 by linarith
  finally show ?thesis .
qed

lemma encodeLength_bytes:
  "encodeLength l =
     (if l < 0x80 then [byte_at 0 l]
      else if l < 0x4000 then [byte_at 8 l OR 0x80, byte_at 0 l]
      else if l < 0x200000 then [byte_at 16 l OR 0xC0, byte_at 8 l, byte_at 0 l]
      else if l < 0x10000000 then
        [byte_at 24 l OR 0xE0, byte_at 16 l, byte_at 8 l, byte_at 0 l]
      else [0xF0, byte_at 24 l, byte_at 16 l, byte_at 8 l, byte_at 0 l])"
  unfolding encodeLength_def go_byte_and_FF
  unfolding go_byte_drop(1)
  unfolding go_byte_drop(2) ..

lemma readLength_byte:
  "uint b < 128 \<Longrightarrow> readLength \<lparr>rs_in = b # rest, rs_end = e\<rparr> =
     (Inr (accumulate [0, 0, 0, b]), \<lparr>rs_in = rest, rs_end = e\<rparr>)"
  by (simp add: readLength_def rthen_def read1_def length_bits)

text \<open>Reading back an encoded length: the heart of the framing.\<close>

lemma readLength_encodeLength:
  assumes "0 \<le> l" and "l < 2 ^ 32"
  shows "readLength \<lparr>rs_in = encodeLength l @ rest, rs_end = e\<rparr> =
           (Inr (word_of_int l), \<lparr>rs_in = rest, rs_end = e\<rparr>)"
proof -
  let ?b = "\<lambda>k. byte_at k l"
  note sum = byte_at_sum [OF assms]
  have acc: "accumulate [c3, c2, c1, c0] = word_of_int l"
    if "uint c3 = uint (?b 24)" "uint c2 = uint (?b 16)" "uint c1 = uint (?b 8)"
      "uint c0 = uint (?b 0)" for c3 c2 c1 c0
    using that sum accumulate_4 [of c3 c2 c1 c0] assms
    by (simp add: word_uint_eq_iff uint_word_of_int)
  consider "l < 0x80" | "0x80 \<le> l" "l < 0x4000" | "0x4000 \<le> l" "l < 0x200000"
    | "0x200000 \<le> l" "l < 0x10000000" | "0x10000000 \<le> l" by linarith
  then show ?thesis
  proof cases
    case 1
    then have "uint (?b 0) < 128" and z: "uint (?b 24) = 0" "uint (?b 16) = 0" "uint (?b 8) = 0"
      using assms by (simp_all add: uint_byte_at)
    with 1 acc [of 0 0 0 "?b 0"] show ?thesis
      by (simp add: encodeLength_bytes readLength_byte)
  next
    case 2
    then have "uint (?b 8) < 64" and z: "uint (?b 24) = 0" "uint (?b 16) = 0"
      using assms by (simp_all add: uint_byte_at)
    with 2 acc [of 0 0 "?b 8" "?b 0"] show ?thesis
      using readBytes_append [of "[?b 0]" 1]
      by (simp add: encodeLength_bytes readLength_def rthen_def read1_def length_bits)
  next
    case 3
    then have "uint (?b 16) < 32" and z: "uint (?b 24) = 0"
      using assms by (simp_all add: uint_byte_at)
    with 3 acc [of 0 "?b 16" "?b 8" "?b 0"] show ?thesis
      using readBytes_append [of "[?b 8, ?b 0]" 2]
      by (simp add: encodeLength_bytes readLength_def rthen_def read1_def length_bits)
  next
    case 4
    then have "uint (?b 24) < 16" using assms by (simp add: uint_byte_at)
    with 4 acc [of "?b 24" "?b 16" "?b 8" "?b 0"] show ?thesis
      using readBytes_append [of "[?b 16, ?b 8, ?b 0]" 3]
      by (simp add: encodeLength_bytes readLength_def rthen_def read1_def length_bits)
  next
    case 5
    with acc [of "?b 24" "?b 16" "?b 8" "?b 0"] show ?thesis
      using readBytes_append [of "[?b 24, ?b 16, ?b 8, ?b 0]" 4]
      by (simp add: encodeLength_bytes readLength_def rthen_def read1_def)
  qed
qed


section \<open>The contract of a stream decoder\<close>

text \<open>
  Every layer of the protocol (lengths, words, sentences, replies) reads a value from the front
  of the stream.  \<open>stream_decoder\<close>: what follows the value does not change it.
  \<open>stream_codec\<close>: the values of some encodings are read back.  Unique decodability and what happens on
  truncated input follow once for all layers.
\<close>

locale stream_decoder =
  fixes dec :: "'w reads"
  assumes extend: "extends dec"
    and ends: "respects_end dec"

locale stream_codec = stream_decoder dec
  for dec :: "'w reads" +
  fixes enc :: "'a \<Rightarrow> byte list" and val :: "'a \<Rightarrow> 'w" and ok :: "'a \<Rightarrow> bool"
  assumes dec_enc: "ok a \<Longrightarrow>
      dec \<lparr>rs_in = enc a @ rest, rs_end = e\<rparr> = (Inr (val a), \<lparr>rs_in = rest, rs_end = e\<rparr>)"

context stream_decoder
begin

lemma stable:
  assumes "dec \<lparr>rs_in = p, rs_end = e\<rparr> = (r0, st)" and "conclusive e r0"
    and "dec \<lparr>rs_in = p @ q, rs_end = e'\<rparr> = (r, st')"
  shows "r = r0 \<and> rs_in st' = rs_in st @ q"
  using extendsD [OF extend, of "\<lparr>rs_in = p, rs_end = e\<rparr>" r0 st q e'] assms by simp

end

context stream_codec
begin

lemma unique:
  assumes "ok a" "ok b" "enc a @ r = enc b @ r'" shows "val a = val b \<and> r = r'"
  using dec_enc [OF assms(1), of r undefined] dec_enc [OF assms(2), of r' undefined] assms(3)
  by simp

lemma truncated:
  assumes "ok a" and "enc a = p @ q" and "q \<noteq> []"
  shows "\<exists>h st. dec \<lparr>rs_in = p, rs_end = e\<rparr> = (Inl h, st) \<and> (h = Silent \<longleftrightarrow> e = Silent)"
proof (cases "dec \<lparr>rs_in = p, rs_end = e\<rparr>")
  case (Pair r st)
  have whole: "dec \<lparr>rs_in = p @ q, rs_end = e\<rparr> = (Inr (val a), \<lparr>rs_in = [], rs_end = e\<rparr>)"
    using dec_enc [OF assms(1), of "[]" e] assms(2) by simp
  then have "\<not> conclusive e r" using stable [of p e r st q e] Pair assms(3) by auto
  then show ?thesis using Pair respects_endD [OF ends Pair]
    by (cases r) auto
qed

end


subsection \<open>Lengths\<close>

lemma extends_readBytes [extends_rules, intro]: "extends (readBytes buf n)"
  unfolding readBytes_def by (intro extends_rules)

lemma extends_readLength [extends_rules, intro]: "extends readLength"
  unfolding readLength_def Let_def by (intro extends_rules)

lemma ends_readLength [end_rules]: "respects_end readLength"
  unfolding readLength_def readBytes_def Let_def by (intro end_rules)

interpretation len: stream_codec readLength encodeLength word_of_int "\<lambda>l. 0 \<le> l \<and> l < 2 ^ 32"
  by unfold_locales (auto simp: readLength_encodeLength ends_readLength)

section \<open>Words\<close>

text \<open>
  \<open>readWord\<close>: a length, then that many bytes, then the character decoder.  The length is an
  \<^verbatim>\<open>int64\<close> below \<open>2 ^ 32\<close>, so \<^verbatim>\<open>make([]byte, l)\<close> gets a non-negative size.
\<close>

definition readWord :: "(byte list \<Rightarrow> goerror + string) \<Rightarrow> string reads" where
  "readWord decode =
     rthen (\<lambda>e. e) readLength (\<lambda>l.
     rthen (Wrapf ''read word to buffer error: %w'' []) (read_full (unat l)) (\<lambda>b.
       case decode b of
         Inl e \<Rightarrow> rfail (Wrapf ''decode result error: %w'' [] e)
       | Inr buf \<Rightarrow> rret buf))"

definition encodeWord :: "string \<Rightarrow> byte list" where
  \<comment> \<open>what \<open>WriteWord\<close> hands to the buffered writer\<close>
  "encodeWord word = encodeLength (int (length word)) @ bytes_of word"

text \<open>
  The documented behaviour of the Windows-1250 decoder that the program relies on: ASCII text
  is kept.
\<close>

definition is_ascii :: "string \<Rightarrow> bool" where
  "is_ascii s \<longleftrightarrow> (\<forall>c \<in> set s. char_code c < 128)"

definition ascii_decoder :: "(byte list \<Rightarrow> goerror + string) \<Rightarrow> bool" where
  "ascii_decoder decode \<longleftrightarrow> (\<forall>s. is_ascii s \<longrightarrow> decode (bytes_of s) = Inr s)"

definition ascii_word :: "string \<Rightarrow> bool" where
  "ascii_word s \<longleftrightarrow> is_ascii s \<and> length s < 2 ^ 32"

lemma readWord_encodeWord:
  assumes "ascii_decoder decode" and "ascii_word s"
  shows "readWord decode \<lparr>rs_in = encodeWord s @ rest, rs_end = e\<rparr>
           = (Inr s, \<lparr>rs_in = rest, rs_end = e\<rparr>)"
proof -
  have n: "int (length s) < 2 ^ 32" using assms(2) by (simp add: ascii_word_def)
  then have u: "unat (word_of_nat (length s) :: 64 word) = length s"
    by (simp add: unat_of_nat)
  have d: "decode (bytes_of s) = Inr s" using assms by (simp add: ascii_decoder_def ascii_word_def)
  have l: "readLength \<lparr>rs_in = encodeLength (int (length s)) @ bytes_of s @ rest, rs_end = e\<rparr>
      = (Inr (word_of_nat (length s)), \<lparr>rs_in = bytes_of s @ rest, rs_end = e\<rparr>)"
    using n readLength_encodeLength [of "int (length s)" "bytes_of s @ rest" e] by simp
  have f: "read_full (length s) \<lparr>rs_in = bytes_of s @ rest, rs_end = e\<rparr>
      = (Inr (bytes_of s), \<lparr>rs_in = rest, rs_end = e\<rparr>)"
    by (simp add: read_full_append)
  have i: "encodeWord s @ rest = encodeLength (int (length s)) @ bytes_of s @ rest"
    by (simp add: encodeWord_def)
  show ?thesis
    unfolding i readWord_def
    by (simp add: rthen_def l u f d)
qed

lemma extends_readWord [extends_rules, intro]: "extends (readWord decode)"
proof -
  have "extends (case decode b of Inl e \<Rightarrow> rfail (f e) | Inr buf \<Rightarrow> rret buf)" for b f
    by (cases "decode b") (auto intro: extends_rules)
  then show ?thesis unfolding readWord_def by (intro extends_rules)
qed

lemma ends_readWord [end_rules]: "respects_end (readWord decode)"
proof -
  have "respects_end (case decode b of Inl e \<Rightarrow> rfail (f e) | Inr buf \<Rightarrow> rret buf)" for b f
    by (cases "decode b") (auto intro: end_rules)
  then show ?thesis unfolding readWord_def by (intro end_rules)
qed

lemma word_codec:
  "ascii_decoder decode \<Longrightarrow> stream_codec (readWord decode) encodeWord (\<lambda>s. s) ascii_word"
  by unfold_locales (auto simp: readWord_encodeWord ends_readWord)


text \<open>Every successful read of a word consumes at least one byte.\<close>

definition shrinks :: "'a reads \<Rightarrow> bool" where
  "shrinks d \<longleftrightarrow> (\<forall>st x st'. d st = (Inr x, st') \<longrightarrow> length (rs_in st') < length (rs_in st))"

definition weakly_shrinks :: "'a reads \<Rightarrow> bool" where
  "weakly_shrinks d \<longleftrightarrow> (\<forall>st x st'. d st = (Inr x, st') \<longrightarrow> length (rs_in st') \<le> length (rs_in st))"

lemma shrinks_read1: "shrinks read1"
  by (auto simp: shrinks_def dest!: read1_Inr)

lemma weakly_read_full: "weakly_shrinks (read_full n)"
  by (auto simp: weakly_shrinks_def dest!: read_full_length)

lemma weakly_rret: "weakly_shrinks (rret x)"
  by (simp add: weakly_shrinks_def)

lemma weakly_rfail: "weakly_shrinks (rfail e)"
  by (simp add: weakly_shrinks_def)

lemma weakly_rthen:
  "weakly_shrinks d \<Longrightarrow> (\<And>x. weakly_shrinks (f x)) \<Longrightarrow> weakly_shrinks (rthen wrap d f)"
  unfolding weakly_shrinks_def by (fastforce elim!: rthen_InrE intro: le_trans)

lemma shrinks_rthen:
  "shrinks d \<Longrightarrow> (\<And>x. weakly_shrinks (f x)) \<Longrightarrow> shrinks (rthen wrap d f)"
  unfolding shrinks_def weakly_shrinks_def by (fastforce elim!: rthen_InrE intro: le_less_trans)

lemma weakly_if: "weakly_shrinks d \<Longrightarrow> weakly_shrinks d' \<Longrightarrow> weakly_shrinks (if b then d else d')"
  by simp

lemmas shrink_rules = shrinks_read1 weakly_read_full weakly_rret weakly_rfail weakly_rthen
  shrinks_rthen weakly_if

lemma shrinks_readLength: "shrinks readLength"
  unfolding readLength_def readBytes_def Let_def by (intro shrink_rules)

lemma shrinks_readWord: "shrinks (readWord decode)"
proof -
  have "weakly_shrinks (case decode b of Inl e \<Rightarrow> rfail (f e) | Inr buf \<Rightarrow> rret buf)" for b f
    by (cases "decode b") (auto intro: shrink_rules)
  then show ?thesis unfolding readWord_def by (intro shrink_rules shrinks_readLength)
qed

lemma readWord_shorter:
  "readWord decode st = (Inr buf, st') \<Longrightarrow> length (rs_in st') < length (rs_in st)"
  using shrinks_readWord by (auto simp: shrinks_def)


section \<open>Sentences\<close>

definition NewSentence :: sentence where
  "NewSentence = \<lparr>sen_map = [], sen_word = '''', sen_tag = ''''\<rparr>"

definition add_word :: "sentence \<Rightarrow> string \<Rightarrow> goerror + sentence" where
  \<comment> \<open>the body of the loop of \<open>ReadSentence\<close> for a word that is not empty\<close>
  "add_word sen buf =
     (if sen_word sen = '''' then Inr (sen\<lparr>sen_word := buf\<rparr>)
      else if has_prefix buf ''.tag='' then Inr (sen\<lparr>sen_tag := drop 5 buf\<rparr>)
      else if hd buf = CHR ''='' then
        (case cut (tl buf) ''='' of
           None \<Rightarrow> Inr (sen\<lparr>sen_map := mput (tl buf) '''' (sen_map sen)\<rparr>)
         | Some (k, v) \<Rightarrow> Inr (sen\<lparr>sen_map := mput k v (sen_map sen)\<rparr>))
      else Inl (InvalidSentenceWordError buf))"

function read_words :: "(byte list \<Rightarrow> goerror + string) \<Rightarrow> sentence \<Rightarrow> rstream
    \<Rightarrow> (halt + sentence) \<times> rstream" where
  "read_words decode sen st =
     (case readWord decode st of
        (Inl h, st') \<Rightarrow> (Inl h, st')
      | (Inr buf, st') \<Rightarrow>
          if buf = '''' then (Inr sen, st')
          else (case add_word sen buf of
                  Inl e \<Rightarrow> (Inl (Failed e), st')
                | Inr sen' \<Rightarrow> read_words decode sen' st'))"
  by pat_completeness auto
termination
  by (relation "measure (\<lambda>(decode, sen, st). length (rs_in st))") (auto dest!: sym [THEN readWord_shorter])

declare read_words.simps [simp del]

definition ReadSentence :: "(byte list \<Rightarrow> goerror + string) \<Rightarrow> sentence reads" where
  "ReadSentence decode = read_words decode NewSentence"

text \<open>What a list of words means, without the stream.\<close>

fun sentence_of :: "sentence \<Rightarrow> string list \<Rightarrow> goerror + sentence" where
  "sentence_of sen [] = Inr sen"
| "sentence_of sen (w # ws) =
     (case add_word sen w of Inl e \<Rightarrow> Inl e | Inr sen' \<Rightarrow> sentence_of sen' ws)"

definition encodeSentence :: "string list \<Rightarrow> byte list" where
  "encodeSentence ws = concat (map encodeWord ws) @ encodeWord ''''"

definition sentence_words :: "string list \<Rightarrow> bool" where
  \<comment> \<open>what a client or a device may send as one sentence: no word is the end marker\<close>
  "sentence_words ws \<longleftrightarrow> (\<forall>w \<in> set ws. ascii_word w \<and> w \<noteq> '''')"

lemma ascii_word_Nil [simp]: "ascii_word ''''"
  by (simp add: ascii_word_def is_ascii_def)

lemma sentence_words_simps [simp]:
  "sentence_words []"
  "sentence_words (w # ws) \<longleftrightarrow> ascii_word w \<and> w \<noteq> '''' \<and> sentence_words ws"
  by (auto simp: sentence_words_def)

lemma read_words_encoded:
  assumes "ascii_decoder decode" and "sentence_words ws" and "sentence_of sen ws = Inr sen'"
  shows "read_words decode sen \<lparr>rs_in = encodeSentence ws @ rest, rs_end = e\<rparr>
           = (Inr sen', \<lparr>rs_in = rest, rs_end = e\<rparr>)"
  using assms(2,3)
proof (induction ws arbitrary: sen)
  case Nil
  then show ?case using readWord_encodeWord [OF assms(1), of "''''" rest e]
    by (subst read_words.simps) (simp add: encodeSentence_def)
next
  case (Cons w ws)
  then obtain sen1 where a: "add_word sen w = Inr sen1" and s: "sentence_of sen1 ws = Inr sen'"
    by (auto split: sum.splits)
  have "readWord decode \<lparr>rs_in = encodeSentence (w # ws) @ rest, rs_end = e\<rparr>
      = (Inr w, \<lparr>rs_in = encodeSentence ws @ rest, rs_end = e\<rparr>)"
    using readWord_encodeWord [OF assms(1), of w "encodeSentence ws @ rest" e] Cons.prems
    by (simp add: encodeSentence_def)
  with a Cons s show ?case by (subst read_words.simps) simp
qed

lemma extends_read_words: "extends (read_words decode sen)"
proof (rule extendsI)
  fix i e w st x e'
  assume "read_words decode sen \<lparr>rs_in = i, rs_end = e\<rparr> = (w, st)" and "conclusive e w"
  then show "read_words decode sen \<lparr>rs_in = i @ x, rs_end = e'\<rparr> = (w, \<lparr>rs_in = rs_in st @ x, rs_end = e'\<rparr>)"
  proof (induction decode sen "\<lparr>rs_in = i, rs_end = e\<rparr>" arbitrary: i rule: read_words.induct)
    case (1 decode sen)
    obtain q st1 where r: "readWord decode \<lparr>rs_in = i, rs_end = e\<rparr> = (q, st1)" by fastforce
    have c: "conclusive e q"
      using "1.prems" r by (cases q) (auto simp: read_words.simps [of decode sen "\<lparr>rs_in = i, rs_end = e\<rparr>"])
    have r': "readWord decode \<lparr>rs_in = i @ x, rs_end = e'\<rparr> = (q, \<lparr>rs_in = rs_in st1 @ x, rs_end = e'\<rparr>)"
      using extendsD [OF extends_readWord r] c by simp
    obtain i1 where st1: "st1 = \<lparr>rs_in = i1, rs_end = e\<rparr>"
      using extends_end [OF extends_readWord r] c by (cases st1) auto
    show ?case
    proof (cases "\<exists>buf sen1. q = Inr buf \<and> buf \<noteq> '''' \<and> add_word sen buf = Inr sen1")
      case False
      with "1.prems" r r' show ?thesis
        by (subst (asm) read_words.simps, subst read_words.simps) (auto split: sum.splits if_splits)
    next
      case True
      then obtain buf sen1 where q: "q = Inr buf" "buf \<noteq> ''''" and a: "add_word sen buf = Inr sen1" by blast
      with "1.prems" r have k: "read_words decode sen1 st1 = (w, st)"
        by (subst (asm) read_words.simps) simp
      from "1.hyps" [OF r [unfolded st1, symmetric] q(1) q(2) a k [unfolded st1]] "1.prems"(2) a r' st1 q
      show ?thesis by (subst read_words.simps) simp
    qed
  qed
qed

lemma ends_read_words: "respects_end (read_words decode sen)"
proof -
  have "rs_end st' = rs_end st \<and> (r = Inl Silent \<longrightarrow> rs_end st = Silent)" if "read_words decode sen st = (r, st')" for r st st'
    using that
  proof (induction decode sen st rule: read_words.induct)
    case (1 decode sen st)
    obtain q st1 where r: "readWord decode st = (q, st1)" by fastforce
    note i = respects_endD [OF ends_readWord r]
    show ?case
    proof (cases "\<exists>buf sen1. q = Inr buf \<and> buf \<noteq> '''' \<and> add_word sen buf = Inr sen1")
      case False
      with "1.prems" r i show ?thesis by (subst (asm) read_words.simps) (auto split: sum.splits if_splits)
    next
      case True
      then obtain buf sen1 where q: "q = Inr buf" "buf \<noteq> ''''" and a: "add_word sen buf = Inr sen1" by blast
      with "1.prems" r have "read_words decode sen1 st1 = (r, st')" by (subst (asm) read_words.simps) simp
      with "1.IH" [OF r [symmetric] q(1) q(2) a] i show ?thesis by simp
    qed
  qed
  then show ?thesis unfolding respects_end_def by (metis prod.collapse)
qed

lemma ends_ReadSentence [end_rules]: "respects_end (ReadSentence decode)"
  unfolding ReadSentence_def by (rule ends_read_words)

lemma extends_ReadSentence [extends_rules, intro]: "extends (ReadSentence decode)"
  unfolding ReadSentence_def by (rule extends_read_words)

text \<open>The sentences that parse, as a codec on top of the words.\<close>

definition good_sentence :: "string list \<Rightarrow> bool" where
  "good_sentence ws \<longleftrightarrow> sentence_words ws \<and> (\<exists>sen. sentence_of NewSentence ws = Inr sen)"

definition sentence_val :: "string list \<Rightarrow> sentence" where
  "sentence_val ws = (case sentence_of NewSentence ws of Inr sen \<Rightarrow> sen | Inl _ \<Rightarrow> NewSentence)"

lemma ReadSentence_encoded:
  assumes "ascii_decoder decode" and "good_sentence ws"
  shows "ReadSentence decode \<lparr>rs_in = encodeSentence ws @ rest, rs_end = e\<rparr>
           = (Inr (sentence_val ws), \<lparr>rs_in = rest, rs_end = e\<rparr>)"
  using assms read_words_encoded [OF assms(1), of ws NewSentence]
  by (auto simp: good_sentence_def sentence_val_def ReadSentence_def)

lemma sentence_codec:
  "ascii_decoder decode \<Longrightarrow>
     stream_codec (ReadSentence decode) encodeSentence sentence_val good_sentence"
  by unfold_locales (auto simp: ReadSentence_encoded ends_ReadSentence)

lemma ReadSentence_shorter:
  "ReadSentence decode st = (Inr sen, st') \<Longrightarrow> length (rs_in st') < length (rs_in st)"
proof -
  have "read_words decode s0 st = (Inr sen, st') \<Longrightarrow> length (rs_in st') < length (rs_in st)" for s0
  proof (induction decode s0 st rule: read_words.induct)
    case (1 decode s0 st)
    from "1.prems" obtain buf st1 where r: "readWord decode st = (Inr buf, st1)"
      by (subst (asm) read_words.simps) (auto split: prod.splits sum.splits)
    note lt = readWord_shorter [OF r]
    show ?case
    proof (cases "buf = ''''")
      case True
      with "1.prems" r lt show ?thesis by (subst (asm) read_words.simps) auto
    next
      case False
      with "1.prems" r obtain sen1 where a: "add_word s0 buf = Inr sen1"
        and k: "read_words decode sen1 st1 = (Inr sen, st')"
        by (subst (asm) read_words.simps) (auto split: sum.splits)
      from "1.IH" [OF r [symmetric] refl False a k] lt show ?thesis by simp
    qed
  qed
  then show "ReadSentence decode st = (Inr sen, st') \<Longrightarrow> ?thesis" by (simp add: ReadSentence_def)
qed


section \<open>The writer\<close>

text \<open>
  The writer has a buffered writer, a lock and the first error.  A write that does not return is in
  \<open>wr_err\<close> as \<open>Silent\<close>: all later writes are skipped, like after an error, and \<open>EndSentence\<close> is where
  the caller is found to be blocked.
\<close>

record writer =
  wr_bufw :: bufw
  wr_locked :: bool
  wr_err :: "halt option"

type_synonym wlink = "writer \<times> conn"

definition NewWriter :: writer where
  "NewWriter = \<lparr>wr_bufw = \<lparr>bw_buf = [], bw_err = None\<rparr>, wr_locked = False, wr_err = None\<rparr>"

definition BeginSentence :: "(wlink, unit) gom" where
  \<comment> \<open>\<^verbatim>\<open>w.Lock()\<close>: a caller that finds the lock taken waits\<close>
  "BeginSentence = (\<lambda>(w, c). if wr_locked w then (Blocked, (w, c))
                             else (Return (), (w\<lparr>wr_locked := True\<rparr>, c)))"

definition unlock :: "(wlink, unit) gom" where
  "unlock = (\<lambda>(w, c). if wr_locked w then (Return (), (w\<lparr>wr_locked := False\<rparr>, c))
                      else (Panicked (PanicMsg ''sync: unlock of unlocked mutex''), (w, c)))"

definition write_bytes :: "byte list \<Rightarrow> wlink \<Rightarrow> wlink" where
  "write_bytes b = (\<lambda>(w, c).
     if wr_err w \<noteq> None then (w, c)
     else (case bufw_write b (wr_bufw w) c of
             (err, bw, c') \<Rightarrow> (w\<lparr>wr_bufw := bw, wr_err := err\<rparr>, c')))"

definition flush_writer :: "wlink \<Rightarrow> wlink" where
  "flush_writer = (\<lambda>(w, c).
     if wr_err w \<noteq> None then (w, c)
     else (case bufw_flush (wr_bufw w) c of
             (err, bw, c') \<Rightarrow> (w\<lparr>wr_bufw := bw, wr_err := err\<rparr>, c')))"

definition WriteWord :: "string \<Rightarrow> wlink \<Rightarrow> wlink" where
  "WriteWord word l =
     (let b = bytes_of word
      in write_bytes b (write_bytes (encodeLength (int (length b))) l))"

definition EndSentence :: "(wlink, goerror option) gom" where
  "EndSentence =
     gbind (gupdate (\<lambda>l. flush_writer (WriteWord '''' l))) (\<lambda>_.
     (\<lambda>l. case wr_err (fst l) of
            Some Silent \<Rightarrow> (Blocked, l)
          | Some (Failed e) \<Rightarrow> gbind unlock (\<lambda>_. gret (Some e)) l
          | None \<Rightarrow> gbind unlock (\<lambda>_. gret None) l))"

definition write_words :: "string list \<Rightarrow> wlink \<Rightarrow> wlink" where
  "write_words ws l = fold WriteWord ws l"

text \<open>
  What the writer holds or has sent (\<open>written\<close>) grows by exactly the bytes written while there is
  no error; an error stays, and nothing is read and the lock is not touched on the way.
\<close>

definition written :: "wlink \<Rightarrow> byte list" where
  "written l = cn_tx (snd l) @ bw_buf (wr_bufw (fst l))"

definition stuck_writer :: "writer \<Rightarrow> bool" where
  \<comment> \<open>some write has not returned\<close>
  "stuck_writer w \<longleftrightarrow> wr_err w = Some Silent \<or> bw_err (wr_bufw w) = Some Silent"

definition tells_stuck :: "writer \<Rightarrow> bool" where
  "tells_stuck w \<longleftrightarrow> (bw_err (wr_bufw w) = Some Silent \<longrightarrow> wr_err w = Some Silent)"

definition same_input :: "wlink \<Rightarrow> wlink \<Rightarrow> bool" where
  \<comment> \<open>the same peer with the same bytes to come; a write gets stuck only on a silent peer, and \<open>wr_err\<close>
     tells when it does\<close>
  "same_input l l' \<longleftrightarrow> same_peer (snd l) (snd l') \<and> wr_locked (fst l') = wr_locked (fst l)
     \<and> (tells_stuck (fst l) \<longrightarrow> tells_stuck (fst l')
          \<and> (wr_err (fst l') = Some Silent \<longrightarrow> wr_err (fst l) = Some Silent \<or> silent (snd l)))"

lemma same_input_refl [simp]: "same_input l l"
  by (simp add: same_input_def)

lemma same_input_trans: "same_input a b \<Longrightarrow> same_input b c \<Longrightarrow> same_input a c"
proof -
  assume a: "same_input a b" and b: "same_input b c"
  from a b have "same_peer (snd a) (snd c)" unfolding same_input_def by (blast intro: same_peer_trans)
  moreover have "silent (snd b) = silent (snd a)" using a by (simp add: same_input_def same_peer_silent)
  ultimately show "same_input a c" using a b unfolding same_input_def by auto
qed

lemma write_bytes_ok:
  assumes "wr_err (fst (write_bytes b l)) = None"
  shows "wr_err (fst l) = None \<and> written (write_bytes b l) = written l @ b"
proof -
  obtain w c where l: "l = (w, c)" by (cases l)
  obtain err bw c' where r: "bufw_write b (wr_bufw w) c = (err, bw, c')" by (metis prod_cases3)
  show ?thesis
  proof (cases "wr_err w")
    case None
    with assms l r have "err = None" by (simp add: write_bytes_def)
    with bufw_write_ok [of b "wr_bufw w" c bw c'] r None l show ?thesis
      by (simp add: write_bytes_def written_def)
  qed (use assms l in \<open>simp add: write_bytes_def\<close>)
qed

lemma write_bytes_same [simp]: "same_input l (write_bytes b l)"
proof -
  obtain w c where l: "l = (w, c)" by (cases l)
  obtain err bw c' where r: "bufw_write b (wr_bufw w) c = (err, bw, c')" by (metis prod_cases3)
  from bufw_write_any [OF r] r l show ?thesis by (auto simp: same_input_def write_bytes_def tells_stuck_def)
qed

lemma flush_writer_ok:
  assumes "wr_err (fst (flush_writer l)) = None"
  shows "wr_err (fst l) = None \<and> written (flush_writer l) = written l
         \<and> bw_buf (wr_bufw (fst (flush_writer l))) = []"
proof -
  obtain w c where l: "l = (w, c)" by (cases l)
  obtain err bw c' where r: "bufw_flush (wr_bufw w) c = (err, bw, c')" by (metis prod_cases3)
  show ?thesis
  proof (cases "wr_err w")
    case None
    with assms l r have "err = None" by (simp add: flush_writer_def)
    with bufw_flush_ok [of "wr_bufw w" c bw c'] r None l show ?thesis
      by (simp add: flush_writer_def written_def)
  qed (use assms l in \<open>simp add: flush_writer_def\<close>)
qed

lemma flush_writer_same [simp]: "same_input l (flush_writer l)"
proof -
  obtain w c where l: "l = (w, c)" by (cases l)
  obtain err bw c' where r: "bufw_flush (wr_bufw w) c = (err, bw, c')" by (metis prod_cases3)
  from bufw_flush_any [OF r] bufw_flush_Silent [OF r] r l show ?thesis
    by (auto simp: same_input_def flush_writer_def tells_stuck_def)
qed

lemma WriteWord_ok:
  assumes "wr_err (fst (WriteWord s l)) = None"
  shows "wr_err (fst l) = None \<and> written (WriteWord s l) = written l @ encodeWord s"
  using write_bytes_ok [of "encodeLength (int (length s))" l] assms
    write_bytes_ok [of "bytes_of s" "write_bytes (encodeLength (int (length s))) l"]
  by (simp add: WriteWord_def encodeWord_def Let_def)

lemma WriteWord_same [simp]: "same_input l (WriteWord s l)"
  unfolding WriteWord_def Let_def by (blast intro: same_input_trans write_bytes_same)

lemma write_words_ok:
  "wr_err (fst (write_words ws l)) = None \<Longrightarrow>
     wr_err (fst l) = None \<and> written (write_words ws l) = written l @ concat (map encodeWord ws)"
proof (induction ws arbitrary: l)
  case (Cons w ws)
  then have "wr_err (fst (WriteWord w l)) = None
      \<and> written (write_words (w # ws) l) = written (WriteWord w l) @ concat (map encodeWord ws)"
    by (simp add: write_words_def)
  with WriteWord_ok [of w l] show ?case by simp
qed (simp add: write_words_def)

lemma write_words_same [simp]: "same_input l (write_words ws l)"
proof (induction ws arbitrary: l)
  case (Cons w ws)
  have "same_input (WriteWord w l) (write_words (w # ws) l)"
    using Cons.IH [of "WriteWord w l"] by (simp add: write_words_def)
  then show ?case by (rule same_input_trans [OF WriteWord_same])
qed (simp add: write_words_def)

lemma EndSentence_run:
  assumes "wr_locked (fst l)"
  shows "EndSentence l = (let l' = flush_writer (WriteWord '''' l); l'' = ((fst l')\<lparr>wr_locked := False\<rparr>, snd l')
     in case wr_err (fst l') of
          None \<Rightarrow> (Return None, l'') | Some (Failed e) \<Rightarrow> (Return (Some e), l'') | Some Silent \<Rightarrow> (Blocked, l'))"
proof -
  let ?l = "flush_writer (WriteWord '''' l)"
  have "same_input l ?l" by (blast intro: same_input_trans WriteWord_same flush_writer_same)
  with assms have "wr_locked (fst ?l)" by (simp add: same_input_def)
  then have "unlock ?l = (Return (), ((fst ?l)\<lparr>wr_locked := False\<rparr>, snd ?l))"
    by (cases ?l) (simp add: unlock_def)
  then show ?thesis
    by (simp add: EndSentence_def gbind_def Let_def split: option.split halt.split)
qed


section \<open>Properties\<close>

lemma byte_at_mod32: "k \<le> 24 \<Longrightarrow> byte_at k (l mod 2 ^ 32) = byte_at k l"
  unfolding byte_at_def take_bit_eq_mod [symmetric]
  by (rule bit_word_eqI) (auto simp: bit_simps)

text \<open>
  Property C24: every length the writer can be asked for comes back from the reader, reduced
  modulo \<open>2 ^ 32\<close>: exactly below \<open>2 ^ 32\<close>, and with the upper bits lost above.
\<close>

theorem length_roundtrip:
  assumes "0 \<le> l"
  shows "readLength \<lparr>rs_in = encodeLength l @ rest, rs_end = e\<rparr> =
           (Inr (word_of_int (l mod 2 ^ 32)), \<lparr>rs_in = rest, rs_end = e\<rparr>)"
proof (cases "l < 2 ^ 32")
  case True
  with assms show ?thesis by (simp add: len.dec_enc)
next
  case False
  let ?m = "l mod 2 ^ 32"
  have b: "byte_at k l = byte_at k ?m" if "k \<le> 24" for k using byte_at_mod32 [OF that] by simp
  have "0 \<le> ?m" and "?m < 2 ^ 64" using pos_mod_bound [of "2 ^ 32" l] by simp_all
  then have big: "?m mod 2 ^ 64 = ?m" by (rule mod_pos_pos_trivial)
  have enc: "encodeLength l = [0xF0, byte_at 24 ?m, byte_at 16 ?m, byte_at 8 ?m, byte_at 0 ?m]"
    using False by (simp add: encodeLength_bytes b)
  have "accumulate [byte_at 24 ?m, byte_at 16 ?m, byte_at 8 ?m, byte_at 0 ?m] = word_of_int ?m"
    using byte_at_sum [of ?m] accumulate_4 [of "byte_at 24 ?m" "byte_at 16 ?m" "byte_at 8 ?m" "byte_at 0 ?m"]
    using big
    by (simp add: word_uint_eq_iff uint_word_of_int)
  then show ?thesis
    using readBytes_append [of "[byte_at 24 ?m, byte_at 16 ?m, byte_at 8 ?m, byte_at 0 ?m]" 4 "[]"]
    unfolding enc by (simp add: readLength_def rthen_def read1_def)
qed

theorem length_roundtrip_witness:
  "readLength \<lparr>rs_in = encodeLength 4294967301 @ [7], rs_end = Failed EOF\<rparr>
     = (Inr 5, \<lparr>rs_in = [7], rs_end = Failed EOF\<rparr>)"
  using length_roundtrip [of 4294967301 "[7]" "Failed EOF"] by simp

text \<open>
  The attribute words \<^verbatim>\<open>=key=value\<close> of a sentence.
\<close>

definition attr_word :: "string \<times> string \<Rightarrow> string" where
  "attr_word kv = CHR ''='' # fst kv @ CHR ''='' # snd kv"

lemma add_word_attr:
  "sen_word sen \<noteq> '''' \<Longrightarrow> CHR ''='' \<notin> set k \<Longrightarrow>
     add_word sen (attr_word (k, v)) = Inr (sen\<lparr>sen_map := mput k v (sen_map sen)\<rparr>)"
  by (simp add: add_word_def attr_word_def has_prefix_def cut_char_append)

lemma sentence_of_attrs:
  assumes "sen_word sen \<noteq> ''''" and "\<forall>(k, v) \<in> set kvs. CHR ''='' \<notin> set k"
  shows "\<exists>m. sentence_of sen (map attr_word kvs) = Inr (sen\<lparr>sen_map := m\<rparr>)
     \<and> (\<forall>k. mget m k = (case map_of (rev kvs) k of None \<Rightarrow> mget (sen_map sen) k | Some v \<Rightarrow> Some v))"
  using assms
proof (induction kvs arbitrary: sen)
  case Nil
  then show ?case by (intro exI [of _ "sen_map sen"]) simp
next
  case (Cons kv kvs)
  obtain k v where kv: "kv = (k, v)" by (cases kv)
  let ?sen = "sen\<lparr>sen_map := mput k v (sen_map sen)\<rparr>"
  have "add_word sen (attr_word (k, v)) = Inr ?sen"
    using Cons.prems kv by (intro add_word_attr) auto
  moreover obtain m where "sentence_of ?sen (map attr_word kvs) = Inr (?sen\<lparr>sen_map := m\<rparr>)"
    and "\<forall>k'. mget m k' = (case map_of (rev kvs) k' of None \<Rightarrow> mget (sen_map ?sen) k' | Some v \<Rightarrow> Some v)"
    using Cons.IH [of ?sen] Cons.prems by auto
  ultimately show ?case using kv
    by (intro exI [of _ m]) (auto simp: map_add_def split: option.splits)
qed

text \<open>
  Property C34: a sentence of a command word and attribute words, read from the wire, holds the
  command word and maps every key to the value sent last for it.  The value may itself contain
  \<^verbatim>\<open>=\<close>.
\<close>

theorem sentence_attributes:
  assumes "ascii_decoder decode" and "sentence_words (w # map attr_word kvs)"
    and "\<forall>(k, v) \<in> set kvs. CHR ''='' \<notin> set k"
  shows "\<exists>sen. ReadSentence decode
           \<lparr>rs_in = encodeSentence (w # map attr_word kvs) @ rest, rs_end = e\<rparr>
             = (Inr sen, \<lparr>rs_in = rest, rs_end = e\<rparr>)
         \<and> sen_word sen = w \<and> sen_tag sen = '''' \<and> (\<forall>k. mget (sen_map sen) k = map_of (rev kvs) k)"
proof -
  let ?sen = "NewSentence\<lparr>sen_word := w\<rparr>"
  have w: "w \<noteq> ''''" using assms(2) by simp
  obtain m where "sentence_of ?sen (map attr_word kvs) = Inr (?sen\<lparr>sen_map := m\<rparr>)"
    and m: "\<forall>k. mget m k = (case map_of (rev kvs) k of None \<Rightarrow> mget (sen_map ?sen) k | Some v \<Rightarrow> Some v)"
    using sentence_of_attrs [of ?sen kvs] w assms(3) by auto
  then have "sentence_of NewSentence (w # map attr_word kvs) = Inr (?sen\<lparr>sen_map := m\<rparr>)"
    by (simp add: add_word_def NewSentence_def)
  from read_words_encoded [OF assms(1,2) this, of rest e] m show ?thesis
    by (auto simp: ReadSentence_def NewSentence_def split: option.splits)
qed

text \<open>
  An instance of the decoder for the witnesses: it accepts ASCII and nothing else.
\<close>

definition ascii_only :: "byte list \<Rightarrow> goerror + string" where
  "ascii_only bs = (if is_ascii (string_of bs) then Inr (string_of bs) else Inl (ErrConn ''charset''))"

lemma ascii_only [simp]: "ascii_decoder ascii_only"
  by (simp add: ascii_decoder_def ascii_only_def)

interpretation word: stream_codec "readWord ascii_only" encodeWord "\<lambda>s. s" ascii_word
  by (rule word_codec) simp

interpretation sent: stream_codec "ReadSentence ascii_only" encodeSentence sentence_val good_sentence
  by (rule sentence_codec) simp

theorem sentence_attributes_witness:
  "\<exists>sen. ReadSentence ascii_only
       \<lparr>rs_in = encodeSentence [''!re'', ''=name=ether1'', ''=rx=5'', ''=name=a=b''], rs_end = Silent\<rparr>
         = (Inr sen, \<lparr>rs_in = [], rs_end = Silent\<rparr>)
     \<and> sen_word sen = ''!re'' \<and> mget (sen_map sen) ''name'' = Some ''a=b''"
  using sentence_attributes [of ascii_only "''!re''"
      "[(''name'', ''ether1''), (''rx'', ''5''), (''name'', ''a=b'')]" "[]" Silent]
  by (auto simp: attr_word_def ascii_word_def is_ascii_def char_code_def)

text \<open>
  The framing of sentences is uniquely decodable.  Two well-formed sentences that
  are prefixes of the same bytes have the same meaning and end at the same byte.
\<close>

lemma sentence_unique:
  assumes "good_sentence a" and "good_sentence b"
    and "encodeSentence a @ r = encodeSentence b @ r'"
  shows "sentence_val a = sentence_val b \<and> r = r'"
  by (rule sent.unique [OF assms])

text \<open>
  Property C13: what the writer puts on the connection is what the reader reads.  When
  \<open>EndSentence\<close> reports no error, the bytes sent for the words decode to the sentence of these
  words, nothing stays in the buffer and the lock is free.
\<close>

theorem writer_reader_roundtrip:
  assumes "wr_locked w" and "bw_buf (wr_bufw w) = []"
    and "EndSentence (write_words ws (w, c)) = (Return None, (w', c'))"
    and "ascii_decoder decode" and "good_sentence ws"
  shows "\<exists>bs. cn_tx c' = cn_tx c @ bs \<and> bw_buf (wr_bufw w') = [] \<and> \<not> wr_locked w'
     \<and> ReadSentence decode \<lparr>rs_in = bs @ rest, rs_end = e\<rparr>
         = (Inr (sentence_val ws), \<lparr>rs_in = rest, rs_end = e\<rparr>)"
proof -
  let ?l1 = "write_words ws (w, c)" let ?l3 = "flush_writer (WriteWord '''' ?l1)"
  have lk: "wr_locked (fst ?l1)"
    using write_words_same [of "(w, c)" ws] assms(1) by (simp add: same_input_def)
  from assms(3) EndSentence_run [OF lk] have e3: "wr_err (fst ?l3) = None"
    and w': "w' = (fst ?l3)\<lparr>wr_locked := False\<rparr>" and c': "c' = snd ?l3"
    by (auto simp: Let_def split: option.splits halt.splits)
  note f = flush_writer_ok [OF e3]
  have e2: "wr_err (fst (WriteWord '''' ?l1)) = None" using f by blast
  note g = WriteWord_ok [OF e2]
  have e1: "wr_err (fst ?l1) = None" using g by blast
  note h = write_words_ok [OF e1]
  have "written ?l3 = written (w, c) @ encodeSentence ws" using f g h by (simp add: encodeSentence_def)
  then have "cn_tx c' = cn_tx c @ encodeSentence ws" using f c' assms(2) by (simp add: written_def)
  with f w' ReadSentence_encoded [OF assms(4,5), of rest e] show ?thesis by auto
qed


text \<open>A connection on which the device has already put its answers.\<close>

definition test_conn :: "byte list \<Rightarrow> conn" where
  "test_conn rx = \<lparr>cn_rx = \<lparr>rs_in = rx, rs_end = Failed EOF\<rparr>, cn_tx = [], cn_room = None,
     cn_full = Failed (ErrConn ''write''), cn_closed = False\<rparr>"

lemma test_write:
  "EndSentence (write_words [''!done''] (NewWriter\<lparr>wr_locked := True\<rparr>, test_conn [])) =
     (Return None, (NewWriter, (test_conn [])\<lparr>cn_tx := [5, 33, 100, 111, 110, 101, 0]\<rparr>))"
  by code_simp

theorem writer_reader_roundtrip_witness:
  "\<exists>bs. [5, 33, 100, 111, 110, 101, 0] = bs
     \<and> ReadSentence ascii_only \<lparr>rs_in = bs @ [1], rs_end = Failed EOF\<rparr>
         = (Inr (sentence_val [''!done'']), \<lparr>rs_in = [1], rs_end = Failed EOF\<rparr>)"
  using writer_reader_roundtrip [OF _ _ test_write, of ascii_only "[1]" "Failed EOF"]
  by (simp add: test_conn_def NewWriter_def good_sentence_def ascii_word_def is_ascii_def
      char_code_def add_word_def NewSentence_def)

end
