(* ===== verification/Md5.thy ===== *)
theory Md5
  imports Conn
begin

text \<open>
  Package \<^verbatim>\<open>crypto/md5\<close> as the login challenge uses it: the digest of a byte string (RFC 1321),
  on 32-bit words.
\<close>

type_synonym u32 = "32 word"

definition md5_table :: "u32 list" where
  "md5_table =
    [
      0xD76AA478, 0xE8C7B756, 0x242070DB, 0xC1BDCEEE, 0xF57C0FAF, 0x4787C62A,
      0xA8304613, 0xFD469501, 0x698098D8, 0x8B44F7AF, 0xFFFF5BB1, 0x895CD7BE,
      0x6B901122, 0xFD987193, 0xA679438E, 0x49B40821, 0xF61E2562, 0xC040B340,
      0x265E5A51, 0xE9B6C7AA, 0xD62F105D, 0x02441453, 0xD8A1E681, 0xE7D3FBC8,
      0x21E1CDE6, 0xC33707D6, 0xF4D50D87, 0x455A14ED, 0xA9E3E905, 0xFCEFA3F8,
      0x676F02D9, 0x8D2A4C8A, 0xFFFA3942, 0x8771F681, 0x6D9D6122, 0xFDE5380C,
      0xA4BEEA44, 0x4BDECFA9, 0xF6BB4B60, 0xBEBFBC70, 0x289B7EC6, 0xEAA127FA,
      0xD4EF3085, 0x04881D05, 0xD9D4D039, 0xE6DB99E5, 0x1FA27CF8, 0xC4AC5665,
      0xF4292244, 0x432AFF97, 0xAB9423A7, 0xFC93A039, 0x655B59C3, 0x8F0CCC92,
      0xFFEFF47D, 0x85845DD1, 0x6FA87E4F, 0xFE2CE6E0, 0xA3014314, 0x4E0811A1,
      0xF7537E82, 0xBD3AF235, 0x2AD7D2BB, 0xEB86D391]"

definition md5_shifts :: "nat list" where
  "md5_shifts =
     concat (replicate 4 [7, 12, 17, 22]) @ concat (replicate 4 [5, 9, 14, 20])
     @ concat (replicate 4 [4, 11, 16, 23]) @ concat (replicate 4 [6, 10, 15, 21])"

definition md5_index :: "nat list" where
  \<comment> \<open>which word of the block each step adds\<close>
  "md5_index =
     [0, 1, 2, 3, 4, 5, 6, 7, 8, 9, 10, 11, 12, 13, 14, 15,
      1, 6, 11, 0, 5, 10, 15, 4, 9, 14, 3, 8, 13, 2, 7, 12,
      5, 8, 11, 14, 1, 4, 7, 10, 13, 0, 3, 6, 9, 12, 15, 2,
      0, 7, 14, 5, 12, 3, 10, 1, 8, 15, 6, 13, 4, 11, 2, 9]"

definition rotl32 :: "nat \<Rightarrow> u32 \<Rightarrow> u32" where
  "rotl32 n w = push_bit n w OR drop_bit (32 - n) w"

datatype md5_round = RoundF | RoundG | RoundH | RoundI

fun md5_mix :: "md5_round \<Rightarrow> u32 \<Rightarrow> u32 \<Rightarrow> u32 \<Rightarrow> u32" where
  "md5_mix RoundF b c d = (b AND c) OR (NOT b AND d)"
| "md5_mix RoundG b c d = (d AND b) OR (NOT d AND c)"
| "md5_mix RoundH b c d = b XOR c XOR d"
| "md5_mix RoundI b c d = c XOR (b OR NOT d)"

definition md5_rounds :: "md5_round list" where
  "md5_rounds = replicate 16 RoundF @ replicate 16 RoundG @ replicate 16 RoundH @ replicate 16 RoundI"

definition md5_steps :: "(md5_round \<times> u32 \<times> nat \<times> nat) list" where
  "md5_steps = zip md5_rounds (zip md5_table (zip md5_shifts md5_index))"

type_synonym md5_state = "u32 \<times> u32 \<times> u32 \<times> u32"

fun md5_step :: "u32 list \<Rightarrow> md5_state \<Rightarrow> md5_round \<times> u32 \<times> nat \<times> nat \<Rightarrow> md5_state" where
  "md5_step m (a, b, c, d) (r, k, s, g) =
     (let f = md5_mix r b c d + a + k + m ! g in (d, b + rotl32 s f, b, c))"

definition md5_block :: "md5_state \<Rightarrow> u32 list \<Rightarrow> md5_state" where
  "md5_block st m =
     (case st of (a0, b0, c0, d0) \<Rightarrow>
       case foldl (md5_step m) st md5_steps of (a, b, c, d) \<Rightarrow> (a0 + a, b0 + b, c0 + c, d0 + d))"

definition le_bytes :: "nat \<Rightarrow> int \<Rightarrow> byte list" where
  "le_bytes n x = map (\<lambda>i. word_of_int (drop_bit (8 * i) x)) [0..<n]"

definition md5_pad :: "byte list \<Rightarrow> byte list" where
  "md5_pad msg =
     msg @ 0x80 # replicate ((55 + 64 - length msg mod 64) mod 64) 0
     @ le_bytes 8 (8 * int (length msg))"

fun word_le :: "byte list \<Rightarrow> u32" where
  "word_le [] = 0"
| "word_le (b # bs) = ucast b OR push_bit 8 (word_le bs)"

function chunks :: "nat \<Rightarrow> 'a list \<Rightarrow> 'a list list" where
  "chunks n xs = (if n = 0 \<or> xs = [] then [] else take n xs # chunks n (drop n xs))"
  by pat_completeness auto
termination
  by (relation "measure (\<lambda>(n, xs). length xs)") auto

declare chunks.simps [simp del]

definition md5 :: "byte list \<Rightarrow> byte list" where
  "md5 msg =
     (case foldl (\<lambda>st blk. md5_block st (map word_le (chunks 4 blk)))
             (0x67452301, 0xEFCDAB89, 0x98BADCFE, 0x10325476) (chunks 64 (md5_pad msg)) of
        (a, b, c, d) \<Rightarrow> concat (map (\<lambda>w. le_bytes 4 (uint w)) [a, b, c, d]))"

lemma length_le_bytes [simp]: "length (le_bytes n x) = n"
  by (simp add: le_bytes_def)

lemma length_md5 [simp]: "length (md5 msg) = 16"
  by (simp add: md5_def split: prod.splits)

end
