(* ===== verification/Client.thy ===== *)
theory Client
  imports Proto Md5
begin

text \<open>
  Package \<^verbatim>\<open>routeros\<close>: the client that sends a command sentence and reads the sentences of the
  reply (\<open>RunArgs\<close>, \<open>readReply\<close>, \<open>processSentence\<close>), and logs in (\<open>Login\<close>).  The state is the
  writer with the connection, and the flag of \<open>Close\<close>.
\<close>

section \<open>Replies\<close>

definition empty_reply :: reply where
  "empty_reply = \<lparr>rep_done = None, rep_re = []\<rparr>"

definition processSentence :: "reply \<Rightarrow> sentence \<Rightarrow> reply \<times> bool \<times> goerror option" where
  "processSentence r sen =
     (if sen_word sen = ''!re'' then (r\<lparr>rep_re := rep_re r @ [sen]\<rparr>, False, None)
      else if sen_word sen = ''!done'' then (r\<lparr>rep_done := Some sen\<rparr>, True, None)
      else if sen_word sen = ''!trap'' \<or> sen_word sen = ''!fatal'' then
        (r, sen_word sen = ''!fatal'', Some (DeviceError sen))
      else if sen_word sen = '''' \<or> sen_word sen = ''!empty'' then (r, False, None)
      else (r, True, Some (UnknownReplyError sen)))"

text \<open>
  The loop of \<open>readReply\<close>.  Go returns the reply together with the error of an earlier
  \<^verbatim>\<open>!trap\<close>; no caller looks at the reply then, so the model returns the error alone.
\<close>

datatype reply_step = Stop "halt + reply" | Continue reply "goerror option"

definition reply_step :: "reply \<Rightarrow> goerror option \<Rightarrow> sentence \<Rightarrow> reply_step" where
  "reply_step r lastErr sen =
     (case processSentence r sen of
        (r', fin, err) \<Rightarrow>
          (case err of
             Some e \<Rightarrow> if fin then Stop (Inl (Failed e)) else Continue r' (Some e)
           | None \<Rightarrow>
               if fin then Stop (case lastErr of None \<Rightarrow> Inr r' | Some e \<Rightarrow> Inl (Failed e))
               else Continue r' lastErr))"

function read_sentences :: "(byte list \<Rightarrow> goerror + string) \<Rightarrow> reply \<Rightarrow> goerror option \<Rightarrow> rstream
    \<Rightarrow> (halt + reply) \<times> rstream" where
  "read_sentences decode r lastErr st =
     (case ReadSentence decode st of
        (Inl h, st') \<Rightarrow> (Inl (wrap_halt (Wrapf ''read sentence error: %w'' []) h), st')
      | (Inr sen, st') \<Rightarrow>
          (case reply_step r lastErr sen of
             Stop res \<Rightarrow> (res, st')
           | Continue r' lastErr' \<Rightarrow> read_sentences decode r' lastErr' st'))"
  by pat_completeness auto
termination
  by (relation "measure (\<lambda>(decode, r, lastErr, st). length (rs_in st))")
     (auto dest!: sym [THEN ReadSentence_shorter])

declare read_sentences.simps [simp del]

definition readReply :: "(byte list \<Rightarrow> goerror + string) \<Rightarrow> reply reads" where
  "readReply decode = read_sentences decode empty_reply None"


section \<open>The client\<close>

record client =
  cl_w :: writer
  cl_rwc :: conn
  cl_closing :: bool

definition NewClient :: "conn \<Rightarrow> client" where
  "NewClient rwc = \<lparr>cl_w = NewWriter, cl_rwc = rwc, cl_closing = False\<rparr>"

definition on_link :: "(wlink, 'a) gom \<Rightarrow> (client, 'a) gom" where
  "on_link m = (\<lambda>c. case m (cl_w c, cl_rwc c) of
      (r, (w, rwc)) \<Rightarrow> (r, c\<lparr>cl_w := w, cl_rwc := rwc\<rparr>))"

definition as_outcome :: "halt + 'a \<Rightarrow> (goerror + 'a) outcome" where
  \<comment> \<open>what a read is for its caller\<close>
  "as_outcome r = (case r of
       Inr x \<Rightarrow> Return (Inr x) | Inl (Failed e) \<Rightarrow> Return (Inl e) | Inl Silent \<Rightarrow> Blocked)"

lemma as_outcome_simps [simp]:
  "as_outcome (Inr x) = Return (Inr x)" "as_outcome (Inl (Failed e)) = Return (Inl e)" "as_outcome (Inl Silent) = Blocked"
  by (simp_all add: as_outcome_def)

lemma as_outcome_eq:
  "as_outcome r = Return (Inr x) \<longleftrightarrow> r = Inr x" "as_outcome r = Return (Inl e) \<longleftrightarrow> r = Inl (Failed e)"
  "as_outcome r = Blocked \<longleftrightarrow> r = Inl Silent" "as_outcome r \<noteq> Panicked p"
  by (auto simp: as_outcome_def split: sum.splits halt.splits)

definition on_input :: "'a reads \<Rightarrow> (client, goerror + 'a) gom" where
  "on_input d = (\<lambda>c. case d (cn_rx (cl_rwc c)) of
      (r, st) \<Rightarrow> (as_outcome r, c\<lparr>cl_rwc := (cl_rwc c)\<lparr>cn_rx := st\<rparr>\<rparr>))"

definition endCommandSync :: "(byte list \<Rightarrow> goerror + string) \<Rightarrow> (client, goerror + reply) gom" where
  "endCommandSync decode =
     gbind (on_link EndSentence) (\<lambda>err.
       case err of
         Some e \<Rightarrow> gret (Inl (Wrapf ''endsentence error: %w'' [] e))
       | None \<Rightarrow> on_input (readReply decode))"

definition RunArgs :: "(byte list \<Rightarrow> goerror + string) \<Rightarrow> string list \<Rightarrow> (client, goerror + reply) gom" where
  "RunArgs decode sentence =
     gseq (on_link BeginSentence)
     (gseq (on_link (gupdate (write_words sentence)))
     (endCommandSync decode))"

definition Run :: "(byte list \<Rightarrow> goerror + string) \<Rightarrow> string list \<Rightarrow> (client, goerror + reply) gom" where
  "Run decode sentence = RunArgs decode sentence"

definition Close :: "client \<Rightarrow> client" where
  "Close c = (if cl_closing c then c
              else c\<lparr>cl_closing := True, cl_rwc := (cl_rwc c)\<lparr>cn_closed := True\<rparr>\<rparr>)"


section \<open>Login\<close>

definition hex_digit :: "char \<Rightarrow> int option" where
  "hex_digit c = (if is_digit c then Some (digit_val c)
                  else if is_hex_letter c then Some (hex_val c) else None)"

fun hex_decode :: "string \<Rightarrow> goerror + byte list" where
  \<comment> \<open>\<^verbatim>\<open>hex.DecodeString\<close>\<close>
  "hex_decode [] = Inr []"
| "hex_decode [c] = Inl (ErrHex [c])"
| "hex_decode (a # b # s) =
     (case (hex_digit a, hex_digit b) of
        (Some x, Some y) \<Rightarrow>
          (case hex_decode s of
             Inl e \<Rightarrow> Inl e
           | Inr bs \<Rightarrow> Inr (word_of_int (16 * x + y) # bs))
      | (None, _) \<Rightarrow> Inl (ErrHex [a])
      | (_, None) \<Rightarrow> Inl (ErrHex [b]))"

definition hex_encode :: "byte list \<Rightarrow> string" where
  \<comment> \<open>the verb \<^verbatim>\<open>%x\<close> of a byte slice\<close>
  "hex_encode bs = concat (map (\<lambda>b. [hex_char (uint b div 16), hex_char (uint b mod 16)]) bs)"

definition challengeResponse :: "byte list \<Rightarrow> string \<Rightarrow> string" where
  "challengeResponse cha password = ''00'' @ hex_encode (md5 (0 # bytes_of password @ cha))"

definition Login :: "(byte list \<Rightarrow> goerror + string) \<Rightarrow> string \<Rightarrow> string
    \<Rightarrow> (client, goerror option) gom" where
  "Login decode username password =
     gbind (Run decode [''/login'', ''=name='' @ username, ''=password='' @ password]) (\<lambda>res.
       case res of
         Inl e \<Rightarrow> gret (Some e)
       | Inr r \<Rightarrow>
           (case rep_done r of
              None \<Rightarrow> gpanic NilDereference
            | Some fin \<Rightarrow>
                (case mget (sen_map fin) ''ret'' of
                   None \<Rightarrow> if rep_done r \<noteq> None then gret None else gret (Some ErrLoginNoRet)
                 | Some ret \<Rightarrow>
                     (case hex_decode ret of
                        Inl e \<Rightarrow> gret (Some (Wrapf
                          ''RouterOS: /login: invalid ret (challenge) hex string received: %w'' [] e))
                      | Inr b \<Rightarrow>
                          gbind (Run decode [''/login'', ''=name='' @ username,
                                   ''=response='' @ challengeResponse b password]) (\<lambda>res'.
                            case res' of
                              Inl e \<Rightarrow> gret (Some e)
                            | Inr _ \<Rightarrow> gret None)))))"

definition newClientAndLogin :: "(byte list \<Rightarrow> goerror + string) \<Rightarrow> string \<Rightarrow> string
    \<Rightarrow> (client, goerror + unit) gom" where
  \<comment> \<open>from a fresh client; on a failed login the client is left closed\<close>
  "newClientAndLogin decode username password =
     gbind (Login decode username password) (\<lambda>err.
       case err of
         Some e \<Rightarrow> gseq (gupdate Close) (gret (Inl e))
       | None \<Rightarrow> gret (Inr ()))"


section \<open>The loop over sentences\<close>

text \<open>\<open>read_sentences\<close> without the stream: the sentences still to come are left over.\<close>

fun fold_reply :: "reply \<Rightarrow> goerror option \<Rightarrow> sentence list
    \<Rightarrow> ((halt + reply) \<times> sentence list) option" where
  "fold_reply r lastErr [] = None"
| "fold_reply r lastErr (sen # sens) =
     (case reply_step r lastErr sen of
        Stop res \<Rightarrow> Some (res, sens)
      | Continue r' lastErr' \<Rightarrow> fold_reply r' lastErr' sens)"

definition encodeSentences :: "string list list \<Rightarrow> byte list" where
  "encodeSentences wss = concat (map encodeSentence wss)"

lemma encodeSentences_simps [simp]:
  "encodeSentences [] = []"
  "encodeSentences (ws # wss) = encodeSentence ws @ encodeSentences wss"
  "encodeSentences (wss @ wss') = encodeSentences wss @ encodeSentences wss'"
  by (simp_all add: encodeSentences_def)

lemma read_sentences_encoded:
  assumes d: "ascii_decoder decode"
  shows "\<forall>ws \<in> set wss. good_sentence ws \<Longrightarrow>
     fold_reply r lastErr (map sentence_val wss) = Some (res, left_over) \<Longrightarrow>
     \<exists>wss'. left_over = map sentence_val wss' \<and> set wss' \<subseteq> set wss \<and>
       read_sentences decode r lastErr \<lparr>rs_in = encodeSentences wss @ rest, rs_end = e\<rparr>
         = (res, \<lparr>rs_in = encodeSentences wss' @ rest, rs_end = e\<rparr>)"
proof (induction wss arbitrary: r lastErr)
  case (Cons ws wss)
  have rd: "ReadSentence decode \<lparr>rs_in = encodeSentences (ws # wss) @ rest, rs_end = e\<rparr>
      = (Inr (sentence_val ws), \<lparr>rs_in = encodeSentences wss @ rest, rs_end = e\<rparr>)"
    using ReadSentence_encoded [OF d, of ws "encodeSentences wss @ rest" e] Cons.prems(1) by simp
  show ?case
  proof (cases "reply_step r lastErr (sentence_val ws)")
    case (Stop x)
    with Cons.prems(2) rd show ?thesis by (subst read_sentences.simps) auto
  next
    case (Continue r' l')
    with Cons.prems Cons.IH [of r' l'] rd show ?thesis by (subst read_sentences.simps) auto
  qed
qed simp

text \<open>Sentences of a command that the device completes: data, traps and empty sentences, then \<^verbatim>\<open>!done\<close>.\<close>

definition body_word :: "string \<Rightarrow> bool" where
  "body_word w \<longleftrightarrow> w \<in> {''!re'', ''!trap'', '''', ''!empty''}"

definition last_trap :: "sentence list \<Rightarrow> goerror option" where
  "last_trap sens = (case filter (\<lambda>s. sen_word s = ''!trap'') sens of
     [] \<Rightarrow> None | ts \<Rightarrow> Some (DeviceError (last ts)))"

definition data_of :: "sentence list \<Rightarrow> sentence list" where
  "data_of sens = filter (\<lambda>s. sen_word s = ''!re'') sens"

lemma reply_step_simps:
  "sen_word s = ''!re'' \<Longrightarrow> reply_step r l s = Continue (r\<lparr>rep_re := rep_re r @ [s]\<rparr>) l"
  "sen_word s = ''!trap'' \<Longrightarrow> reply_step r l s = Continue r (Some (DeviceError s))"
  "sen_word s = '''' \<Longrightarrow> reply_step r l s = Continue r l"
  "sen_word s = ''!empty'' \<Longrightarrow> reply_step r l s = Continue r l"
  "sen_word s = ''!done'' \<Longrightarrow> reply_step r l s =
     Stop (case l of None \<Rightarrow> Inr (r\<lparr>rep_done := Some s\<rparr>) | Some e \<Rightarrow> Inl (Failed e))"
  "sen_word s = ''!fatal'' \<Longrightarrow> reply_step r l s = Stop (Inl (Failed (DeviceError s)))"
  by (simp_all add: reply_step_def processSentence_def)

lemma reply_step_unknown:
  "\<not> body_word (sen_word s) \<Longrightarrow> sen_word s \<noteq> ''!done'' \<Longrightarrow> sen_word s \<noteq> ''!fatal'' \<Longrightarrow>
     reply_step r l s = Stop (Inl (Failed (UnknownReplyError s)))"
  by (simp add: reply_step_def processSentence_def body_word_def)

lemma last_trap_Cons:
  "last_trap (s # sens) = (case last_trap sens of
     Some e \<Rightarrow> Some e
   | None \<Rightarrow> if sen_word s = ''!trap'' then Some (DeviceError s) else None)"
  by (auto simp: last_trap_def split: list.splits)

lemma fold_reply_body:
  assumes "\<forall>s \<in> set sens. body_word (sen_word s)"
  shows "fold_reply r l (sens @ sens') =
     fold_reply (r\<lparr>rep_re := rep_re r @ data_of sens\<rparr>)
       (case last_trap sens of None \<Rightarrow> l | Some e \<Rightarrow> Some e) sens'"
  using assms
proof (induction sens arbitrary: r l)
  case Nil
  then show ?case by (simp add: last_trap_def data_of_def)
next
  case (Cons s sens)
  then show ?case
    by (auto simp: body_word_def reply_step_simps data_of_def last_trap_Cons split: option.splits)
qed

lemma read_sentences_reply:
  assumes "read_sentences decode r l st = (Inr r', st')"
    and "\<forall>s \<in> set (rep_re r). sen_word s = ''!re''"
  shows "(\<exists>d. rep_done r' = Some d \<and> sen_word d = ''!done'')
         \<and> (\<forall>s \<in> set (rep_re r'). sen_word s = ''!re'')"
  using assms
proof (induction decode r l st rule: read_sentences.induct)
  case (1 decode r l st)
  from "1.prems" obtain sen st1 where rd: "ReadSentence decode st = (Inr sen, st1)"
    by (subst (asm) read_sentences.simps) (auto split: prod.splits sum.splits)
  show ?case
  proof (cases "reply_step r l sen")
    case (Stop x)
    with "1.prems" rd have "x = Inr r'" by (subst (asm) read_sentences.simps) simp
    with Stop "1.prems"(2) show ?thesis
      by (auto simp: reply_step_def processSentence_def split: if_splits option.splits)
  next
    case (Continue r1 l1)
    with "1.prems" rd have k: "read_sentences decode r1 l1 st1 = (Inr r', st')"
      by (subst (asm) read_sentences.simps) simp
    from Continue "1.prems"(2) have "\<forall>s \<in> set (rep_re r1). sen_word s = ''!re''"
      by (auto simp: reply_step_def processSentence_def split: if_splits option.splits)
    with "1.IH" [OF rd [symmetric] refl Continue k] show ?thesis by simp
  qed
qed


lemma extends_read_sentences: "extends (read_sentences decode r l)"
proof (rule extendsI)
  fix i e w st x e'
  assume "read_sentences decode r l \<lparr>rs_in = i, rs_end = e\<rparr> = (w, st)" and "conclusive e w"
  then show "read_sentences decode r l \<lparr>rs_in = i @ x, rs_end = e'\<rparr>
      = (w, \<lparr>rs_in = rs_in st @ x, rs_end = e'\<rparr>)"
  proof (induction decode r l "\<lparr>rs_in = i, rs_end = e\<rparr>" arbitrary: i rule: read_sentences.induct)
    case (1 decode r l)
    obtain q st1 where rd: "ReadSentence decode \<lparr>rs_in = i, rs_end = e\<rparr> = (q, st1)" by fastforce
    have c: "conclusive e q"
      using "1.prems" rd by (cases q) (auto simp: read_sentences.simps [of decode r l "\<lparr>rs_in = i, rs_end = e\<rparr>"])
    have rd': "ReadSentence decode \<lparr>rs_in = i @ x, rs_end = e'\<rparr>
        = (q, \<lparr>rs_in = rs_in st1 @ x, rs_end = e'\<rparr>)"
      using extendsD [OF extends_ReadSentence rd] c by simp
    obtain i1 where st1: "st1 = \<lparr>rs_in = i1, rs_end = e\<rparr>"
      using extends_end [OF extends_ReadSentence rd] c by (cases st1) auto
    show ?case
    proof (cases "\<exists>sen r1 l1. q = Inr sen \<and> reply_step r l sen = Continue r1 l1")
      case False
      with "1.prems" rd rd' show ?thesis
        by (subst (asm) read_sentences.simps, subst read_sentences.simps) (auto split: sum.splits reply_step.splits)
    next
      case True
      then obtain sen r1 l1 where q: "q = Inr sen" and k1: "reply_step r l sen = Continue r1 l1" by blast
      with "1.prems" rd have k: "read_sentences decode r1 l1 st1 = (w, st)"
        by (subst (asm) read_sentences.simps) simp
      from "1.hyps" [OF rd [unfolded st1, symmetric] q k1 k [unfolded st1]] "1.prems"(2) k1 q rd' st1
      show ?thesis by (subst read_sentences.simps) simp
    qed
  qed
qed

lemma reply_step_Silent [simp]: "reply_step r l sen \<noteq> Stop (Inl Silent)"
  by (simp add: reply_step_def split: prod.split option.split)

lemma ends_read_sentences: "respects_end (read_sentences decode r l)"
proof -
  have "rs_end st' = rs_end st \<and> (q = Inl Silent \<longrightarrow> rs_end st = Silent)"
    if "read_sentences decode r l st = (q, st')" for q st st'
    using that
  proof (induction decode r l st rule: read_sentences.induct)
    case (1 decode r l st)
    obtain p st1 where rd: "ReadSentence decode st = (p, st1)" by fastforce
    note i = respects_endD [OF ends_ReadSentence rd]
    show ?case
    proof (cases "\<exists>sen r1 l1. p = Inr sen \<and> reply_step r l sen = Continue r1 l1")
      case False
      with "1.prems" rd i show ?thesis
        by (subst (asm) read_sentences.simps) (auto split: sum.splits reply_step.splits)
    next
      case True
      then obtain sen r1 l1 where p: "p = Inr sen" and k1: "reply_step r l sen = Continue r1 l1" by blast
      with "1.prems" rd have "read_sentences decode r1 l1 st1 = (q, st')" by (subst (asm) read_sentences.simps) simp
      with "1.IH" [OF rd [symmetric] p k1] i show ?thesis by simp
    qed
  qed
  then show ?thesis unfolding respects_end_def by (metis prod.collapse)
qed

lemma ends_readReply [end_rules]: "respects_end (readReply decode)"
  unfolding readReply_def by (rule ends_read_sentences)

text \<open>A whole reply as a codec on top of the sentences: data sentences, then \<^verbatim>\<open>!done\<close>.\<close>

definition good_reply :: "string list list \<Rightarrow> bool" where
  "good_reply wss \<longleftrightarrow> wss \<noteq> [] \<and> (\<forall>ws \<in> set wss. good_sentence ws)
     \<and> (\<forall>ws \<in> set (butlast wss). sen_word (sentence_val ws) = ''!re'')
     \<and> sen_word (sentence_val (last wss)) = ''!done''"

definition reply_val :: "string list list \<Rightarrow> reply" where
  "reply_val wss = \<lparr>rep_done = Some (sentence_val (last wss)),
                    rep_re = map sentence_val (butlast wss)\<rparr>"

lemma readReply_body_done:
  assumes d: "ascii_decoder decode" and g: "\<forall>ws \<in> set wss. good_sentence ws" "good_sentence dn"
    and b: "\<forall>ws \<in> set wss. body_word (sen_word (sentence_val ws))"
    and dn: "sen_word (sentence_val dn) = ''!done''"
  shows "readReply decode \<lparr>rs_in = encodeSentences wss @ encodeSentence dn @ rest, rs_end = e\<rparr> =
    (case last_trap (map sentence_val wss) of
       None \<Rightarrow> Inr \<lparr>rep_done = Some (sentence_val dn), rep_re = data_of (map sentence_val wss)\<rparr>
     | Some x \<Rightarrow> Inl (Failed x), \<lparr>rs_in = rest, rs_end = e\<rparr>)"
proof -
  let ?res = "case last_trap (map sentence_val wss) of
       None \<Rightarrow> Inr \<lparr>rep_done = Some (sentence_val dn), rep_re = data_of (map sentence_val wss)\<rparr>
     | Some x \<Rightarrow> Inl (Failed x)"
  have "fold_reply empty_reply None (map sentence_val (wss @ [dn])) = Some (?res, [])"
    using fold_reply_body [of "map sentence_val wss" empty_reply None "[sentence_val dn]"] b dn
    by (auto simp: reply_step_simps empty_reply_def split: option.splits)
  from read_sentences_encoded [OF d _ this, of rest e] g
  show ?thesis by (auto simp: readReply_def)
qed

lemma readReply_encoded:
  assumes d: "ascii_decoder decode" and g: "good_reply wss"
  shows "readReply decode \<lparr>rs_in = encodeSentences wss @ rest, rs_end = e\<rparr>
    = (Inr (reply_val wss), \<lparr>rs_in = rest, rs_end = e\<rparr>)"
proof -
  obtain bs dn where w: "wss = bs @ [dn]"
    using g by (cases wss rule: rev_cases) (auto simp: good_reply_def)
  with g have re: "\<forall>ws \<in> set bs. sen_word (sentence_val ws) = ''!re''"
    by (auto simp: good_reply_def)
  have "filter (\<lambda>s. sen_word s = ''!trap'') (map sentence_val bs) = []"
    using re by (simp add: filter_empty_conv)
  then have "last_trap (map sentence_val bs) = None" by (simp add: last_trap_def)
  moreover have "data_of (map sentence_val bs) = map sentence_val bs"
    using re by (simp add: data_of_def filter_id_conv)
  ultimately show ?thesis
    using readReply_body_done [OF d, of bs dn rest e] g re w
    by (auto simp: good_reply_def reply_val_def body_word_def)
qed

interpretation replies: stream_decoder "readReply decode"
  by unfold_locales (simp_all add: readReply_def extends_read_sentences ends_read_sentences)

lemma reply_codec:
  "ascii_decoder decode \<Longrightarrow>
     stream_codec (readReply decode) encodeSentences reply_val good_reply"
  by (intro stream_codec.intro stream_codec_axioms.intro replies.stream_decoder_axioms readReply_encoded)


section \<open>Running a command\<close>

text \<open>
  \<open>idle\<close>: nobody is inside \<open>BeginSentence\<close> \<dots> \<open>EndSentence\<close>, not even in a write that does not return.
  \<open>RunArgs\<close> never panics on an idle client.  It waits for ever only on a silent peer, and when it
  returns the client is idle.
\<close>

definition idle :: "client \<Rightarrow> bool" where
  "idle c \<longleftrightarrow> \<not> wr_locked (cl_w c) \<and> \<not> stuck_writer (cl_w c)"

definition after_command :: "string list \<Rightarrow> client \<Rightarrow> client" where
  \<comment> \<open>the command written and flushed, the lock given back\<close>
  "after_command ws c =
     (case flush_writer (WriteWord '''' (write_words ws ((cl_w c)\<lparr>wr_locked := True\<rparr>, cl_rwc c))) of
        (w, rwc) \<Rightarrow> c\<lparr>cl_w := w\<lparr>wr_locked := False\<rparr>, cl_rwc := rwc\<rparr>)"

definition held :: "client \<Rightarrow> client" where
  \<comment> \<open>the lock not given back, as the write does not return\<close>
  "held c = c\<lparr>cl_w := (cl_w c)\<lparr>wr_locked := True\<rparr>\<rparr>"

lemma RunArgs_run:
  assumes "idle c"
  shows "RunArgs decode ws c =
    (let c' = after_command ws c in
     case wr_err (cl_w c') of
       Some Silent \<Rightarrow> (Blocked, held c')
     | Some (Failed e) \<Rightarrow> (Return (Inl (Wrapf ''endsentence error: %w'' [] e)), c')
     | None \<Rightarrow> (case readReply decode (cn_rx (cl_rwc c')) of
         (r, st) \<Rightarrow> (as_outcome r, c'\<lparr>cl_rwc := (cl_rwc c')\<lparr>cn_rx := st\<rparr>\<rparr>)))"
proof -
  let ?l = "write_words ws ((cl_w c)\<lparr>wr_locked := True\<rparr>, cl_rwc c)"
  have lk: "wr_locked (fst ?l)"
    using write_words_same [of "((cl_w c)\<lparr>wr_locked := True\<rparr>, cl_rwc c)" ws]
    by (simp add: same_input_def)
  obtain w rwc where f: "flush_writer (WriteWord '''' ?l) = (w, rwc)" by (cases "flush_writer (WriteWord '''' ?l)")
  have "same_input ?l (w, rwc)"
    using same_input_trans [OF WriteWord_same flush_writer_same, of ?l "''''"] f by simp
  then have "wr_locked w" using lk by (simp add: same_input_def)
  then have w: "w\<lparr>wr_locked := True\<rparr> = w" by simp
  have c: "\<not> wr_locked (cl_w c)" using assms by (simp add: idle_def)
  have E: "EndSentence ?l = (case wr_err w of None \<Rightarrow> (Return None, (w\<lparr>wr_locked := False\<rparr>, rwc))
      | Some (Failed e) \<Rightarrow> (Return (Some e), (w\<lparr>wr_locked := False\<rparr>, rwc)) | Some Silent \<Rightarrow> (Blocked, (w, rwc)))"
    unfolding EndSentence_run [OF lk] Let_def f by (simp split: option.split halt.split)
  obtain l0 l1 where l: "?l = (l0, l1)" by (cases ?l)
  show ?thesis
    unfolding RunArgs_def gseq_def endCommandSync_def
    using f E c l w
    by (auto simp: gbind_def on_link_def BeginSentence_def after_command_def on_input_def Let_def held_def
        split: option.splits prod.splits halt.splits)
qed

lemma after_command_same:
  "same_peer (cl_rwc c) (cl_rwc (after_command ws c))"
  "\<not> stuck_writer (cl_w c) \<Longrightarrow> stuck_writer (cl_w (after_command ws c)) \<Longrightarrow>
     wr_err (cl_w (after_command ws c)) = Some Silent \<and> silent (cl_rwc c)"
  "\<not> wr_locked (cl_w (after_command ws c))"
proof -
  let ?l = "((cl_w c)\<lparr>wr_locked := True\<rparr>, cl_rwc c)"
  have s: "same_input ?l (flush_writer (WriteWord '''' (write_words ws ?l)))"
    by (rule same_input_trans [OF same_input_trans [OF write_words_same WriteWord_same] flush_writer_same])
  then show "same_peer (cl_rwc c) (cl_rwc (after_command ws c))"
    by (auto simp: after_command_def same_input_def split: prod.splits)
  assume "\<not> stuck_writer (cl_w c)" and "stuck_writer (cl_w (after_command ws c))"
  with s show "wr_err (cl_w (after_command ws c)) = Some Silent \<and> silent (cl_rwc c)"
    by (auto simp: after_command_def same_input_def stuck_writer_def tells_stuck_def split: prod.splits)
next
  show "\<not> wr_locked (cl_w (after_command ws c))" by (auto simp: after_command_def split: prod.splits)
qed

lemma after_command_input [simp]:
  "cn_rx (cl_rwc (after_command ws c)) = cn_rx (cl_rwc c)"
  "silent (cl_rwc (after_command ws c)) = silent (cl_rwc c)"
  "cl_closing (after_command ws c) = cl_closing c"
proof -
  note s = after_command_same(1) [of c ws]
  then show "cn_rx (cl_rwc (after_command ws c)) = cn_rx (cl_rwc c)" by (simp add: same_peer_def)
  show "silent (cl_rwc (after_command ws c)) = silent (cl_rwc c)" using s by (rule same_peer_silent)
  show "cl_closing (after_command ws c) = cl_closing c"
    by (auto simp: after_command_def split: prod.splits)
qed

lemma after_command_written:
  assumes "wr_err (cl_w (after_command ws c)) = None"
  shows "cn_tx (cl_rwc (after_command ws c))
           = cn_tx (cl_rwc c) @ bw_buf (wr_bufw (cl_w c)) @ encodeSentence ws"
    and "bw_buf (wr_bufw (cl_w (after_command ws c))) = []"
    and "wr_err (cl_w c) = None"
proof -
  let ?l0 = "((cl_w c)\<lparr>wr_locked := True\<rparr>, cl_rwc c)"
  let ?l1 = "write_words ws ?l0" let ?l2 = "WriteWord '''' ?l1" let ?l3 = "flush_writer ?l2"
  have e3: "wr_err (fst ?l3) = None"
    using assms by (auto simp: after_command_def split: prod.splits)
  note f = flush_writer_ok [OF e3]
  have e2: "wr_err (fst ?l2) = None" using f by blast
  note g = WriteWord_ok [OF e2]
  have e1: "wr_err (fst ?l1) = None" using g by blast
  note h = write_words_ok [OF e1]
  have "written ?l3 = written ?l0 @ encodeSentence ws"
    using f g h by (simp add: encodeSentence_def)
  with f have w: "cn_tx (snd ?l3) = cn_tx (cl_rwc c) @ bw_buf (wr_bufw (cl_w c)) @ encodeSentence ws"
    by (simp add: written_def)
  then show "cn_tx (cl_rwc (after_command ws c))
           = cn_tx (cl_rwc c) @ bw_buf (wr_bufw (cl_w c)) @ encodeSentence ws"
    by (auto simp: after_command_def split: prod.splits)
  from f show "bw_buf (wr_bufw (cl_w (after_command ws c))) = []"
    by (auto simp: after_command_def split: prod.splits)
  from h show "wr_err (cl_w c) = None" by simp
qed


section \<open>The contract of a RouterOS client\<close>

text \<open>
  What the collectors rely on when they call \<^verbatim>\<open>ROClient.Run\<close>: the call returns and keeps the
  client usable (\<open>returns\<close>), or, where \<open>wait\<close> allows it, it waits for ever; a reply without error has
  its \<^verbatim>\<open>!done\<close> sentence, so \<^verbatim>\<open>reply.Done\<close> is not nil (\<open>complete\<close>), and its other sentences are data
  (\<open>data\<close>).
\<close>

locale ro_client =
  fixes run :: "string list \<Rightarrow> ('s, goerror + reply) gom"
    and inv :: "'s \<Rightarrow> bool" and "wait" :: bool
  assumes returns: "inv s \<Longrightarrow> (\<exists>res s'. run ws s = (Return res, s') \<and> inv s') \<or> wait \<and> fst (run ws s) = Blocked"
    and complete: "inv s \<Longrightarrow> run ws s = (Return (Inr r), s') \<Longrightarrow>
           \<exists>d. rep_done r = Some d \<and> sen_word d = ''!done''"
    and data: "inv s \<Longrightarrow> run ws s = (Return (Inr r), s') \<Longrightarrow>
           \<forall>x \<in> set (rep_re r). sen_word x = ''!re''"

context ro_client
begin

lemma run_cases:
  assumes "inv s"
  obtains e s' where "run ws s = (Return (Inl e), s')" "inv s'"
  | r d s' where "run ws s = (Return (Inr r), s')" "inv s'" "rep_done r = Some d"
      "sen_word d = ''!done''" "\<forall>x \<in> set (rep_re r). sen_word x = ''!re''"
  | s' where "run ws s = (Blocked, s')" "wait"
proof -
  from returns [OF assms, of ws] show thesis
  proof (elim disjE exE conjE)
    fix res s' assume r: "run ws s = (Return res, s')" "inv s'"
    show thesis
    proof (cases res)
      case (Inl e)
      with r that(1) show thesis by blast
    next
      case (Inr x)
      with r complete [OF assms] data [OF assms] that(2) show thesis by blast
    qed
  next
    assume "wait" "fst (run ws s) = Blocked"
    then show thesis by (intro that(3) [of "snd (run ws s)"]) (simp_all add: prod_eq_iff)
  qed
qed

lemma run_ok: "ok wait inv (run ws) (\<lambda>_. inv)"
  unfolding ok_def using returns by blast

end

definition meets :: "bool \<Rightarrow> client \<Rightarrow> bool" where
  \<comment> \<open>an idle client with a silent peer, or with one that is not\<close>
  "meets b c \<longleftrightarrow> idle c \<and> silent (cl_rwc c) = b"

lemma Run_idle:
  assumes "idle c" and "Run decode ws c = (r, c')"
  shows "silent (cl_rwc c') = silent (cl_rwc c)" "cl_closing c' = cl_closing c"
    "(\<exists>res. r = Return res) \<and> idle c' \<or> r = Blocked \<and> silent (cl_rwc c)"
proof -
  let ?c = "after_command ws c"
  obtain q st where rd: "readReply decode (cn_rx (cl_rwc ?c)) = (q, st)" by fastforce
  note e = respects_endD [OF ends_readReply rd]
  have st: "\<not> stuck_writer (cl_w c)" using assms(1) by (simp add: idle_def)
  have i: "idle ?c" if "wr_err (cl_w ?c) \<noteq> Some Silent"
    using after_command_same(2) [OF st, of ws] after_command_same(3) that by (auto simp: idle_def)
  have s: "silent (cl_rwc c)" if "wr_err (cl_w ?c) = Some Silent"
    using after_command_same(2) [OF st, of ws] that by (simp add: stuck_writer_def)
  have run: "(case wr_err (cl_w ?c) of
       Some Silent \<Rightarrow> (Blocked, held ?c)
     | Some (Failed e) \<Rightarrow> (Return (Inl (Wrapf ''endsentence error: %w'' [] e)), ?c)
     | None \<Rightarrow> (as_outcome q, ?c\<lparr>cl_rwc := (cl_rwc ?c)\<lparr>cn_rx := st\<rparr>\<rparr>)) = (r, c')"
    using RunArgs_run [OF assms(1), of decode ws] assms(2) rd
    by (auto simp: Run_def Let_def split: option.splits halt.splits)
  have x: "silent ((cl_rwc ?c)\<lparr>cn_rx := st\<rparr>) = silent (cl_rwc c)" using e by simp
  show "silent (cl_rwc c') = silent (cl_rwc c)" "cl_closing c' = cl_closing c"
    using run x by (auto simp: held_def split: option.splits halt.splits)
  show "(\<exists>res. r = Return res) \<and> idle c' \<or> r = Blocked \<and> silent (cl_rwc c)"
  proof (cases "wr_err (cl_w ?c)")
    case None
    then have "idle ?c" using i by simp
    moreover have "rs_end (cn_rx (cl_rwc c)) = Silent" if "q = Inl Silent" using e that by simp
    ultimately show ?thesis using None run
      by (auto simp: as_outcome_def idle_def silent_def split: sum.splits halt.splits)
  next
    case (Some h)
    with run i s show ?thesis by (cases h) auto
  qed
qed

lemma Run_meets:
  "meets b c \<Longrightarrow> (\<exists>res c'. Run decode ws c = (Return res, c') \<and> meets b c') \<or> b \<and> fst (Run decode ws c) = Blocked"
  using Run_idle [of c decode ws] by (cases "Run decode ws c") (auto simp: meets_def)

lemma Run_Inr:
  assumes "idle c" and "Run decode ws c = (Return (Inr r), c')"
  shows "(\<exists>d. rep_done r = Some d \<and> sen_word d = ''!done'')
         \<and> (\<forall>x \<in> set (rep_re r). sen_word x = ''!re'')"
proof -
  obtain st where "readReply decode (cn_rx (cl_rwc c)) = (Inr r, st)"
    using RunArgs_run [OF assms(1), of decode ws] assms(2)
    by (auto simp: Run_def Let_def as_outcome_eq split: option.splits halt.splits prod.splits)
  then show ?thesis
    unfolding readReply_def by (rule read_sentences_reply) (simp add: empty_reply_def)
qed

interpretation routeros: ro_client "Run decode" "meets b" b
proof unfold_locales
  fix s ws r s'
  assume i: "meets b s"
  show "(\<exists>res s'. Run decode ws s = (Return res, s') \<and> meets b s') \<or> b \<and> fst (Run decode ws s) = Blocked"
    by (rule Run_meets [OF i])
  assume "Run decode ws s = (Return (Inr r), s')"
  with i Run_Inr [of s decode ws r s']
  show "\<exists>d. rep_done r = Some d \<and> sen_word d = ''!done''" "\<forall>x \<in> set (rep_re r). sen_word x = ''!re''"
    by (auto simp: meets_def)
qed


section \<open>Commands answered by the device\<close>

text \<open>\<open>ready\<close>: an idle client whose writer holds nothing back, on a connection that takes every byte.\<close>

definition ready :: "client \<Rightarrow> bool" where
  "ready c \<longleftrightarrow> idle c \<and> wr_err (cl_w c) = None \<and> wr_bufw (cl_w c) = \<lparr>bw_buf = [], bw_err = None\<rparr>
     \<and> writable (cl_rwc c)"

definition link_ok :: "wlink \<Rightarrow> bool" where
  "link_ok l \<longleftrightarrow> wr_err (fst l) = None \<and> bw_err (wr_bufw (fst l)) = None \<and> writable (snd l)"

lemma write_bytes_link_ok: "link_ok l \<Longrightarrow> link_ok (write_bytes b l)"
proof -
  assume ok: "link_ok l"
  obtain w c where l: "l = (w, c)" by (cases l)
  obtain bw c' where "bufw_write b (wr_bufw w) c = (None, bw, c')" and "writable c'"
    using ok l bufw_write_writable [of c "wr_bufw w" b] by (auto simp: link_ok_def)
  with ok l bufw_write_ok [of b "wr_bufw w" c bw c'] show ?thesis
    by (simp add: link_ok_def write_bytes_def)
qed

lemma flush_writer_link_ok: "link_ok l \<Longrightarrow> link_ok (flush_writer l)"
proof -
  assume ok: "link_ok l"
  obtain w c where l: "l = (w, c)" by (cases l)
  obtain bw c' where "bufw_flush (wr_bufw w) c = (None, bw, c')" and "writable c'"
    using ok l bufw_flush_writable [of c "wr_bufw w"] by (auto simp: link_ok_def)
  with ok l bufw_flush_ok [of "wr_bufw w" c bw c'] show ?thesis
    by (simp add: link_ok_def flush_writer_def)
qed

lemma WriteWord_link_ok: "link_ok l \<Longrightarrow> link_ok (WriteWord s l)"
  by (simp add: WriteWord_def Let_def write_bytes_link_ok)

lemma write_words_link_ok: "link_ok l \<Longrightarrow> link_ok (write_words ws l)"
  by (induction ws arbitrary: l) (simp_all add: write_words_def WriteWord_link_ok)

lemma after_command_ready:
  assumes "ready c"
  shows "ready (after_command ws c)"
    and "cn_tx (cl_rwc (after_command ws c)) = cn_tx (cl_rwc c) @ encodeSentence ws"
proof -
  let ?l = "flush_writer (WriteWord '''' (write_words ws ((cl_w c)\<lparr>wr_locked := True\<rparr>, cl_rwc c)))"
  have "link_ok ((cl_w c)\<lparr>wr_locked := True\<rparr>, cl_rwc c)"
    using assms by (simp add: ready_def link_ok_def)
  then have "link_ok ?l"
    by (intro flush_writer_link_ok WriteWord_link_ok write_words_link_ok)
  then have e: "wr_err (cl_w (after_command ws c)) = None"
    and b: "bw_err (wr_bufw (cl_w (after_command ws c))) = None"
    and w: "writable (cl_rwc (after_command ws c))"
    and lk: "\<not> wr_locked (cl_w (after_command ws c))"
    by (auto simp: after_command_def link_ok_def split: prod.splits)
  note wrt = after_command_written [OF e]
  from wrt(2) b have "wr_bufw (cl_w (after_command ws c)) = \<lparr>bw_buf = [], bw_err = None\<rparr>"
    by (cases "wr_bufw (cl_w (after_command ws c))") simp
  with e w lk show "ready (after_command ws c)" by (simp add: ready_def idle_def stuck_writer_def)
  from wrt(1) assms show "cn_tx (cl_rwc (after_command ws c)) = cn_tx (cl_rwc c) @ encodeSentence ws"
    by (simp add: ready_def)
qed

lemma Run_ready:
  assumes "ready c"
  shows "\<exists>c'. Run decode ws c = (as_outcome (fst (readReply decode (cn_rx (cl_rwc c)))), c')
     \<and> ready c' \<and> cn_tx (cl_rwc c') = cn_tx (cl_rwc c) @ encodeSentence ws
     \<and> cn_rx (cl_rwc c') = snd (readReply decode (cn_rx (cl_rwc c)))
     \<and> cl_closing c' = cl_closing c"
proof -
  note a = after_command_ready [OF assms, of ws]
  obtain r st where rd: "readReply decode (cn_rx (cl_rwc c)) = (r, st)" by (cases "readReply decode (cn_rx (cl_rwc c))")
  have i: "idle c" using assms by (simp add: ready_def)
  have e: "wr_err (cl_w (after_command ws c)) = None" using a(1) by (simp add: ready_def)
  show ?thesis
    using RunArgs_run [OF i, of decode ws] a rd e
    by (auto simp: Run_def Let_def ready_def idle_def writable_def)
qed


section \<open>Properties\<close>

text \<open>
  Property C1: a command on an idle client, whatever the peer does with the bytes written and whatever
  it sends.  Either it returns, with a reply or an error, with no panic, no lock left taken and the
  peer as it was; a reply without error has its \<^verbatim>\<open>!done\<close> sentence and only \<^verbatim>\<open>!re\<close> sentences as data,
  which is what lets the callers read \<^verbatim>\<open>reply.Done.Map\<close> unchecked.  Or it waits for ever, and then the peer
  is silent: there is no deadline, so this can happen, but no lock and no panic makes it happen.
\<close>

theorem Run_contract:
  assumes "idle c"
  shows "(\<exists>res c'. Run decode ws c = (Return res, c') \<and> idle c' \<and> silent (cl_rwc c') = silent (cl_rwc c)
       \<and> (\<forall>r. res = Inr r \<longrightarrow> (\<exists>d. rep_done r = Some d \<and> sen_word d = ''!done'')
                            \<and> (\<forall>s \<in> set (rep_re r). sen_word s = ''!re'')))
     \<or> silent (cl_rwc c) \<and> (\<exists>c'. Run decode ws c = (Blocked, c'))"
proof -
  have "meets (silent (cl_rwc c)) c" using assms by (simp add: meets_def)
  then show ?thesis by (cases rule: routeros.run_cases [of _ c decode ws]) (auto simp: meets_def)
qed

lemma NewClient_idle [simp]: "idle (NewClient rwc)"
  by (simp add: idle_def NewClient_def NewWriter_def stuck_writer_def)

lemma test_conn_not_silent [simp]: "\<not> silent (test_conn rx)"
  by (simp add: silent_def test_conn_def)

lemma NewClient_simps [simp]: "cl_rwc (NewClient rwc) = rwc" "cl_closing (NewClient rwc) = False"
  by (simp_all add: NewClient_def)

theorem Run_contract_witness:
  "\<exists>res c'. Run ascii_only [''/x''] (NewClient (test_conn [1, 2])) = (Return res, c') \<and> idle c'"
  using Run_contract [of "NewClient (test_conn [1, 2])" ascii_only "[''/x'']"] by auto

lemma Run_reply_ok:
  assumes "ready c" and "ascii_decoder decode" and "good_reply wss"
    and "rs_in (cn_rx (cl_rwc c)) = encodeSentences wss @ rest"
  shows "\<exists>c'. Run decode ws c = (Return (Inr (reply_val wss)), c') \<and> ready c'
     \<and> cn_tx (cl_rwc c') = cn_tx (cl_rwc c) @ encodeSentence ws
     \<and> rs_in (cn_rx (cl_rwc c')) = rest"
proof -
  have "cn_rx (cl_rwc c) = \<lparr>rs_in = encodeSentences wss @ rest, rs_end = rs_end (cn_rx (cl_rwc c))\<rparr>"
    using assms(4) by (cases "cn_rx (cl_rwc c)") simp
  then have "readReply decode (cn_rx (cl_rwc c))
      = (Inr (reply_val wss), \<lparr>rs_in = rest, rs_end = rs_end (cn_rx (cl_rwc c))\<rparr>)"
    using readReply_encoded [OF assms(2,3)] by metis
  with Run_ready [OF assms(1), of decode ws] show ?thesis by auto
qed

text \<open>
  Property C6: a command and its answer.  On a ready client, when the device answers with data
  sentences and \<^verbatim>\<open>!done\<close>, \<open>Run\<close> sends exactly the encoded command, returns the data in order
  with the \<^verbatim>\<open>!done\<close> sentence, consumes exactly the answer, and the client is ready again.
\<close>

theorem Run_roundtrip:
  assumes "ready c" and "ascii_decoder decode" and "good_reply wss"
    and "rs_in (cn_rx (cl_rwc c)) = encodeSentences wss @ rest"
  shows "\<exists>c'. Run decode ws c = (Return (Inr (reply_val wss)), c') \<and> ready c'
     \<and> cn_tx (cl_rwc c') = cn_tx (cl_rwc c) @ encodeSentence ws
     \<and> rs_in (cn_rx (cl_rwc c')) = rest"
  by (rule Run_reply_ok [OF assms])

lemma ascii_sentence [simp]:
  "ascii_word s \<longleftrightarrow> (\<forall>c \<in> set s. char_code c < 128) \<and> length s < 2 ^ 32"
  by (simp add: ascii_word_def is_ascii_def)

lemma good_reply_example:
  "good_reply [[''!re'', ''=name=r1''], [''!done'']]"
  "reply_val [[''!re'', ''=name=r1''], [''!done'']] =
     \<lparr>rep_done = Some \<lparr>sen_map = [], sen_word = ''!done'', sen_tag = ''''\<rparr>,
      rep_re = [\<lparr>sen_map = [(''name'', ''r1'')], sen_word = ''!re'', sen_tag = ''''\<rparr>]\<rparr>"
  by (simp_all add: good_reply_def good_sentence_def char_code_def sentence_val_def
      NewSentence_def add_word_def has_prefix_def mput_def reply_val_def)

theorem Run_roundtrip_witness:
  "\<exists>c'. Run ascii_only [''/system/identity/print'']
         (NewClient (test_conn (encodeSentences [[''!re'', ''=name=r1''], [''!done'']] @ [9])))
       = (Return (Inr (reply_val [[''!re'', ''=name=r1''], [''!done'']])), c')
     \<and> cn_tx (cl_rwc c') = encodeSentence [''/system/identity/print'']
     \<and> rs_in (cn_rx (cl_rwc c')) = [9]"
  using Run_roundtrip [of "NewClient (test_conn (encodeSentences [[''!re'', ''=name=r1''], [''!done'']] @ [9]))"
      ascii_only "[[''!re'', ''=name=r1''], [''!done'']]" "[9]" "[''/system/identity/print'']"]
    good_reply_example
  by (auto simp: ready_def idle_def stuck_writer_def NewClient_def NewWriter_def writable_def test_conn_def)

text \<open>A reply as a whole: what the list of sentences up to the first that ends a reply says.\<close>

definition verdict :: "sentence list \<Rightarrow> sentence \<Rightarrow> halt + reply" where
  "verdict body s =
     (if sen_word s = ''!done''
      then (case last_trap body of None \<Rightarrow> Inr \<lparr>rep_done = Some s, rep_re = data_of body\<rparr> | Some err \<Rightarrow> Inl (Failed err))
      else if sen_word s = ''!fatal'' then Inl (Failed (DeviceError s))
      else Inl (Failed (UnknownReplyError s)))"

definition goes_on :: "sentence \<Rightarrow> bool" where
  "goes_on s \<longleftrightarrow> body_word (sen_word s)"

definition reference_reply :: "sentence list \<Rightarrow> ((halt + reply) \<times> sentence list) option" where
  "reference_reply sens =
     (case dropWhile goes_on sens of
        [] \<Rightarrow> None
      | s # left_over \<Rightarrow> Some (verdict (takeWhile goes_on sens) s, left_over))"

lemma reply_step_verdict:
  assumes "\<not> goes_on s"
  shows "reply_step (empty_reply\<lparr>rep_re := data_of body\<rparr>) (last_trap body) s = Stop (verdict body s)"
proof -
  consider "sen_word s = ''!done''" | "sen_word s = ''!fatal''" | "sen_word s \<noteq> ''!done''" "sen_word s \<noteq> ''!fatal''" by blast
  then show ?thesis
  proof cases
    case 3
    with assms show ?thesis by (simp add: goes_on_def reply_step_unknown verdict_def)
  qed (simp_all add: reply_step_simps verdict_def empty_reply_def split: option.split)
qed

lemma fold_reply_reference: "fold_reply empty_reply None sens = reference_reply sens"
proof -
  let ?b = "takeWhile goes_on sens" and ?l = "dropWhile goes_on sens"
  have "\<forall>s \<in> set ?b. body_word (sen_word s)" using set_takeWhileD [of _ goes_on sens] by (auto simp: goes_on_def)
  from fold_reply_body [OF this, of empty_reply None ?l]
  have f: "fold_reply empty_reply None sens = fold_reply (empty_reply\<lparr>rep_re := data_of ?b\<rparr>) (last_trap ?b) ?l"
    by (simp add: empty_reply_def split: option.splits)
  show ?thesis
  proof (cases ?l)
    case Nil
    with f have "fold_reply empty_reply None sens = None" by (simp only: fold_reply.simps)
    moreover have "reference_reply sens = None" unfolding reference_reply_def Nil by (simp only: list.case)
    ultimately show ?thesis by simp
  next
    case (Cons s left_over)
    then have "\<not> goes_on s" by (metis dropWhile_eq_Cons_conv)
    with f Cons show ?thesis by (simp add: reference_reply_def reply_step_verdict)
  qed
qed

lemma read_sentences_body:
  assumes "ascii_decoder decode"
  shows "\<forall>ws \<in> set wss. good_sentence ws \<and> goes_on (sentence_val ws) \<Longrightarrow>
     read_sentences decode r l \<lparr>rs_in = encodeSentences wss @ rest, rs_end = e\<rparr>
     = read_sentences decode (r\<lparr>rep_re := rep_re r @ data_of (map sentence_val wss)\<rparr>)
         (case last_trap (map sentence_val wss) of None \<Rightarrow> l | Some err \<Rightarrow> Some err) \<lparr>rs_in = rest, rs_end = e\<rparr>"
proof (induction wss arbitrary: r l)
  case Nil
  then show ?case by (simp add: data_of_def last_trap_def)
next
  case (Cons ws wss)
  have rd: "ReadSentence decode \<lparr>rs_in = encodeSentence ws @ encodeSentences wss @ rest, rs_end = e\<rparr>
      = (Inr (sentence_val ws), \<lparr>rs_in = encodeSentences wss @ rest, rs_end = e\<rparr>)"
    using ReadSentence_encoded [OF assms, of ws "encodeSentences wss @ rest" e] Cons.prems by simp
  have w: "sen_word (sentence_val ws) \<in> {''!re'', ''!trap'', '''', ''!empty''}"
    using Cons.prems by (simp add: goes_on_def body_word_def)
  have g: "\<forall>ws \<in> set wss. good_sentence ws \<and> goes_on (sentence_val ws)" using Cons.prems by simp
  have "read_sentences decode r l \<lparr>rs_in = encodeSentence ws @ encodeSentences wss @ rest, rs_end = e\<rparr>
     = read_sentences decode (r\<lparr>rep_re := rep_re r @ data_of (map sentence_val (ws # wss))\<rparr>)
         (case last_trap (map sentence_val (ws # wss)) of None \<Rightarrow> l | Some err \<Rightarrow> Some err) \<lparr>rs_in = rest, rs_end = e\<rparr>"
    unfolding read_sentences.simps [of decode r l "\<lparr>rs_in = encodeSentence ws @ encodeSentences wss @ rest, rs_end = e\<rparr>"] rd
    using w by (auto simp: reply_step_simps Cons.IH [OF g] data_of_def last_trap_Cons split: option.splits)
  then show ?case by simp
qed

text \<open>
  Property C18: \<open>readReply\<close> is equivalent to a reference definition on whole sentences.  For every list of
  sentences on the wire, with anything behind them, it gives what the sentences up to the first that
  is not data, a trap or empty say: that one \<^verbatim>\<open>!done\<close> gives the data or the last trap, \<^verbatim>\<open>!fatal\<close> and unknown
  words give an error at once.  The sentences after it stay on the wire.  When none of them ends the reply, it
  goes on with what follows.
\<close>

theorem readReply_equivalence:
  assumes "ascii_decoder decode" and "\<forall>ws \<in> set wss. good_sentence ws"
  shows "readReply decode \<lparr>rs_in = encodeSentences wss @ rest, rs_end = e\<rparr> =
     (case reference_reply (map sentence_val wss) of
        Some (res, left_over) \<Rightarrow>
          (res, \<lparr>rs_in = encodeSentences (drop (length wss - length left_over) wss) @ rest, rs_end = e\<rparr>)
      | None \<Rightarrow> read_sentences decode (empty_reply\<lparr>rep_re := data_of (map sentence_val wss)\<rparr>)
          (last_trap (map sentence_val wss)) \<lparr>rs_in = rest, rs_end = e\<rparr>)"
proof -
  let ?go = "goes_on \<circ> sentence_val"
  let ?b = "takeWhile ?go wss" and ?l = "dropWhile ?go wss"
  have b: "\<forall>ws \<in> set ?b. good_sentence ws \<and> goes_on (sentence_val ws)"
    using assms(2) set_takeWhileD [of _ ?go wss] by fastforce
  have sp: "encodeSentences wss @ rest = encodeSentences ?b @ encodeSentences ?l @ rest"
    by (simp flip: encodeSentences_simps(3) append_assoc)
  have r: "readReply decode \<lparr>rs_in = encodeSentences wss @ rest, rs_end = e\<rparr>
      = read_sentences decode (empty_reply\<lparr>rep_re := data_of (map sentence_val ?b)\<rparr>)
          (last_trap (map sentence_val ?b)) \<lparr>rs_in = encodeSentences ?l @ rest, rs_end = e\<rparr>"
    unfolding readReply_def sp using read_sentences_body [OF assms(1) b, of empty_reply None "encodeSentences ?l @ rest" e]
    by (simp add: empty_reply_def split: option.splits)
  show ?thesis
  proof (cases ?l)
    case Nil
    then have b: "?b = wss" by (metis append_Nil2 takeWhile_dropWhile_id)
    have n: "reference_reply (map sentence_val wss) = None"
      unfolding reference_reply_def dropWhile_map Nil by simp
    show ?thesis unfolding r [unfolded Nil b] n by simp
  next
    case (Cons ws left_over)
    have n: "\<not> goes_on (sentence_val ws)" using Cons by (metis comp_apply dropWhile_eq_Cons_conv)
    have w: "wss = ?b @ ws # left_over" using Cons takeWhile_dropWhile_id [of ?go wss] by simp
    then have "ws \<in> set wss" by (metis in_set_conv_decomp)
    then have "good_sentence ws" using assms(2) by blast
    then have rd: "ReadSentence decode \<lparr>rs_in = encodeSentences ?l @ rest, rs_end = e\<rparr>
        = (Inr (sentence_val ws), \<lparr>rs_in = encodeSentences left_over @ rest, rs_end = e\<rparr>)"
      using ReadSentence_encoded [OF assms(1), of ws "encodeSentences left_over @ rest" e] Cons by simp
    have ref: "reference_reply (map sentence_val wss)
        = Some (verdict (map sentence_val ?b) (sentence_val ws), map sentence_val left_over)"
      using Cons by (simp add: reference_reply_def dropWhile_map takeWhile_map)
    have "length wss = Suc (length ?b + length left_over)" using arg_cong [OF w, of length] by simp
    then have "drop (length wss - length left_over) wss = drop (Suc (length ?b)) (?b @ ws # left_over)"
      using w by simp
    then have d: "drop (length wss - length left_over) wss = left_over" by simp
    show ?thesis
      unfolding r ref read_sentences.simps [of decode _ _ "\<lparr>rs_in = encodeSentences ?l @ rest, rs_end = e\<rparr>"] rd
      by (simp add: reply_step_verdict [OF n] d)
  qed
qed

theorem readReply_equivalence_witness:
  "readReply ascii_only \<lparr>rs_in = encodeSentences [[''!re''], [''!fatal'', ''=message=no''], [''!done'']], rs_end = Silent\<rparr>
     = (Inl (Failed (DeviceError (sentence_val [''!fatal'', ''=message=no'']))),
        \<lparr>rs_in = encodeSentences [[''!done'']], rs_end = Silent\<rparr>)"
proof -
  let ?wss = "[[''!re''], [''!fatal'', ''=message=no''], [''!done'']]"
  have g: "\<forall>ws \<in> set ?wss. good_sentence ws" by (simp add: good_sentence_def char_code_def add_word_def NewSentence_def has_prefix_def)
  have "reference_reply (map sentence_val ?wss)
      = Some (Inl (Failed (DeviceError (sentence_val [''!fatal'', ''=message=no'']))), [sentence_val [''!done'']])"
    by code_simp
  with readReply_equivalence [OF ascii_only g, of "[]" Silent] show ?thesis by simp
qed

text \<open>
  Property C36: a reply that is cut short is never taken for a reply.  On every proper prefix of an
  encoded reply \<open>readReply\<close> fails, when the stream ends there with an error, and waits for ever exactly when
  the peer is silent.
\<close>

theorem readReply_truncated:
  assumes "ascii_decoder decode" and "good_reply wss"
    and "encodeSentences wss = p @ q" and "q \<noteq> []"
  shows "\<exists>err st. readReply decode \<lparr>rs_in = p, rs_end = e\<rparr> = (Inl err, st) \<and> (err = Silent \<longleftrightarrow> e = Silent)"
  by (rule stream_codec.truncated [OF reply_codec [OF assms(1)] assms(2-4)])

theorem readReply_truncated_witness:
  "\<exists>err st. readReply ascii_only \<lparr>rs_in = encodeSentence [''!re'', ''=name=r1''], rs_end = Failed EOF\<rparr>
     = (Inl (Failed err), st)"
proof -
  have "encodeSentence [''!done''] \<noteq> []" by (simp add: encodeSentence_def encodeWord_def encodeLength_def)
  from readReply_truncated [OF ascii_only good_reply_example(1) _ this,
      of "encodeSentence [''!re'', ''=name=r1'']" "Failed EOF"]
  show ?thesis by (auto simp: not_Silent)
qed

text \<open>
  The other side of \<open>Run_contract\<close>: a device that takes the command and falls silent before its answer is
  complete, be it at once, blocks the caller for ever.
\<close>

lemma Run_silent:
  assumes "ready c" and "ascii_decoder decode" and "good_reply wss"
    and "encodeSentences wss = p @ q" and "q \<noteq> []"
    and "cn_rx (cl_rwc c) = \<lparr>rs_in = p, rs_end = Silent\<rparr>"
  shows "\<exists>c'. Run decode ws c = (Blocked, c')"
proof -
  obtain st where "readReply decode \<lparr>rs_in = p, rs_end = Silent\<rparr> = (Inl Silent, st)"
    using stream_codec.truncated [OF reply_codec [OF assms(2)] assms(3-5), of Silent] by auto
  with Run_ready [OF assms(1), of decode ws] assms(6) show ?thesis by auto
qed

lemma Run_error:
  assumes "idle c" and "Run decode ws c = (Return (Inl e), c')"
  shows "e \<noteq> ErrLoginNoRet"
proof -
  have "read_sentences decode r l st = (Inl (Failed e), st') \<Longrightarrow> l \<noteq> Some ErrLoginNoRet \<Longrightarrow> e \<noteq> ErrLoginNoRet"
    for r l st st'
  proof (induction decode r l st rule: read_sentences.induct)
    case (1 decode r l st)
    show ?case
    proof (cases "ReadSentence decode st")
      case (Pair res st1)
      show ?thesis
      proof (cases res)
        case (Inl x)
        with Pair "1.prems" show ?thesis by (subst (asm) read_sentences.simps) (cases x; auto)
      next
        case (Inr sen)
        show ?thesis
        proof (cases "reply_step r l sen")
          case (Stop x)
          with Pair Inr "1.prems" have "x = Inl (Failed e)" by (subst (asm) read_sentences.simps) simp
          with Stop "1.prems"(2) show ?thesis
            by (auto simp: reply_step_def processSentence_def split: if_splits option.splits)
        next
          case (Continue r1 l1)
          with Pair Inr "1.prems" have "read_sentences decode r1 l1 st1 = (Inl (Failed e), st')"
            by (subst (asm) read_sentences.simps) simp
          moreover from Continue "1.prems"(2) have "l1 \<noteq> Some ErrLoginNoRet"
            by (auto simp: reply_step_def processSentence_def split: if_splits option.splits)
          ultimately show ?thesis using "1.IH" [OF Pair [symmetric] Inr Continue] by simp
        qed
      qed
    qed
  qed
  with RunArgs_run [OF assms(1), of decode ws] assms(2) show ?thesis
    by (auto simp: Run_def readReply_def Let_def as_outcome_eq split: option.splits halt.splits prod.splits)
qed


lemma Login_meets:
  assumes "meets b c"
  shows "(\<exists>err c'. Login decode user password c = (Return err, c') \<and> meets b c' \<and> err \<noteq> Some ErrLoginNoRet)
     \<or> b \<and> fst (Login decode user password c) = Blocked"
proof (rule routeros.run_cases [OF assms, of decode "[''/login'', ''=name='' @ user, ''=password='' @ password]"])
  have i: "idle c" using assms by (simp add: meets_def)
  fix e c1
  assume r: "Run decode [''/login'', ''=name='' @ user, ''=password='' @ password] c = (Return (Inl e), c1)"
    and "meets b c1"
  with Run_error [OF i r] show ?thesis by (auto simp: Login_def gbind_def)
next
  fix c1
  assume "Run decode [''/login'', ''=name='' @ user, ''=password='' @ password] c = (Blocked, c1)" and b
  then show ?thesis by (simp add: Login_def gbind_def)
next
  fix r d c1
  assume run: "Run decode [''/login'', ''=name='' @ user, ''=password='' @ password] c = (Return (Inr r), c1)"
    and i: "meets b c1" and d: "rep_done r = Some d"
  show ?thesis
  proof (cases "mget (sen_map d) ''ret''")
    case None
    with run i d show ?thesis by (auto simp: Login_def gbind_def)
  next
    case (Some ret)
    show ?thesis
    proof (cases "hex_decode ret")
      case (Inl e)
      with Some run i d show ?thesis by (auto simp: Login_def gbind_def)
    next
      case (Inr cha)
      let ?ws = "[''/login'', ''=name='' @ user, ''=response='' @ challengeResponse cha password]"
      have i1: "idle c1" using i by (simp add: meets_def)
      from Run_meets [OF i, of decode ?ws] show ?thesis
      proof (elim disjE exE conjE)
        fix res c2 assume r2: "Run decode ?ws c1 = (Return res, c2)" and i2: "meets b c2"
        have "res = Inl e \<Longrightarrow> e \<noteq> ErrLoginNoRet" for e using Run_error [OF i1] r2 by blast
        with Inr Some run d r2 i2 show ?thesis
          by (auto simp: Login_def gbind_def split: sum.splits)
      next
        assume "b" "fst (Run decode ?ws c1) = Blocked"
        with Inr Some run d show ?thesis
          by (cases "Run decode ?ws c1") (simp add: Login_def gbind_def)
      qed
    qed
  qed
qed

text \<open>
  Property C25: the login against old devices.  The device answers the first \<^verbatim>\<open>/login\<close> with a
  challenge; the client then sends \<^verbatim>\<open>00\<close> and the hex MD5 of a zero byte, the password and the
  challenge, and is logged in when the device accepts.  Exactly the two commands go out.
\<close>

theorem Login_challenge:
  assumes "ready c" and "ascii_decoder decode"
    and "good_reply wss1" and "good_reply wss2"
    and "rs_in (cn_rx (cl_rwc c)) = encodeSentences wss1 @ encodeSentences wss2 @ rest"
    and "mget (sen_map (sentence_val (last wss1))) ''ret'' = Some ret" and "hex_decode ret = Inr cha"
  shows "\<exists>c'. Login decode user password c = (Return None, c') \<and> ready c'
     \<and> cn_tx (cl_rwc c') = cn_tx (cl_rwc c)
         @ encodeSentence [''/login'', ''=name='' @ user, ''=password='' @ password]
         @ encodeSentence [''/login'', ''=name='' @ user,
             ''=response=00'' @ hex_encode (md5 (0 # bytes_of password @ cha))]
     \<and> rs_in (cn_rx (cl_rwc c')) = rest"
proof -
  obtain c1 where 1: "Run decode [''/login'', ''=name='' @ user, ''=password='' @ password] c
        = (Return (Inr (reply_val wss1)), c1)" "ready c1"
      "cn_tx (cl_rwc c1) = cn_tx (cl_rwc c)
         @ encodeSentence [''/login'', ''=name='' @ user, ''=password='' @ password]"
      "rs_in (cn_rx (cl_rwc c1)) = encodeSentences wss2 @ rest"
    using Run_reply_ok [OF assms(1-3), of "encodeSentences wss2 @ rest"] assms(5) by blast
  obtain c2 where 2: "Run decode [''/login'', ''=name='' @ user, ''=response='' @ challengeResponse cha password] c1
        = (Return (Inr (reply_val wss2)), c2)" "ready c2"
      "cn_tx (cl_rwc c2) = cn_tx (cl_rwc c1)
         @ encodeSentence [''/login'', ''=name='' @ user, ''=response='' @ challengeResponse cha password]"
      "rs_in (cn_rx (cl_rwc c2)) = rest"
    using Run_reply_ok [OF 1(2) assms(2,4) 1(4)] by blast
  have "rep_done (reply_val wss1) = Some (sentence_val (last wss1))" by (simp add: reply_val_def)
  with 1 2 assms(6,7) show ?thesis
    by (simp add: Login_def gbind_def challengeResponse_def)
qed


theorem Login_challenge_witness:
  "\<exists>c'. Login ascii_only ''admin'' ''x'' (NewClient (test_conn
       (encodeSentences [[''!done'', ''=ret=00ff'']] @ encodeSentences [[''!done'']] @ []))) = (Return None, c')
     \<and> cn_tx (cl_rwc c') = encodeSentence [''/login'', ''=name=admin'', ''=password=x'']
         @ encodeSentence [''/login'', ''=name=admin'',
             ''=response=00'' @ hex_encode (md5 (0 # bytes_of ''x'' @ [0, 255]))]"
proof -
  let ?c = "NewClient (test_conn (encodeSentences [[''!done'', ''=ret=00ff'']] @ encodeSentences [[''!done'']] @ []))"
  have h: "hex_decode ''00ff'' = Inr [0, 255]" by code_simp
  have r: "ready ?c"
    by (simp add: ready_def idle_def stuck_writer_def NewClient_def NewWriter_def writable_def test_conn_def)
  have g1: "good_reply [[''!done'', ''=ret=00ff'']]"
    and v: "mget (sen_map (sentence_val (last [[''!done'', ''=ret=00ff'']]))) ''ret'' = Some ''00ff''"
    and g2: "good_reply [[''!done'']]"
    by (simp_all add: good_reply_def good_sentence_def char_code_def sentence_val_def NewSentence_def
        add_word_def has_prefix_def)
  have i: "rs_in (cn_rx (cl_rwc ?c))
      = encodeSentences [[''!done'', ''=ret=00ff'']] @ encodeSentences [[''!done'']] @ []"
    and t: "cn_tx (cl_rwc ?c) = []"
    by (simp_all only: NewClient_def test_conn_def client.simps conn.simps rstream.simps)
  from Login_challenge [where user = "''admin''" and password = "''x''", OF r ascii_only g1 g2 i v h, unfolded t append_Nil append_Cons]
  show ?thesis by auto
qed

text \<open>Only \<open>Close\<close> closes a client.\<close>

lemma keeps_on_link [keeps_rules]: "keeps (\<lambda>c. cl_closing c = x) (on_link m)"
  by (rule keepsI) (simp add: on_link_def split: prod.split)

lemma keeps_on_input [keeps_rules]: "keeps (\<lambda>c. cl_closing c = x) (on_input d)"
  by (rule keepsI) (simp add: on_input_def split: prod.split)

lemma keeps_Run [keeps_rules]: "keeps (\<lambda>c. cl_closing c = x) (Run decode ws)"
  unfolding Run_def RunArgs_def endCommandSync_def by (intro keeps_rules)

lemma keeps_Login: "keeps (\<lambda>c. cl_closing c = x) (Login decode user password)"
  unfolding Login_def by (intro keeps_rules)

definition dialed_login :: "string \<Rightarrow> (byte list \<Rightarrow> goerror + string) \<Rightarrow> goerror + conn \<Rightarrow> string \<Rightarrow> string
    \<Rightarrow> (goerror + client) outcome \<times> client option" where
  \<comment> \<open>the four ways to dial differ in the dialer and in the text of its error; with the result comes the client
     that was made, if one was\<close>
  "dialed_login fmt decode dialed username password =
     (case dialed of
        Inl err \<Rightarrow> (Return (Inl (Wrapf fmt [] err)), None)
      | Inr con \<Rightarrow>
          (case newClientAndLogin decode username password (NewClient con) of
             (Return (Inr _), cl) \<Rightarrow> (Return (Inr cl), Some cl)
           | (Return (Inl e), cl) \<Rightarrow> (Return (Inl e), Some cl)
           | (Panicked p, cl) \<Rightarrow> (Panicked p, Some cl)
           | (Blocked, cl) \<Rightarrow> (Blocked, Some cl)))"

definition Dial :: "(byte list \<Rightarrow> goerror + string) \<Rightarrow> (string \<Rightarrow> goerror + conn) \<Rightarrow> string \<Rightarrow> string \<Rightarrow> string
    \<Rightarrow> (goerror + client) outcome \<times> client option" where
  "Dial decode net address = dialed_login ''dial error: %w'' decode (net address)"

definition DialContext :: "(byte list \<Rightarrow> goerror + string) \<Rightarrow> (string \<Rightarrow> goerror + conn) \<Rightarrow> string \<Rightarrow> string \<Rightarrow> string
    \<Rightarrow> (goerror + client) outcome \<times> client option" where
  \<comment> \<open>the dialer has the context\<close>
  "DialContext decode dialer address = dialed_login ''dial error: %w'' decode (dialer address)"

definition DialTLS :: "(byte list \<Rightarrow> goerror + string) \<Rightarrow> (string \<Rightarrow> goerror + conn) \<Rightarrow> string \<Rightarrow> string \<Rightarrow> string
    \<Rightarrow> (goerror + client) outcome \<times> client option" where
  "DialTLS decode tls address = dialed_login ''tls dial error: %w'' decode (tls address)"

definition DialTLSContext :: "(byte list \<Rightarrow> goerror + string) \<Rightarrow> (string \<Rightarrow> goerror + conn) \<Rightarrow> string \<Rightarrow> string
    \<Rightarrow> string \<Rightarrow> (goerror + client) outcome \<times> client option" where
  "DialTLSContext decode dialer address = dialed_login ''tls dial error: %w'' decode (dialer address)"

definition dialed_well :: "goerror + conn \<Rightarrow> (goerror + client) outcome \<times> client option \<Rightarrow> bool" where
  \<comment> \<open>an error leaves no open connection; a client that is returned is open and ready for commands; only a
     peer that has accepted the connection and is silent keeps the caller waiting\<close>
  "dialed_well dialed res \<longleftrightarrow> (case res of
       (Return (Inl e), made) \<Rightarrow> e \<noteq> ErrLoginNoRet
          \<and> (case made of None \<Rightarrow> (\<exists>err fmt. dialed = Inl err \<and> e = Wrapf fmt [] err)
             | Some cl \<Rightarrow> cl_closing cl \<and> cn_closed (cl_rwc cl))
     | (Return (Inr cl), made) \<Rightarrow> made = Some cl \<and> idle cl \<and> \<not> cl_closing cl
     | (Blocked, made) \<Rightarrow> (case dialed of Inl err \<Rightarrow> False | Inr con \<Rightarrow> silent con)
     | (Panicked p, made) \<Rightarrow> False)"

lemma newClientAndLogin_ends:
  "(\<exists>res c. newClientAndLogin decode user password (NewClient rwc) = (Return res, c)
     \<and> (case res of Inl e \<Rightarrow> e \<noteq> ErrLoginNoRet \<and> cl_closing c \<and> cn_closed (cl_rwc c)
        | Inr _ \<Rightarrow> idle c \<and> \<not> cl_closing c))
   \<or> silent rwc \<and> fst (newClientAndLogin decode user password (NewClient rwc)) = Blocked"
proof -
  have i: "meets (silent rwc) (NewClient rwc)" by (simp add: meets_def)
  obtain r c1 where l: "Login decode user password (NewClient rwc) = (r, c1)" by fastforce
  have "\<not> cl_closing c1" using keepsD [OF keeps_Login _ l, of False] by simp
  with Login_meets [OF i, of decode user password] l show ?thesis
    by (cases r)
       (auto simp: newClientAndLogin_def gseq_def gbind_def Close_def meets_def split: option.splits)
qed

lemma dialed_login_well: "dialed_well dialed (dialed_login fmt decode dialed user password)"
proof (cases dialed)
  case (Inr con)
  from newClientAndLogin_ends [of decode user password con] show ?thesis
  proof (elim disjE exE conjE)
    fix res c
    assume "newClientAndLogin decode user password (NewClient con) = (Return res, c)"
      and "case res of Inl e \<Rightarrow> e \<noteq> ErrLoginNoRet \<and> cl_closing c \<and> cn_closed (cl_rwc c)
        | Inr _ \<Rightarrow> idle c \<and> \<not> cl_closing c"
    with Inr show ?thesis by (cases res) (simp_all add: dialed_login_def dialed_well_def)
  next
    assume "silent con" and "fst (newClientAndLogin decode user password (NewClient con)) = Blocked"
    with Inr show ?thesis
      by (cases "newClientAndLogin decode user password (NewClient con)") (simp add: dialed_login_def dialed_well_def)
  qed
qed (simp add: dialed_login_def dialed_well_def)

text \<open>
  Property C40: dialing and logging in, in each of the four ways.  Whatever the dialer gives and
  the device answers, the call does not panic on \<^verbatim>\<open>r.Done.Map\<close>, which \<open>Login\<close> reads before it tests
  \<^verbatim>\<open>r.Done\<close>.  With an error no open connection is left behind, and it is never \<^verbatim>\<open>ErrLoginNoRet\<close>, the error of
  that test; otherwise the client is open and ready for commands.  The call returns unless the
  device has accepted the connection and is silent then: no deadline covers the login.
\<close>

theorem Dial_contract:
  "dialed_well (net address) (Dial decode net address user password)
   \<and> dialed_well (net address) (DialContext decode net address user password)
   \<and> dialed_well (net address) (DialTLS decode net address user password)
   \<and> dialed_well (net address) (DialTLSContext decode net address user password)"
  by (simp add: Dial_def DialContext_def DialTLS_def DialTLSContext_def dialed_login_well)

end
