(* ===== verification/Collectors.thy ===== *)
theory Collectors
  imports Metrics Client
begin

text \<open>
  Package \<^verbatim>\<open>internal/collectors\<close>, the common part: the interface \<open>RouterOSCollector\<close>, the registry of
  constructors, and the statements the collectors are made of.  A collector is its \<open>Describe\<close>
  and \<open>Collect\<close> methods; its constructor builds its metrics and may panic while it does.
\<close>

section \<open>Collectors and the registry\<close>

record 'w RouterOSCollector =
  rc_Describe :: "desc list"
  rc_Collect :: "'w ctx \<Rightarrow> ('w mstate, goerror option) gom"

record 'w RegisteredCollector =
  reg_instFunc :: "'w RouterOSCollector outcome"
  reg_Name :: string
  reg_Description :: string

definition registerCollector :: "string \<Rightarrow> 'w RouterOSCollector outcome \<Rightarrow> string
    \<Rightarrow> 'w RegisteredCollector gomap \<Rightarrow> 'w RegisteredCollector gomap" where
  "registerCollector name instFunc description registered =
     mput name \<lparr>reg_instFunc = instFunc, reg_Name = name, reg_Description = description\<rparr> registered"

definition InstanateCollector :: "'w RegisteredCollector gomap \<Rightarrow> string
    \<Rightarrow> 'w RouterOSCollector option outcome" where
  "InstanateCollector registered name =
     (case mget registered name of
        Some f \<Rightarrow> obind (reg_instFunc f) (\<lambda>k. Return (Some k))
      | None \<Rightarrow> Return None)"

definition AvailableCollectorsNames :: "'w RegisteredCollector gomap \<Rightarrow> string list" where
  "AvailableCollectorsNames registered = mkeys registered"

definition AvailableCollectors :: "'w RegisteredCollector gomap \<Rightarrow> 'w RegisteredCollector list" where
  "AvailableCollectors registered = map snd registered"


section \<open>Statements of the collectors\<close>

definition client_run :: "'w ctx \<Rightarrow> string list \<Rightarrow> ('w mstate, goerror + reply) gom" where
  \<comment> \<open>\<^verbatim>\<open>ctx.Client.Run(sentence...)\<close>\<close>
  "client_run c sentence = on_world (cx_Client c sentence)"

definition fetch :: "'w ctx \<Rightarrow> string list \<Rightarrow> string \<Rightarrow> string list
    \<Rightarrow> (reply \<Rightarrow> ('w mstate, goerror option) gom) \<Rightarrow> ('w mstate, goerror option) gom" where
  \<comment> \<open>\<^verbatim>\<open>reply, err := ctx.Client.Run(...); if err != nil { return fmt.Errorf(fmt, args..., err) }\<close>\<close>
  "fetch c sentence fmt args k =
     gbind (client_run c sentence) (\<lambda>r. case r of
       Inl err \<Rightarrow> gret (Some (Wrapf fmt args err))
     | Inr reply \<Rightarrow> k reply)"

definition done_map :: "reply \<Rightarrow> (string gomap \<Rightarrow> ('w mstate, 'a) gom) \<Rightarrow> ('w mstate, 'a) gom" where
  \<comment> \<open>\<^verbatim>\<open>reply.Done.Map\<close>\<close>
  "done_map reply k =
     (case rep_done reply of None \<Rightarrow> gpanic NilDereference | Some d \<Rightarrow> k (sen_map d))"

definition wrapped :: "string \<Rightarrow> string list \<Rightarrow> ('s, goerror option) gom \<Rightarrow> ('s, goerror option) gom" where
  \<comment> \<open>\<^verbatim>\<open>if err := m(); err != nil { \<dots> fmt.Errorf(fmt, args..., err) \<dots> }\<close>\<close>
  "wrapped fmt args m = gbind m (\<lambda>e. gret (wrap_err fmt args e))"

definition unless_err :: "('s, goerror option) gom \<Rightarrow> ('s, goerror option) gom \<Rightarrow> ('s, goerror option) gom" where
  \<comment> \<open>\<^verbatim>\<open>if err := m(); err != nil { return err }; k\<close>\<close>
  "unless_err m k = gbind m (\<lambda>e. case e of Some _ \<Rightarrow> gret e | None \<Rightarrow> k)"

fun join_all :: "('s, goerror option) gom list \<Rightarrow> goerror option list \<Rightarrow> ('s, goerror option) gom" where
  \<comment> \<open>\<^verbatim>\<open>errors.Join(m1(), m2(), \<dots>)\<close>: the calls in order, then the join; the second argument holds
     the results so far\<close>
  "join_all [] es = gret (errors_join es)"
| "join_all (m # ms) es = gbind m (\<lambda>e. join_all ms (es @ [e]))"

definition emit_for :: "'w ctx \<Rightarrow> string list \<Rightarrow> desc \<Rightarrow> ValueType \<Rightarrow> f64 \<Rightarrow> ('w mstate, unit) gom" where
  \<comment> \<open>a sample with the labels \<^verbatim>\<open>ctx.Device.Name, ctx.Device.Address, labels...\<close>\<close>
  "emit_for c labels d t v = emit (WithLabels labels c) d t v"

fun oall :: "'a outcome list \<Rightarrow> 'a list outcome" where
  \<comment> \<open>a list literal: its elements are made in order\<close>
  "oall [] = Return []"
| "oall (m # ms) = obind m (\<lambda>x. obind (oall ms) (\<lambda>xs. Return (x # xs)))"


definition as_collector :: "('k \<Rightarrow> desc list) \<Rightarrow> ('k \<Rightarrow> 'w ctx \<Rightarrow> ('w mstate, goerror option) gom)
    \<Rightarrow> 'k outcome \<Rightarrow> 'w RouterOSCollector outcome" where
  \<comment> \<open>a constructed struct as a value of the interface\<close>
  "as_collector describe collect new =
     obind new (\<lambda>k. Return \<lparr>rc_Describe = describe k, rc_Collect = collect k\<rparr>)"


section \<open>The contract of a collector\<close>

text \<open>
  A collector is given a client that meets the contract \<open>ro_client\<close>.  Whatever the device answers and
  whatever the metric library accepts, a safe collector returns or panics, and waits for ever only where
  its client may (\<open>wait\<close>), it
  keeps the client usable (\<open>survives\<close>), and it sends only metrics whose first two labels are the
  name and address of the device (\<open>sends\<close>).  A device collector also returns (\<open>returns\<close>) when the metric
  library accepts as many label values as a description has labels.  An announcing collector sends
  only metrics it lists in \<open>Describe\<close>.
\<close>

definition fresh_ctx :: "'w ctx \<Rightarrow> bool" where
  "fresh_ctx c \<longleftrightarrow> cx_Labels c = [dev_Name (cx_Device c), dev_Address (cx_Device c)]"

definition library_ok :: "'w ctx \<Rightarrow> bool" where
  "library_ok c \<longleftrightarrow> (\<forall>d ls. length ls = length (dc_labels d) \<longrightarrow> cx_accepts c d ls)"

definition of_device :: "'w ctx \<Rightarrow> metric \<Rightarrow> bool" where
  "of_device c x \<longleftrightarrow> (\<exists>ls. mt_labels x = [dev_Name (cx_Device c), dev_Address (cx_Device c)] @ ls)"

definition announced :: "desc list \<Rightarrow> metric \<Rightarrow> bool" where
  "announced ds x \<longleftrightarrow> mt_desc x \<in> set ds"

definition client_ok :: "('w \<Rightarrow> bool) \<Rightarrow> 'w mstate \<Rightarrow> bool" where
  "client_ok I s \<longleftrightarrow> I (ms_world s)"

locale safe_collector =
  fixes new :: "'w RouterOSCollector outcome"
  assumes built: "\<exists>k. new = Return k"
    and sends: "new = Return k \<Longrightarrow> fresh_ctx c \<Longrightarrow> emits (of_device c) (rc_Collect k c)"
    and survives: "new = Return k \<Longrightarrow> fresh_ctx c \<Longrightarrow> ro_client (cx_Client c) I wait \<Longrightarrow>
           safe wait (client_ok I) (rc_Collect k c)"

locale device_collector = safe_collector +
  assumes returns: "new = Return k \<Longrightarrow> fresh_ctx c \<Longrightarrow> library_ok c \<Longrightarrow> ro_client (cx_Client c) I wait \<Longrightarrow>
           ok wait (client_ok I) (rc_Collect k c) (\<lambda>_. client_ok I)"

locale announcing_collector = device_collector +
  assumes announces: "new = Return k \<Longrightarrow> fresh_ctx c \<Longrightarrow> emits (announced (rc_Describe k)) (rc_Collect k c)"

context safe_collector
begin

lemma attempted:
  assumes "new = Return k" and "fresh_ctx c" and "ro_client (cx_Client c) I wait"
    and "I (ms_world s)" and "rc_Collect k c s = (r, s')"
  shows "(if r = Blocked then wait else I (ms_world s'))
     \<and> (\<exists>sent. ms_ch s' = ms_ch s @ sent \<and> (\<forall>x \<in> set sent. of_device c x))"
  using safeD [OF survives [OF assms(1-3)] _ assms(5)] assms(4) emitsD [OF sends [OF assms(1,2)] assms(5)]
  by (auto simp: client_ok_def)

end

context device_collector
begin

lemma collected:
  assumes "new = Return k" and "fresh_ctx c" and "library_ok c" and "ro_client (cx_Client c) I wait"
    and "I (ms_world s)"
  shows "(\<exists>err s' sent. rc_Collect k c s = (Return err, s') \<and> I (ms_world s')
       \<and> ms_ch s' = ms_ch s @ sent \<and> (\<forall>x \<in> set sent. of_device c x))
     \<or> wait \<and> fst (rc_Collect k c s) = Blocked"
proof -
  have i: "client_ok I s" using assms(5) by (simp add: client_ok_def)
  obtain r s' where r: "rc_Collect k c s = (r, s')" by fastforce
  from returns [OF assms(1-4)] i r show ?thesis
  proof (cases rule: ok_cases)
    case (1 err)
    with emitsD [OF sends [OF assms(1,2)] r] r show ?thesis by (auto simp: client_ok_def)
  qed (use r in simp)
qed

end


subsection \<open>Rules that prove the contract\<close>

lemma emits_client_run [emits_rules]: "emits P (client_run c ws)"
  unfolding client_run_def by (rule emits_on_world)

lemma emits_fetch [emits_rules]: "(\<And>r. emits P (k r)) \<Longrightarrow> emits P (fetch c ws fmt args k)"
  unfolding fetch_def by (intro emits_rules)

lemma emits_done_map [emits_rules]: "(\<And>m. emits P (k m)) \<Longrightarrow> emits P (done_map r k)"
  unfolding done_map_def by (intro emits_rules)

lemma emits_wrapped [emits_rules]: "emits P m \<Longrightarrow> emits P (wrapped fmt args m)"
  unfolding wrapped_def by (intro emits_rules)

lemma emits_unless_err [emits_rules]: "emits P m \<Longrightarrow> emits P k \<Longrightarrow> emits P (unless_err m k)"
  unfolding unless_err_def by (intro emits_rules)

lemma emits_join_all [emits_rules]: "(\<And>m. m \<in> set ms \<Longrightarrow> emits P m) \<Longrightarrow> emits P (join_all ms es)"
proof (induction ms arbitrary: es)
  case (Cons m ms)
  then show ?case unfolding join_all.simps by (intro emits_gbind) auto
qed (simp only: join_all.simps emits_gret)

lemma emits_metric: "(\<And>x. mt_desc x \<in> set (Describe m) \<Longrightarrow> mt_labels x = cx_Labels c \<Longrightarrow> P x)
    \<Longrightarrow> emits P (Collect m reply c)"
  by (rule emits_weaken [OF metric.sends]) (simp add: labelled_def)

lemma emits_metrics: "(\<And>x. mt_desc x \<in> set (list_Describe ms) \<Longrightarrow> mt_labels x = cx_Labels c \<Longrightarrow> P x)
    \<Longrightarrow> emits P (list_Collect ms reply c)"
  by (rule emits_weaken [OF metrics.sends]) (simp add: labelled_def)

lemma emits_emit_for:
  "(\<And>v. P \<lparr>mt_desc = d, mt_type = t, mt_value = v,
      mt_labels = [dev_Name (cx_Device c), dev_Address (cx_Device c)] @ ls\<rparr>) \<Longrightarrow> emits P (emit_for c ls d t v)"
  unfolding emit_for_def by (rule emits_emit) (simp add: WithLabels_def)

definition replied :: "reply \<Rightarrow> bool" where
  "replied r \<longleftrightarrow> (\<exists>d. rep_done r = Some d)"

named_theorems runs_rules \<open>rules that prove that a collector returns\<close>

lemma runs_gret [runs_rules]: "ok wait (client_ok I) (gret x) (\<lambda>_. client_ok I)"
  by (rule ok_gret)

lemma runs_client:
  assumes "ro_client (cx_Client c) I wait"
  shows "ok wait (client_ok I) (client_run c ws)
           (\<lambda>res s. client_ok I s \<and> (\<forall>r. res = Inr r \<longrightarrow> replied r))"
  unfolding ok_def
proof (intro allI impI)
  fix s assume "client_ok I s"
  then have i: "I (ms_world s)" by (simp add: client_ok_def)
  show "(\<exists>res s'. client_run c ws s = (Return res, s') \<and> client_ok I s' \<and> (\<forall>r. res = Inr r \<longrightarrow> replied r))
     \<or> wait \<and> fst (client_run c ws s) = Blocked"
    by (rule ro_client.run_cases [OF assms i, of ws])
       (auto simp: client_run_def on_world_def client_ok_def replied_def)
qed

lemma runs_fetch [runs_rules]:
  assumes "ro_client (cx_Client c) I wait"
    and "\<And>r. replied r \<Longrightarrow> ok wait (client_ok I) (k r) (\<lambda>_. client_ok I)"
  shows "ok wait (client_ok I) (fetch c ws fmt args k) (\<lambda>_. client_ok I)"
  unfolding fetch_def
proof (rule ok_gbind [OF runs_client [OF assms(1)]])
  fix res
  show "ok wait (\<lambda>s. client_ok I s \<and> (\<forall>r. res = Inr r \<longrightarrow> replied r))
      (case res of Inl err \<Rightarrow> gret (Some (Wrapf fmt args err)) | Inr r \<Rightarrow> k r) (\<lambda>_. client_ok I)"
    using assms(2) by (cases res) (auto simp: ok_def)
qed

lemma runs_done_map [runs_rules]:
  "replied r \<Longrightarrow> (\<And>m. ok wait P (k m) Q) \<Longrightarrow> ok wait P (done_map r k) Q"
  by (auto simp: done_map_def replied_def)

lemma runs_wrapped [runs_rules]:
  "ok wait P m (\<lambda>_. P) \<Longrightarrow> ok wait P (wrapped fmt args m) (\<lambda>_. P)"
  unfolding wrapped_def by (erule ok_gbind) (rule ok_gret)

lemma runs_unless_err [runs_rules]:
  "ok wait P m (\<lambda>_. P) \<Longrightarrow> ok wait P k (\<lambda>_. P) \<Longrightarrow> ok wait P (unless_err m k) (\<lambda>_. P)"
  unfolding unless_err_def by (erule ok_gbind) (intro ok_option ok_gret)

lemma runs_join_all [runs_rules]:
  "(\<And>m. m \<in> set ms \<Longrightarrow> ok wait P m (\<lambda>_. P)) \<Longrightarrow> ok wait P (join_all ms es) (\<lambda>_. P)"
proof (induction ms arbitrary: es)
  case (Cons m ms)
  then show ?case unfolding join_all.simps by (intro ok_gbind [where R = "\<lambda>_. P"]) auto
qed (simp only: join_all.simps ok_gret_same)

lemma runs_join_loop [runs_rules]:
  "(\<And>x. x \<in> set xs \<Longrightarrow> ok wait P (f x) (\<lambda>_. P)) \<Longrightarrow> ok wait P (join_loop f xs e) (\<lambda>_. P)"
proof (induction xs arbitrary: e)
  case (Cons x xs)
  then show ?case unfolding join_loop.simps by (intro ok_gbind [where R = "\<lambda>_. P"]) auto
qed (simp only: join_loop.simps ok_gret_same)

lemma runs_gseq [runs_rules]: "ok wait P m (\<lambda>_. P) \<Longrightarrow> ok wait P k (\<lambda>_. P) \<Longrightarrow> ok wait P (gseq m k) (\<lambda>_. P)"
  by (rule ok_gseq)

lemma ok_all_worlds:
  "(\<And>w. ok False (\<lambda>s. ms_world s = w) m (\<lambda>_ s. ms_world s = w)) \<Longrightarrow> ok wait (client_ok I) m (\<lambda>_. client_ok I)"
  unfolding ok_def client_ok_def by metis

definition fits :: "PropertyMetric list \<Rightarrow> nat \<Rightarrow> bool" where
  \<comment> \<open>all descriptions of the metrics have \<open>n\<close> labels\<close>
  "fits ms n \<longleftrightarrow> (\<forall>m \<in> set ms. \<forall>d \<in> set (Describe m). length (dc_labels d) = n)"

lemma fits_simps [simp]:
  "fits [] n" "fits (m # ms) n \<longleftrightarrow> (\<forall>d \<in> set (Describe m). length (dc_labels d) = n) \<and> fits ms n"
  by (simp_all add: fits_def)

lemma Describe_built: "d \<in> set (Describe (build_metric b)) \<Longrightarrow> dc_labels d = pb_labels b"
  by (auto simp: build_metric_def Let_def newStatusPropertyMetric_def descriptionForPropertyNameHelpText_def
      split: metricType.splits)

lemma fits_built [simp]:
  "length (pb_labels b) = n \<Longrightarrow> \<forall>d \<in> set (Describe (build_metric (prepare b))). length (dc_labels d) = n"
  using Describe_built [of _ "prepare b"] by (auto simp: prepare_def)

lemma runs_metrics:
  "library_ok c \<Longrightarrow> fits ms (length (cx_Labels c)) \<Longrightarrow>
     ok wait (client_ok I) (list_Collect ms reply c) (\<lambda>_. client_ok I)"
  by (intro ok_all_worlds metrics.returns)
     (auto simp: accepted_def fits_def library_ok_def list_Describe_def)

lemma runs_metric:
  "library_ok c \<Longrightarrow> fits [m] (length (cx_Labels c)) \<Longrightarrow>
     ok wait (client_ok I) (Collect m reply c) (\<lambda>_. client_ok I)"
  by (intro ok_all_worlds metric.returns) (auto simp: accepted_def fits_def library_ok_def)

lemma runs_emit_for:
  "library_ok c \<Longrightarrow> length (dc_labels d) = 2 + length ls \<Longrightarrow>
     ok wait (client_ok I) (emit_for c ls d t v) (\<lambda>_. client_ok I)"
  unfolding emit_for_def by (intro ok_all_worlds ok_emit) (simp add: library_ok_def WithLabels_def)

lemma runs_emit:
  "library_ok c \<Longrightarrow> length (dc_labels d) = length (cx_Labels c) \<Longrightarrow>
     ok wait (client_ok I) (emit c d t v) (\<lambda>_. client_ok I)"
  by (intro ok_all_worlds ok_emit) (simp add: library_ok_def)

lemma library_ok_simps [simp]:
  "library_ok (WithLabels ls c) = library_ok c" "library_ok (WithLabelsFromMap m ns c) = library_ok c"
  "library_ok (AppendLabelsFromMap m ns c) = library_ok c"
  by (simp_all add: library_ok_def WithLabels_def WithLabelsFromMap_def AppendLabelsFromMap_def)

lemma ctx_simps [simp]:
  "cx_Client (WithLabels ls c) = cx_Client c" "cx_Client (WithLabelsFromMap m ns c) = cx_Client c"
  "cx_Client (AppendLabelsFromMap m ns c) = cx_Client c"
  "cx_Device (WithLabels ls c) = cx_Device c" "cx_Device (WithLabelsFromMap m ns c) = cx_Device c"
  "cx_Device (AppendLabelsFromMap m ns c) = cx_Device c"
  "cx_Labels (WithLabels ls c) = [dev_Name (cx_Device c), dev_Address (cx_Device c)] @ ls"
  "cx_Labels (WithLabelsFromMap m ns c) = [dev_Name (cx_Device c), dev_Address (cx_Device c)] @ map (mlookup m) ns"
  "cx_Labels (AppendLabelsFromMap m ns c) = cx_Labels c @ map (mlookup m) ns"
  by (simp_all add: WithLabels_def WithLabelsFromMap_def AppendLabelsFromMap_def)

text \<open>Rules that prove that a collector is safe.\<close>

lemma safe_client_run [safe_rules]:
  assumes "ro_client (cx_Client c) I wait" shows "safe wait (client_ok I) (client_run c ws)"
  by (rule ok_safe, rule ok_weaken [OF runs_client [OF assms]]) simp_all

lemma safe_fetch [safe_rules]:
  "ro_client (cx_Client c) I wait \<Longrightarrow> (\<And>r. safe wait (client_ok I) (k r)) \<Longrightarrow> safe wait (client_ok I) (fetch c ws fmt args k)"
  unfolding fetch_def by (intro safe_rules)

lemma safe_done_map [safe_rules]: "(\<And>m. safe wait P (k m)) \<Longrightarrow> safe wait P (done_map r k)"
  unfolding done_map_def by (intro safe_rules)

lemma safe_wrapped [safe_rules]: "safe wait P m \<Longrightarrow> safe wait P (wrapped fmt args m)"
  unfolding wrapped_def by (intro safe_rules)

lemma safe_unless_err [safe_rules]: "safe wait P m \<Longrightarrow> safe wait P k \<Longrightarrow> safe wait P (unless_err m k)"
  unfolding unless_err_def by (intro safe_rules)

lemma safe_join_all [safe_rules]: "(\<And>m. m \<in> set ms \<Longrightarrow> safe wait P m) \<Longrightarrow> safe wait P (join_all ms es)"
proof (induction ms arbitrary: es)
  case (Cons m ms)
  then show ?case unfolding join_all.simps by (intro safe_gbind) auto
qed (simp only: join_all.simps safe_gret)

lemma safe_join_loop [safe_rules]: "(\<And>x. x \<in> set xs \<Longrightarrow> safe wait P (f x)) \<Longrightarrow> safe wait P (join_loop f xs e)"
proof (induction xs arbitrary: e)
  case (Cons x xs)
  then show ?case unfolding join_loop.simps by (intro safe_gbind) auto
qed (simp only: join_loop.simps safe_gret)

lemma safe_emit [safe_rules]: "safe wait (client_ok I) (emit c d t v)"
  unfolding emit_def by (intro safe_rules safe_gupdate) (simp add: client_ok_def)

lemma safe_emit_for [safe_rules]: "safe wait (client_ok I) (emit_for c ls d t v)"
  unfolding emit_for_def by (rule safe_emit)

lemma safe_status_loop: "safe wait (client_ok I) (status_loop c v ds)"
  by (induction c v ds rule: status_loop.induct) (simp_all only: status_loop.simps safe_gret safe_gseq safe_emit)

lemma safe_Collect [safe_rules]: "safe wait (client_ok I) (Collect m reply c)"
  by (cases m; simp only: Collect.simps simple_Collect_def rxTx_Collect_def status_Collect_def const_Collect_def
      ret_Collect_def Let_def; intro safe_rules safe_status_loop)

lemma safe_list_Collect [safe_rules]: "safe wait (client_ok I) (list_Collect ms reply c)"
  unfolding list_Collect_def by (intro safe_rules)

text \<open>What the constructors evaluate to.\<close>

lemmas build_simps = Build_def NewPropertyCounterMetric_def NewPropertyGaugeMetric_def NewPropertyRxTxMetric_def
  NewPropertyStatusMetric_def NewPropertyConstMetric_def NewPropertyRetMetric_def WithName_def WithHelp_def
  WithConverter_def WithRxTxConverter_def WithDefault_def new_builder_def Let_def Description_def

text \<open>The contract of a constructed struct, from what its methods do.\<close>

lemma safe_collectorI:
  assumes "new = Return a"
    and "\<And>c. fresh_ctx c \<Longrightarrow> emits (of_device c) (collect a c)"
    and "\<And>c I wait. ro_client (cx_Client c) I wait \<Longrightarrow> safe wait (client_ok I) (collect a c)"
  shows "safe_collector (as_collector describe collect new)"
  using assms by unfold_locales (auto simp: as_collector_def)

lemma device_collectorI:
  assumes "new = Return a"
    and "\<And>c. fresh_ctx c \<Longrightarrow> emits (of_device c) (collect a c)"
    and "\<And>c I wait. ro_client (cx_Client c) I wait \<Longrightarrow> safe wait (client_ok I) (collect a c)"
    and "\<And>c I wait. fresh_ctx c \<Longrightarrow> library_ok c \<Longrightarrow> ro_client (cx_Client c) I wait \<Longrightarrow>
           ok wait (client_ok I) (collect a c) (\<lambda>_. client_ok I)"
  shows "device_collector (as_collector describe collect new)"
  using assms by unfold_locales (auto simp: as_collector_def)

lemma announcing_collectorI:
  fixes collect :: "'k \<Rightarrow> 'w ctx \<Rightarrow> ('w mstate, goerror option) gom"
  assumes "new = Return a"
    and "\<And>c. fresh_ctx c \<Longrightarrow> emits (\<lambda>x. announced (describe a) x \<and> of_device c x) (collect a c)"
    and "\<And>c I wait. ro_client (cx_Client c) I wait \<Longrightarrow> safe wait (client_ok I) (collect a c)"
    and "\<And>c I wait. fresh_ctx c \<Longrightarrow> library_ok c \<Longrightarrow> ro_client (cx_Client c) I wait \<Longrightarrow>
           ok wait (client_ok I) (collect a c) (\<lambda>_. client_ok I)"
  shows "announcing_collector (as_collector describe collect new)"
proof (intro announcing_collector.intro announcing_collector_axioms.intro)
  show "device_collector (as_collector describe collect new)"
    by (rule device_collectorI [OF assms(1)]) (use assms(2-4) in \<open>blast intro: emits_weaken\<close>)+
  fix k :: "'w RouterOSCollector" and c :: "'w ctx"
  assume "as_collector describe collect new = Return k" and "fresh_ctx c"
  with assms(1) show "emits (announced (rc_Describe k)) (rc_Collect k c)"
    by (auto simp: as_collector_def intro!: emits_weaken [OF assms(2)])
qed

declare join_all.simps [simp del] join_loop.simps [simp del]

lemmas contract_emits = emits_rules emits_metric emits_metrics emits_emit_for
lemmas contract_runs = runs_rules runs_metric runs_metrics runs_emit_for ok_sum ok_if ok_option
lemmas contract_simps = announced_def of_device_def fresh_ctx_def list_Describe_def eval_nat_numeral

end
