(* ===== verification/Collectors_A.thy ===== *)
theory Collectors_A
  imports Collectors
begin

text \<open>
  The collectors \<^verbatim>\<open>arp\<close>, \<^verbatim>\<open>capsman\<close>, \<^verbatim>\<open>certs\<close>, \<^verbatim>\<open>cloud\<close>, \<^verbatim>\<open>conntrack\<close> and \<^verbatim>\<open>container\<close>: a record for
  each struct, its constructor, \<open>Describe\<close> and \<open>Collect\<close> with their helpers, and the
  interpretation of the collector contract on it.
\<close>

section \<open>arp\<close>

record arpCollector =
  arp_metrics :: PropertyMetric
  arp_statuses :: desc
  arp_invalid :: PropertyMetric
  arp_statusesNames :: "string list"

definition newARPCollector :: "arpCollector outcome" where
  "newARPCollector =
     (let prefix = ''arp'';
          labelNames = [''client_address'', LabelInterface, ''mac_address'', LabelComment, ''dhcp'', ''dynamic'']
      in obind (Build (WithConverter MetricFromBool (NewPropertyGaugeMetric prefix ''complete'' labelNames)))
           (\<lambda>complete. obind (Build (NewPropertyRetMetric prefix ''invalid'' []))
           (\<lambda>invalid. Return
             \<lparr>arp_metrics = complete,
              arp_statuses = Description prefix ''status'' ''arp entry statuses''
                               [LabelDevName, LabelDevAddress, ''status''],
              arp_invalid = invalid,
              arp_statusesNames = [''failed'', ''incomplete'']\<rparr>)))"

definition arp_Describe :: "arpCollector \<Rightarrow> desc list" where
  "arp_Describe k = Describe (arp_metrics k) @ [arp_statuses k] @ Describe (arp_invalid k)"

fun emit_counts :: "'w ctx \<Rightarrow> desc \<Rightarrow> (string \<times> int) list \<Rightarrow> ('w mstate, goerror option) gom" where
  \<comment> \<open>\<^verbatim>\<open>for status, count := range counter { ctx.Ch <- ... }\<close>\<close>
  "emit_counts c d [] = gret None"
| "emit_counts c d ((key, cnt) # counter) =
     gseq (emit_for c [key] d GaugeValue (f64_of_int cnt)) (emit_counts c d counter)"

definition arp_collectEntries :: "arpCollector \<Rightarrow> 'w ctx \<Rightarrow> ('w mstate, goerror option) gom" where
  "arp_collectEntries k c =
     fetch c [''/ip/arp/print'', ''?complete=true'',
              ''=.proplist=address,mac-address,interface,comment,dynamic,dhcp,complete,status'']
       ''fetch arp error: %w'' [] (\<lambda>reply.
     unless_err (emit_counts c (arp_statuses k) (CountByProperty (rep_re reply) ''status''))
     (if \<not> BoolValue (cx_FeatureCfg c) ''details'' False then gret None
      else join_loop (\<lambda>re. wrapped ''collect error: %w'' []
             (Collect (arp_metrics k) (sen_map re)
               (WithLabelsFromMap (sen_map re)
                 [''address'', ''interface'', ''mac-address'', ''comment'', ''dhcp'', ''dynamic''] c)))
           (rep_re reply) None))"

definition arp_collectStatuses :: "arpCollector \<Rightarrow> 'w ctx \<Rightarrow> ('w mstate, goerror option) gom" where
  "arp_collectStatuses k c =
     join_loop (\<lambda>status.
       fetch c [''/ip/arp/print'', ''?status='' @ status, ''=count-only='']
         ''fetch arp status %q  error: %w'' [status] (\<lambda>reply.
       done_map reply (\<lambda>m.
       case MetricFromString (mlookup m ''ret'') of
         Inr cnt \<Rightarrow> gseq (emit_for c [status] (arp_statuses k) GaugeValue cnt) (gret None)
       | Inl err \<Rightarrow> gret (Some (Wrapf ''parse ret %v error: %w'' [] err)))))
     (arp_statusesNames k) None"

definition arp_collectInvalid :: "arpCollector \<Rightarrow> 'w ctx \<Rightarrow> ('w mstate, goerror option) gom" where
  "arp_collectInvalid k c =
     fetch c [''/ip/arp/print'', ''?invalid=true'', ''=count-only='']
       ''fetch arp invalid cnt  error: %w'' [] (\<lambda>reply.
     done_map reply (\<lambda>m.
     wrapped ''collect arp invalid cnt error: %w'' [] (Collect (arp_invalid k) m c)))"

definition arp_Collect :: "arpCollector \<Rightarrow> 'w ctx \<Rightarrow> ('w mstate, goerror option) gom" where
  "arp_Collect k c = join_all [arp_collectEntries k c, arp_collectStatuses k c, arp_collectInvalid k c] []"

lemma emits_counts: "(\<And>v ls. P \<lparr>mt_desc = d, mt_type = GaugeValue, mt_value = v,
    mt_labels = [dev_Name (cx_Device c), dev_Address (cx_Device c)] @ ls\<rparr>) \<Longrightarrow> emits P (emit_counts c d ks)"
proof (induction ks)
  case (Cons x ks)
  then show ?case by (cases x) (simp only: emit_counts.simps, intro emits_gseq emits_emit_for, simp_all)
qed (simp only: emit_counts.simps emits_gret)

lemma runs_counts:
  "library_ok c \<Longrightarrow> length (dc_labels d) = 3 \<Longrightarrow> ok wait (client_ok I) (emit_counts c d ks) (\<lambda>_. client_ok I)"
proof (induction ks)
  case (Cons x ks)
  then show ?case by (cases x) (simp only: emit_counts.simps, intro runs_gseq runs_emit_for, simp_all)
qed (simp only: emit_counts.simps ok_gret_same)

lemma safe_counts [safe_rules]: "safe wait (client_ok I) (emit_counts c d ks)"
  by (induction c d ks rule: emit_counts.induct) (simp_all only: emit_counts.simps safe_gret safe_gseq safe_emit_for)

lemmas arp_defs = arp_Collect_def arp_collectEntries_def arp_collectStatuses_def arp_collectInvalid_def

lemma arp_new:
  "\<exists>k. newARPCollector = Return k \<and> fits [arp_metrics k] 8 \<and> fits [arp_invalid k] 2
     \<and> length (dc_labels (arp_statuses k)) = 3"
  by (simp add: newARPCollector_def build_simps)

interpretation arp: announcing_collector "as_collector arp_Describe arp_Collect newARPCollector"
proof -
  obtain k where k: "newARPCollector = Return k" and shape: "fits [arp_metrics k] 8" "fits [arp_invalid k] 2"
    "length (dc_labels (arp_statuses k)) = 3" using arp_new by blast
  show "announcing_collector (as_collector arp_Describe arp_Collect newARPCollector)"
    by (rule announcing_collectorI [OF k]; unfold arp_defs)
       (use shape in \<open>auto intro!: contract_emits contract_runs safe_rules emits_counts runs_counts
          simp: contract_simps arp_Describe_def\<close>)
qed


section \<open>capsman\<close>

record capsmanCollector =
  cps_stations :: "PropertyMetric list"
  cps_interfaces :: "PropertyMetric list"
  cps_interfacesStatus :: PropertyMetric
  cps_radiosProvisionedDesc :: PropertyMetric

definition newCapsmanCollector :: "capsmanCollector outcome" where
  "newCapsmanCollector =
     (let prefixStation = ''capsman_station''; prefixIface = ''capsman_interface'';
          labelNames = [LabelInterface, ''mac_address'', ''ssid'', ''eap_identity'', LabelComment];
          radioLabelNames = [LabelInterface, ''radio_mac'', ''remote_cap_identity'', ''remote_cap_name''];
          ifaceLabelNames = [LabelInterface, ''mac_address'', ''configuration'', ''master_interface''];
          ifaceStatusLabelNames = [LabelInterface, ''mac_address'', ''configuration'', ''master_interface'',
                                   ''current_state'']
      in obind (oall
           [Build (WithName ''uptime_seconds'' (WithConverter MetricFromDuration
              (NewPropertyCounterMetric prefixStation ''uptime'' labelNames))),
            Build (NewPropertyGaugeMetric prefixStation ''tx-signal'' labelNames),
            Build (NewPropertyGaugeMetric prefixStation ''rx-signal'' labelNames),
            Build (NewPropertyRxTxMetric prefixStation ''packets'' labelNames),
            Build (NewPropertyRxTxMetric prefixStation ''bytes'' labelNames)])
         (\<lambda>stations. obind (oall
           [Build (NewPropertyGaugeMetric prefixIface ''current-authorized-clients'' ifaceLabelNames),
            Build (NewPropertyGaugeMetric prefixIface ''current-registered-clients'' ifaceLabelNames),
            Build (WithConverter MetricFromBool (NewPropertyGaugeMetric prefixIface ''running'' ifaceLabelNames)),
            Build (WithConverter MetricFromBool (NewPropertyGaugeMetric prefixIface ''master'' ifaceLabelNames)),
            Build (WithConverter MetricFromBool (NewPropertyGaugeMetric prefixIface ''inactive'' ifaceLabelNames))])
         (\<lambda>interfaces. obind (Build (WithName ''state''
              (NewPropertyConstMetric prefixIface ''current-state'' ifaceStatusLabelNames)))
         (\<lambda>interfacesStatus. obind (Build (WithConverter MetricFromBool
              (WithHelp ''Status of provision remote radios'' (WithName ''radio_provisioned''
              (NewPropertyGaugeMetric ''capsman'' ''provisioned'' radioLabelNames)))))
         (\<lambda>radios. Return \<lparr>cps_stations = stations, cps_interfaces = interfaces,
            cps_interfacesStatus = interfacesStatus, cps_radiosProvisionedDesc = radios\<rparr>)))))"

definition capsman_Describe :: "capsmanCollector \<Rightarrow> desc list" where
  "capsman_Describe k = Describe (cps_radiosProvisionedDesc k) @ list_Describe (cps_interfaces k)
     @ Describe (cps_interfacesStatus k) @ list_Describe (cps_stations k)"

definition capsman_collectRegistrations :: "capsmanCollector \<Rightarrow> 'w ctx \<Rightarrow> ('w mstate, goerror option) gom" where
  "capsman_collectRegistrations k c =
     (if \<not> BoolValue (cx_FeatureCfg c) ''stations'' False then gret None
      else fetch c [''/caps-man/registration-table/print'',
          ''=.proplist=interface,mac-address,ssid,uptime,tx-signal,rx-signal,packets,bytes,eap-identity,comment'']
        ''fetch capsman reg error: %w'' [] (\<lambda>reply.
      join_loop (\<lambda>re. wrapped ''collect registrations error: %w'' []
          (list_Collect (cps_stations k) (sen_map re)
            (WithLabelsFromMap (sen_map re)
              [''interface'', ''mac-address'', ''ssid'', ''eap-identity'', ''comment''] c)))
        (rep_re reply) None))"

definition capsman_collectInterfaces :: "capsmanCollector \<Rightarrow> 'w ctx \<Rightarrow> ('w mstate, goerror option) gom" where
  "capsman_collectInterfaces k c =
     fetch c [''/caps-man/interface/print'', ''?disabled=false'',
         ''=.proplist=name,mac-address,configuration,current-state,master-interface,''
         @ ''current-authorized-clients,current-registered-clients,running,master,inactive,disabled'']
       ''fetch capsman interfaces error: %w'' [] (\<lambda>reply.
     join_loop (\<lambda>m. m) (concat (map (\<lambda>re.
         let lctx = WithLabelsFromMap (sen_map re)
               [''name'', ''mac-address'', ''configuration'', ''master-interface''] c
         in [wrapped ''collect interfaces error: %w'' [] (list_Collect (cps_interfaces k) (sen_map re) lctx),
             wrapped ''collect interfaces error: %w'' []
               (Collect (cps_interfacesStatus k) (sen_map re)
                 (AppendLabelsFromMap (sen_map re) [''current-state''] lctx))])
       (rep_re reply))) None)"

definition capsman_collectRadiosProvisioned :: "capsmanCollector \<Rightarrow> 'w ctx
    \<Rightarrow> ('w mstate, goerror option) gom" where
  "capsman_collectRadiosProvisioned k c =
     fetch c [''/caps-man/radio/print'',
         ''=.proplist=interface,radio-mac,remote-cap-identity,remote-cap-name,provisioned'']
       ''fetch capsman radio error: %w'' [] (\<lambda>reply.
     join_loop (\<lambda>re. wrapped ''collect provisions error: %w'' []
         (Collect (cps_radiosProvisionedDesc k) (sen_map re)
           (WithLabelsFromMap (sen_map re)
             [''interface'', ''radio-mac'', ''remote-cap-identity'', ''remote-cap-name''] c)))
       (rep_re reply) None)"

definition capsman_Collect :: "capsmanCollector \<Rightarrow> 'w ctx \<Rightarrow> ('w mstate, goerror option) gom" where
  "capsman_Collect k c = join_all
     [capsman_collectRegistrations k c, capsman_collectInterfaces k c, capsman_collectRadiosProvisioned k c] []"

lemmas capsman_defs = capsman_Collect_def capsman_collectRegistrations_def capsman_collectInterfaces_def
  capsman_collectRadiosProvisioned_def

lemma capsman_new:
  "\<exists>k. newCapsmanCollector = Return k \<and> fits (cps_stations k) 7 \<and> fits (cps_interfaces k) 6
     \<and> fits [cps_interfacesStatus k] 7 \<and> fits [cps_radiosProvisionedDesc k] 6"
  by (simp add: newCapsmanCollector_def build_simps)

interpretation capsman: announcing_collector "as_collector capsman_Describe capsman_Collect newCapsmanCollector"
proof -
  obtain k where k: "newCapsmanCollector = Return k" and shape: "fits (cps_stations k) 7"
    "fits (cps_interfaces k) 6" "fits [cps_interfacesStatus k] 7" "fits [cps_radiosProvisionedDesc k] 6"
    using capsman_new by blast
  show "announcing_collector (as_collector capsman_Describe capsman_Collect newCapsmanCollector)"
    by (rule announcing_collectorI [OF k]; unfold capsman_defs)
       (use shape in \<open>auto intro!: contract_emits contract_runs safe_rules simp: contract_simps capsman_Describe_def Let_def\<close>)
qed


section \<open>certs\<close>

record certsCollector =
  cert_metrics :: "PropertyMetric list"

definition newCertsCollector :: "certsCollector outcome" where
  "newCertsCollector =
     (let prefix = ''cert''; labelNames = [''cert-name'', ''common-name'', ''issuer'', ''serial-number'']
      in obind (oall [Build (WithConverter ParseTS (NewPropertyGaugeMetric prefix ''invalid-after'' labelNames))])
           (\<lambda>ms. Return \<lparr>cert_metrics = ms\<rparr>))"

definition certs_Describe :: "certsCollector \<Rightarrow> desc list" where
  "certs_Describe k = list_Describe (cert_metrics k)"

definition certs_Collect :: "certsCollector \<Rightarrow> 'w ctx \<Rightarrow> ('w mstate, goerror option) gom" where
  "certs_Collect k c =
     fetch c [''/certificate/print'', ''=.proplist=name,common-name,issuer,serial-number,invalid-after'']
       ''fetch certificate info error: %w'' [] (\<lambda>reply.
     join_loop (\<lambda>re. wrapped ''collect error: %w'' []
         (list_Collect (cert_metrics k) (sen_map re)
           (WithLabelsFromMap (sen_map re) [''name'', ''common-name'', ''issuer'', ''serial-number''] c)))
       (rep_re reply) None)"

lemma certs_new: "\<exists>k. newCertsCollector = Return k \<and> fits (cert_metrics k) 6"
  by (simp add: newCertsCollector_def build_simps)

interpretation certs: announcing_collector "as_collector certs_Describe certs_Collect newCertsCollector"
proof -
  obtain k where k: "newCertsCollector = Return k" and shape: "fits (cert_metrics k) 6" using certs_new by blast
  show "announcing_collector (as_collector certs_Describe certs_Collect newCertsCollector)"
    by (rule announcing_collectorI [OF k]; unfold certs_Collect_def)
       (use shape in \<open>auto intro!: contract_emits contract_runs safe_rules simp: contract_simps certs_Describe_def\<close>)
qed


section \<open>cloud\<close>

record cloudCollector =
  cld_ifaceStatus :: PropertyMetric
  cld_ddnsEnabled :: PropertyMetric
  cld_bthMetrics :: "PropertyMetric list"
  cld_bthActiveUsers :: PropertyMetric

definition bthRelayStatus :: ValueConverter where
  "bthRelayStatus val = Inr (if has_prefix val ''reachable'' then f64_one else f64_zero)"

definition newCloudCollector :: "cloudCollector outcome" where
  "newCloudCollector =
     (let prefix = ''cloud''
      in obind (Build (NewPropertyConstMetric prefix ''status'' [''status'']))
         (\<lambda>ifaceStatus. obind (Build (WithConverter MetricFromBool (NewPropertyGaugeMetric prefix ''ddns-enabled'' [])))
         (\<lambda>ddnsEnabled. obind (oall
           [Build (WithConverter MetricFromEnabled (WithName ''bth_vpn_enabled''
              (NewPropertyGaugeMetric prefix ''back-to-home-vpn'' []))),
            Build (WithDefault ''unknown'' (WithConverter MetricFromRunning (WithName ''bth_vpn_running''
              (NewPropertyGaugeMetric prefix ''vpn-status'' [])))),
            Build (WithConverter bthRelayStatus (WithName ''bth_vpn_relay_ipv4_reachable''
              (NewPropertyGaugeMetric prefix ''vpn-relay-ipv4-status'' []))),
            Build (WithConverter bthRelayStatus (WithName ''bth_vpn_relay_ipv6_reachable''
              (NewPropertyGaugeMetric prefix ''vpn-relay-ipv6-status'' [])))])
         (\<lambda>bthMetrics. obind (Build (WithHelp ''number of active bth users''
              (NewPropertyRetMetric prefix ''bth_users'' [])))
         (\<lambda>bthActiveUsers. Return \<lparr>cld_ifaceStatus = ifaceStatus, cld_ddnsEnabled = ddnsEnabled,
            cld_bthMetrics = bthMetrics, cld_bthActiveUsers = bthActiveUsers\<rparr>)))))"

definition cloud_Describe :: "cloudCollector \<Rightarrow> desc list" where
  "cloud_Describe k = Describe (cld_ifaceStatus k) @ list_Describe (cld_bthMetrics k)
     @ Describe (cld_bthActiveUsers k)"

definition cloud_Collect :: "cloudCollector \<Rightarrow> 'w ctx \<Rightarrow> ('w mstate, goerror option) gom" where
  "cloud_Collect k c =
     fetch c [''/ip/cloud/print''] ''get cloud error: %w'' [] (\<lambda>reply.
     case rep_re reply of
       [re] \<Rightarrow>
         unless_err (wrapped ''collect error: %w'' []
           (Collect (cld_ifaceStatus k) (sen_map re) (WithLabels [mlookup (sen_map re) ''status''] c)))
         (unless_err (wrapped ''collect error: %w'' [] (Collect (cld_ddnsEnabled k) (sen_map re) c))
         (if fv_Major (dev_FirmwareVersion (cx_Device c)) < 7 then gret None
          else unless_err (wrapped ''collect error: %w'' [] (list_Collect (cld_bthMetrics k) (sen_map re) c))
          (fetch c [''/ip/cloud/back-to-home-user/print'', ''?active=true'', ''=count-only='']
            ''fetch active bth users error: %w'' [] (\<lambda>reply'.
           done_map reply' (\<lambda>m. wrapped ''parse ret %v error: %w'' [] (Collect (cld_bthActiveUsers k) m c))))))
     | _ \<Rightarrow> gret (Some (UnexpectedResponseError ''get cloud returned more than 1 record'' reply)))"

lemma cloud_new:
  "\<exists>k. newCloudCollector = Return k \<and> fits [cld_ifaceStatus k] 3 \<and> fits [cld_ddnsEnabled k] 2
     \<and> fits (cld_bthMetrics k) 2 \<and> fits [cld_bthActiveUsers k] 2"
  by (simp add: newCloudCollector_def build_simps)

interpretation cloud: device_collector "as_collector cloud_Describe cloud_Collect newCloudCollector"
proof -
  obtain k where k: "newCloudCollector = Return k" and shape: "fits [cld_ifaceStatus k] 3"
    "fits [cld_ddnsEnabled k] 2" "fits (cld_bthMetrics k) 2" "fits [cld_bthActiveUsers k] 2"
    using cloud_new by blast
  show "device_collector (as_collector cloud_Describe cloud_Collect newCloudCollector)"
    by (rule device_collectorI [OF k]; unfold cloud_Collect_def)
       (use shape in \<open>auto intro!: contract_emits contract_runs safe_rules simp: contract_simps split: list.split\<close>)
qed


section \<open>conntrack\<close>

record conntrackCollector =
  ctk_totalEntries :: PropertyMetric
  ctk_maxEntries :: PropertyMetric

definition newConntrackCollector :: "conntrackCollector outcome" where
  "newConntrackCollector =
     (let prefix = ''conntrack''
      in obind (Build (WithHelp ''Number of tracked connections'' (NewPropertyGaugeMetric prefix ''total-entries'' [])))
         (\<lambda>total. obind (Build (WithHelp ''Conntrack table capacity'' (NewPropertyGaugeMetric prefix ''max-entries'' [])))
         (\<lambda>mx. Return \<lparr>ctk_totalEntries = total, ctk_maxEntries = mx\<rparr>)))"

definition conntrack_Describe :: "conntrackCollector \<Rightarrow> desc list" where
  "conntrack_Describe k = Describe (ctk_totalEntries k) @ Describe (ctk_maxEntries k)"

definition conntrack_Collect :: "conntrackCollector \<Rightarrow> 'w ctx \<Rightarrow> ('w mstate, goerror option) gom" where
  "conntrack_Collect k c =
     fetch c [''/ip/firewall/connection/tracking/print'', ''=.proplist=total-entries,max-entries'']
       ''get tracking error: %w'' [] (\<lambda>reply.
     case rep_re reply of
       [] \<Rightarrow> gret None
     | re # _ \<Rightarrow> join_loop (\<lambda>m. m)
         [wrapped ''collect total entries error: %w'' [] (Collect (ctk_totalEntries k) (sen_map re) c),
          wrapped ''collect max entries error: %w'' [] (Collect (ctk_maxEntries k) (sen_map re) c)] None)"

lemma conntrack_new:
  "\<exists>k. newConntrackCollector = Return k \<and> fits [ctk_totalEntries k] 2 \<and> fits [ctk_maxEntries k] 2"
  by (simp add: newConntrackCollector_def build_simps)

interpretation conntrack: announcing_collector
  "as_collector conntrack_Describe conntrack_Collect newConntrackCollector"
proof -
  obtain k where k: "newConntrackCollector = Return k" and shape: "fits [ctk_totalEntries k] 2"
    "fits [ctk_maxEntries k] 2" using conntrack_new by blast
  show "announcing_collector (as_collector conntrack_Describe conntrack_Collect newConntrackCollector)"
    by (rule announcing_collectorI [OF k]; unfold conntrack_Collect_def)
       (use shape in \<open>auto intro!: contract_emits contract_runs safe_rules simp: contract_simps conntrack_Describe_def
          split: list.split\<close>)
qed


section \<open>container\<close>

record containerCollector =
  ctn_metrics :: "PropertyMetric list"

definition newContainerCollector :: "containerCollector outcome" where
  "newContainerCollector =
     (let prefix = ''container''; labelNames = [''name''];
          flag = (\<lambda>property. Build (WithConverter MetricFromBool (WithDefault ''false''
                    (NewPropertyGaugeMetric prefix property labelNames))))
      in obind (oall
           [flag ''running'', flag ''starting'', flag ''unhealthy'', flag ''stopped'', flag ''stopping'',
            flag ''healthy'',
            Build (NewPropertyGaugeMetric prefix ''memory-current'' labelNames),
            Build (NewPropertyGaugeMetric prefix ''cpu-usage'' labelNames)])
         (\<lambda>ms. Return \<lparr>ctn_metrics = ms\<rparr>))"

definition container_Describe :: "containerCollector \<Rightarrow> desc list" where
  "container_Describe k = list_Describe (ctn_metrics k)"

definition container_Collect :: "containerCollector \<Rightarrow> 'w ctx \<Rightarrow> ('w mstate, goerror option) gom" where
  "container_Collect k c =
     (let version = dev_FirmwareVersion (cx_Device c)
      in if Compare version 7 5 0 < 0 \<and> CheckArchitecture version [''x86_64'', ''arm'', ''arm64'']
         then gret (Some (NotSupportedError ''container''))
         else fetch c [''/container/print'',
             ''=.proplist=name,running,starting,unhealthy,stopped,stopping,healthy,memory-current,cpu-usage'']
           ''fetch container error: %w'' [] (\<lambda>reply.
         join_loop (\<lambda>re. wrapped ''collect error: %w'' []
             (list_Collect (ctn_metrics k) (sen_map re) (WithLabelsFromMap (sen_map re) [''name''] c)))
           (rep_re reply) None))"

lemma container_new: "\<exists>k. newContainerCollector = Return k \<and> fits (ctn_metrics k) 3"
  by (simp add: newContainerCollector_def build_simps)

interpretation container: announcing_collector
  "as_collector container_Describe container_Collect newContainerCollector"
proof -
  obtain k where k: "newContainerCollector = Return k" and shape: "fits (ctn_metrics k) 3"
    using container_new by blast
  show "announcing_collector (as_collector container_Describe container_Collect newContainerCollector)"
    by (rule announcing_collectorI [OF k]; unfold container_Collect_def Let_def)
       (use shape in \<open>auto intro!: contract_emits contract_runs safe_rules simp: contract_simps container_Describe_def\<close>)
qed

end
