(* ===== verification/Collectors_B.thy ===== *)
theory Collectors_B
  imports Collectors_A
begin

text \<open>
  The collectors \<^verbatim>\<open>dhcp\<close>, \<^verbatim>\<open>dhcpl\<close>, \<^verbatim>\<open>dhcpv6\<close>, \<^verbatim>\<open>disk\<close>, \<^verbatim>\<open>dns\<close>, \<^verbatim>\<open>dns_adlist\<close>, \<^verbatim>\<open>dude\<close>, \<^verbatim>\<open>firewall\<close>,
  \<^verbatim>\<open>firmware\<close>, \<^verbatim>\<open>health\<close>, \<^verbatim>\<open>interface\<close> and \<^verbatim>\<open>ip\<close>.  The collector \<^verbatim>\<open>dhcpl\<close> is the one without an
  interpretation of the contract: it panics on a host name that is a single double quote.
\<close>

section \<open>dhcp\<close>

record dhcpCollector =
  dhcp_leasesActiveCount :: PropertyMetric

definition newDHCPCollector :: "dhcpCollector outcome" where
  "newDHCPCollector =
     (let prefix = ''dhcp''
      in obind (Build (WithConverter MetricFromString (WithHelp ''number of active leases per DHCP server''
                 (NewPropertyRetMetric prefix ''leases_active'' [''server'']))))
           (\<lambda>m. Return \<lparr>dhcp_leasesActiveCount = m\<rparr>))"

definition dhcp_Describe :: "dhcpCollector \<Rightarrow> desc list" where
  "dhcp_Describe k = Describe (dhcp_leasesActiveCount k)"

definition dhcp_collectForDHCPServer :: "dhcpCollector \<Rightarrow> 'w ctx \<Rightarrow> string
    \<Rightarrow> ('w mstate, goerror option) gom" where
  "dhcp_collectForDHCPServer k c dhcpServer =
     fetch c [''/ip/dhcp-server/lease/print'', ''?server='' @ dhcpServer, ''=active='', ''=count-only='']
       ''fetch lease for %s  error: %w'' [dhcpServer] (\<lambda>reply.
     done_map reply (\<lambda>m. wrapped ''collect active leases for %s error: %w'' [dhcpServer]
       (Collect (dhcp_leasesActiveCount k) m (WithLabels [dhcpServer] c))))"

definition dhcp_Collect :: "dhcpCollector \<Rightarrow> 'w ctx \<Rightarrow> ('w mstate, goerror option) gom" where
  "dhcp_Collect k c =
     fetch c [''/ip/dhcp-server/print'', ''?disabled=false'', ''=.proplist=name'']
       ''fetch dhcp-server error: %w'' [] (\<lambda>reply.
     join_loop (dhcp_collectForDHCPServer k c) (ExtractPropertyFromReplay reply ''name'') None)"

lemma dhcp_new:
  "\<exists>k. newDHCPCollector = Return k
     \<and> fits [dhcp_leasesActiveCount k] 3"
  by (simp add: newDHCPCollector_def build_simps)

interpretation dhcp: announcing_collector "as_collector dhcp_Describe dhcp_Collect newDHCPCollector"
proof -
  obtain k where k: "newDHCPCollector = Return k" and shape: "fits [dhcp_leasesActiveCount k] 3"
    using dhcp_new by blast
  show "announcing_collector (as_collector dhcp_Describe dhcp_Collect newDHCPCollector)"
    by (rule announcing_collectorI [OF k]; unfold dhcp_Collect_def dhcp_collectForDHCPServer_def)
       (use shape in \<open>auto intro!: contract_emits contract_runs safe_rules simp: contract_simps dhcp_Describe_def\<close>)
qed


section \<open>dhcpl\<close>

record dhcpLeaseCollector =
  dhcpl_leases :: PropertyMetric
  dhcpl_statuses :: desc

definition newDHCPLCollector :: "dhcpLeaseCollector outcome" where
  "newDHCPLCollector =
     (let prefix = ''dhcp'';
          labelNames = [''activemacaddress'', ''server'', ''status'', ''activeaddress'', ''hostname'',
                        LabelComment, ''dhcp_address'', ''dhcp_macaddress'']
      in obind (Build (WithName ''leases_status'' (NewPropertyConstMetric prefix ''status'' labelNames)))
           (\<lambda>m. Return \<lparr>dhcpl_leases = m,
              dhcpl_statuses = Description prefix ''leases_by_status'' ''Number of DHCP leases by status''
                                 [LabelDevName, LabelDevAddress, ''status'']\<rparr>))"

definition dhcpl_Describe :: "dhcpLeaseCollector \<Rightarrow> desc list" where
  "dhcpl_Describe k = Describe (dhcpl_leases k) @ [dhcpl_statuses k]"

definition dhcpl_collectMetric :: "dhcpLeaseCollector \<Rightarrow> 'w ctx \<Rightarrow> sentence
    \<Rightarrow> ('w mstate, goerror option) gom" where
  "dhcpl_collectMetric k c re =
     (let v = mlookup (sen_map re)
      in case CleanHostName (v ''host-name'') of
           Return hostname \<Rightarrow>
             wrapped ''collect error: %w'' [] (Collect (dhcpl_leases k) (sen_map re)
               (WithLabels [v ''active-mac-address'', v ''server'', v ''status'', v ''active-address'',
                            hostname, v ''comment'', v ''address'', v ''mac-address''] c))
         | Panicked p \<Rightarrow> gpanic p
         | Blocked \<Rightarrow> (\<lambda>s. (Blocked, s)))"

definition dhcpl_Collect :: "dhcpLeaseCollector \<Rightarrow> 'w ctx \<Rightarrow> ('w mstate, goerror option) gom" where
  "dhcpl_Collect k c =
     fetch c [''/ip/dhcp-server/lease/print'', ''?disabled=false'',
              ''=.proplist=active-mac-address,server,status,active-address,host-name,comment,address,mac-address'']
       ''fetch dhcp lease error: %w'' [] (\<lambda>reply.
     unless_err (emit_counts c (dhcpl_statuses k) (CountByProperty (rep_re reply) ''status''))
     (if \<not> BoolValue (cx_FeatureCfg c) ''details'' False then gret None
      else join_loop (dhcpl_collectMetric k c) (rep_re reply) None))"

lemma CleanHostName_cases:
  "(\<exists>n. CleanHostName h = Return n) \<or> (\<exists>p. CleanHostName h = Panicked p)"
  by (auto simp: CleanHostName_def split: if_splits)

lemma dhcpl_collectMetric_rules:
  "(\<And>ls. emits P (Collect (dhcpl_leases k) (sen_map re) (WithLabels ls c))) \<Longrightarrow> emits P (dhcpl_collectMetric k c re)"
  "safe wait (client_ok I) (dhcpl_collectMetric k c re)"
  using CleanHostName_cases [of "mlookup (sen_map re) ''host-name''"]
  by (auto simp: dhcpl_collectMetric_def Let_def simp del: gpanic_run intro!: emits_rules safe_rules)

interpretation dhcpl: safe_collector "as_collector dhcpl_Describe dhcpl_Collect newDHCPLCollector"
proof -
  obtain k where k: "newDHCPLCollector = Return k" by (simp add: newDHCPLCollector_def build_simps)
  show "safe_collector (as_collector dhcpl_Describe dhcpl_Collect newDHCPLCollector)"
    by (rule safe_collectorI [OF k]; unfold dhcpl_Collect_def)
       (auto intro!: contract_emits emits_counts dhcpl_collectMetric_rules safe_rules simp: contract_simps)
qed


section \<open>dhcpv6\<close>

record dhcpv6Collector =
  dhcpv6_bindingCount :: PropertyMetric

definition newDHCPv6Collector :: "dhcpv6Collector outcome" where
  "newDHCPv6Collector =
     (let prefix = ''dhcpv6''
      in obind (Build (WithHelp ''number of active bindings per DHCPv6 server''
                 (NewPropertyRetMetric prefix ''binding'' [''server''])))
           (\<lambda>m. Return \<lparr>dhcpv6_bindingCount = m\<rparr>))"

definition dhcpv6_Describe :: "dhcpv6Collector \<Rightarrow> desc list" where
  "dhcpv6_Describe k = Describe (dhcpv6_bindingCount k)"

definition dhcpv6_collectForDHCPServer :: "dhcpv6Collector \<Rightarrow> 'w ctx \<Rightarrow> string
    \<Rightarrow> ('w mstate, goerror option) gom" where
  "dhcpv6_collectForDHCPServer k c dhcpServer =
     fetch c [''/ipv6/dhcp-server/binding/print'', ''?server='' @ dhcpServer, ''=count-only='']
       ''get dhcpv6 bindings error: %w'' [] (\<lambda>reply.
     done_map reply (\<lambda>m. wrapped ''collect error: %w'' []
       (Collect (dhcpv6_bindingCount k) m (WithLabels [dhcpServer] c))))"

definition dhcpv6_Collect :: "dhcpv6Collector \<Rightarrow> 'w ctx \<Rightarrow> ('w mstate, goerror option) gom" where
  "dhcpv6_Collect k c =
     (if dev_IPv6Disabled (cx_Device c) then gret None
      else fetch c [''/ipv6/dhcp-server/print'', ''?disabled=false'', ''=.proplist=name'']
        ''fetch dhcp6 server names error: %w'' [] (\<lambda>reply.
      join_loop (dhcpv6_collectForDHCPServer k c) (ExtractPropertyFromReplay reply ''name'') None))"

lemma dhcpv6_new:
  "\<exists>k. newDHCPv6Collector = Return k
     \<and> fits [dhcpv6_bindingCount k] 3"
  by (simp add: newDHCPv6Collector_def build_simps)

interpretation dhcpv6: announcing_collector "as_collector dhcpv6_Describe dhcpv6_Collect newDHCPv6Collector"
proof -
  obtain k where k: "newDHCPv6Collector = Return k" and shape: "fits [dhcpv6_bindingCount k] 3"
    using dhcpv6_new by blast
  show "announcing_collector (as_collector dhcpv6_Describe dhcpv6_Collect newDHCPv6Collector)"
    by (rule announcing_collectorI [OF k]; unfold dhcpv6_Collect_def dhcpv6_collectForDHCPServer_def)
       (use shape in \<open>auto intro!: contract_emits contract_runs safe_rules simp: contract_simps dhcpv6_Describe_def\<close>)
qed


section \<open>disk\<close>

record diskCollector =
  disk_metrics :: "PropertyMetric list"
  disk_entries :: PropertyMetric

definition newDiskCollector :: "diskCollector outcome" where
  "newDiskCollector =
     (let prefix = ''disk''; labelNames = [''slot'', ''fs-uuid'', ''mount-point''];
          entryLabelNames = [''slot'', ''type'', ''fs-uuid'', LabelComment, ''parent'', ''fs'', ''model'', ''serial'']
      in obind (oall
           [Build (NewPropertyGaugeMetric prefix ''size'' labelNames),
            Build (NewPropertyGaugeMetric prefix ''free'' labelNames),
            Build (WithConverter MetricFromBool (NewPropertyGaugeMetric prefix ''mounted'' labelNames))])
         (\<lambda>ms. obind (Build (WithConverter MetricConstantValue (WithName ''entry''
              (NewPropertyGaugeMetric prefix ''slot'' entryLabelNames))))
         (\<lambda>entries. Return \<lparr>disk_metrics = ms, disk_entries = entries\<rparr>)))"

definition disk_Describe :: "diskCollector \<Rightarrow> desc list" where
  "disk_Describe k = list_Describe (disk_metrics k)"

definition disk_Collect :: "diskCollector \<Rightarrow> 'w ctx \<Rightarrow> ('w mstate, goerror option) gom" where
  "disk_Collect k c =
     (if Compare (dev_FirmwareVersion (cx_Device c)) 7 7 0 < 0 then gret (Some (NotSupportedError ''disk''))
      else fetch c [''/disk/print'', ''?disabled=false'',
          ''=.proplist=slot,type,fs-uuid,comment,size,free,mounted,mount-point,parent,fs,model,serial'']
        ''fetch disk error: %w'' [] (\<lambda>reply.
      join_loop (\<lambda>m. m) (concat (map (\<lambda>re.
          [wrapped ''collect error: %w'' [] (list_Collect (disk_metrics k) (sen_map re)
             (WithLabelsFromMap (sen_map re) [''slot'', ''fs-uuid'', ''mount-point''] c)),
           wrapped ''collect error: %w'' [] (Collect (disk_entries k) (sen_map re)
             (WithLabelsFromMap (sen_map re) [''slot'', ''type'', ''fs-uuid'', ''comment'', ''parent'', ''fs'',
                ''model'', ''serial''] c))])
        (rep_re reply))) None))"

lemma disk_new:
  "\<exists>k. newDiskCollector = Return k
     \<and> fits (disk_metrics k) 5 \<and> fits [disk_entries k] 10"
  by (simp add: newDiskCollector_def build_simps)

interpretation disk: device_collector "as_collector disk_Describe disk_Collect newDiskCollector"
proof -
  obtain k where k: "newDiskCollector = Return k" and shape: "fits (disk_metrics k) 5" "fits [disk_entries k] 10"
    using disk_new by blast
  show "device_collector (as_collector disk_Describe disk_Collect newDiskCollector)"
    by (rule device_collectorI [OF k]; unfold disk_Collect_def)
       (use shape in \<open>auto intro!: contract_emits contract_runs safe_rules simp: contract_simps\<close>)
qed


section \<open>dns\<close>

record dnsCollector =
  dns_metrics :: "PropertyMetric list"

definition newDNSCollector :: "dnsCollector outcome" where
  "newDNSCollector =
     (let prefix = ''dns''
      in obind (oall
           [Build (WithName ''cache_used_bytes'' (NewPropertyGaugeMetric prefix ''cache-used'' [])),
            Build (WithName ''cache_size_bytes'' (NewPropertyGaugeMetric prefix ''cache-size'' []))])
         (\<lambda>ms. Return \<lparr>dns_metrics = ms\<rparr>))"

definition dns_Describe :: "dnsCollector \<Rightarrow> desc list" where
  "dns_Describe k = list_Describe (dns_metrics k)"

definition dns_Collect :: "dnsCollector \<Rightarrow> 'w ctx \<Rightarrow> ('w mstate, goerror option) gom" where
  "dns_Collect k c =
     fetch c [''/ip/dns/print'', ''=.proplist=cache-size,cache-used'']
       ''fetch dns stats error: %w'' [] (\<lambda>reply.
     join_loop (\<lambda>re. wrapped ''collect error: %w'' [] (list_Collect (dns_metrics k) (sen_map re)
         c))
       (rep_re reply) None)"

lemma dns_new:
  "\<exists>k. newDNSCollector = Return k
     \<and> fits (dns_metrics k) 2"
  by (simp add: newDNSCollector_def build_simps)

interpretation dns: announcing_collector "as_collector dns_Describe dns_Collect newDNSCollector"
proof -
  obtain k where k: "newDNSCollector = Return k" and shape: "fits (dns_metrics k) 2"
    using dns_new by blast
  show "announcing_collector (as_collector dns_Describe dns_Collect newDNSCollector)"
    by (rule announcing_collectorI [OF k]; unfold dns_Collect_def)
       (use shape in \<open>auto intro!: contract_emits contract_runs safe_rules simp: contract_simps dns_Describe_def\<close>)
qed


section \<open>dns_adlist\<close>

record dnsAdlistCollector =
  dns_adlist_metrics :: "PropertyMetric list"

definition newDNSAdlistCollector :: "dnsAdlistCollector outcome" where
  "newDNSAdlistCollector =
     (let prefix = ''dns_adlist''; labelNames = [''url'']
      in obind (oall
           [Build (WithName ''match_count_total'' (NewPropertyCounterMetric prefix ''match-count'' labelNames)),
            Build (WithName ''name_count'' (NewPropertyGaugeMetric prefix ''name-count'' labelNames))])
         (\<lambda>ms. Return \<lparr>dns_adlist_metrics = ms\<rparr>))"

definition dns_adlist_Describe :: "dnsAdlistCollector \<Rightarrow> desc list" where
  "dns_adlist_Describe k = list_Describe (dns_adlist_metrics k)"

definition dns_adlist_Collect :: "dnsAdlistCollector \<Rightarrow> 'w ctx \<Rightarrow> ('w mstate, goerror option) gom" where
  "dns_adlist_Collect k c =
     (if Compare (dev_FirmwareVersion (cx_Device c)) 7 15 0 < 0 then gret (Some (NotSupportedError ''dns_adlist''))
      else fetch c [''/ip/dns/adlist/print'', ''?disabled=false'', ''=.proplist=url,match-count,name-count'']
       ''fetch dns adlist stats error: %w'' [] (\<lambda>reply.
     join_loop (\<lambda>re. wrapped ''collect error: %w'' [] (list_Collect (dns_adlist_metrics k) (sen_map re)
         (WithLabelsFromMap (sen_map re) [''url''] c)))
       (rep_re reply) None))"

lemma dns_adlist_new:
  "\<exists>k. newDNSAdlistCollector = Return k
     \<and> fits (dns_adlist_metrics k) 3"
  by (simp add: newDNSAdlistCollector_def build_simps)

interpretation dns_adlist: announcing_collector "as_collector dns_adlist_Describe dns_adlist_Collect newDNSAdlistCollector"
proof -
  obtain k where k: "newDNSAdlistCollector = Return k" and shape: "fits (dns_adlist_metrics k) 3"
    using dns_adlist_new by blast
  show "announcing_collector (as_collector dns_adlist_Describe dns_adlist_Collect newDNSAdlistCollector)"
    by (rule announcing_collectorI [OF k]; unfold dns_adlist_Collect_def)
       (use shape in \<open>auto intro!: contract_emits contract_runs safe_rules simp: contract_simps dns_adlist_Describe_def\<close>)
qed


section \<open>dude\<close>

record dudeCollector =
  dude_metrics :: "PropertyMetric list"

definition newDudeCollector :: "dudeCollector outcome" where
  "newDudeCollector =
     (let prefix = ''dude''
      in obind (oall
           [Build (WithConverter MetricFromBool (NewPropertyGaugeMetric prefix ''enabled'' [])),
            Build (WithConverter MetricFromRunning (WithName ''running'' (NewPropertyGaugeMetric prefix ''status'' [])))])
         (\<lambda>ms. Return \<lparr>dude_metrics = ms\<rparr>))"

definition dude_Describe :: "dudeCollector \<Rightarrow> desc list" where
  "dude_Describe k = list_Describe (dude_metrics k)"

definition dude_Collect :: "dudeCollector \<Rightarrow> 'w ctx \<Rightarrow> ('w mstate, goerror option) gom" where
  "dude_Collect k c =
     fetch c [''/dude/print'', ''?disabled=false'', ''=.proplist=enabled,status'']
       ''fetch dude error: %w'' [] (\<lambda>reply.
     join_loop (\<lambda>re. wrapped ''collect error: %w'' [] (list_Collect (dude_metrics k) (sen_map re)
         c))
       (rep_re reply) None)"

lemma dude_new:
  "\<exists>k. newDudeCollector = Return k
     \<and> fits (dude_metrics k) 2"
  by (simp add: newDudeCollector_def build_simps)

interpretation dude: announcing_collector "as_collector dude_Describe dude_Collect newDudeCollector"
proof -
  obtain k where k: "newDudeCollector = Return k" and shape: "fits (dude_metrics k) 2"
    using dude_new by blast
  show "announcing_collector (as_collector dude_Describe dude_Collect newDudeCollector)"
    by (rule announcing_collectorI [OF k]; unfold dude_Collect_def)
       (use shape in \<open>auto intro!: contract_emits contract_runs safe_rules simp: contract_simps dude_Describe_def\<close>)
qed


section \<open>firewall\<close>

record firewallCollector =
  firewall_metrics :: "PropertyMetric list"

definition newFirewallCollector :: "firewallCollector outcome" where
  "newFirewallCollector =
     (let prefix = ''firewall''; labelNames = [''firewall'', ''chain'', LabelComment]
      in obind (oall
           [Build (NewPropertyCounterMetric prefix ''packets'' labelNames),
            Build (NewPropertyCounterMetric prefix ''bytes'' labelNames)])
         (\<lambda>ms. Return \<lparr>firewall_metrics = ms\<rparr>))"

definition firewall_Describe :: "firewallCollector \<Rightarrow> desc list" where
  "firewall_Describe k = list_Describe (firewall_metrics k)"

definition firewall_collectStats :: "firewallCollector \<Rightarrow> string \<Rightarrow> string \<Rightarrow> 'w ctx
    \<Rightarrow> ('w mstate, goerror option) gom" where
  "firewall_collectStats k firewall chain c =
     (if firewall \<noteq> ''filter'' \<and> firewall \<noteq> ''mangle'' \<and> firewall \<noteq> ''raw'' \<and> firewall \<noteq> ''nat''
      then gret (Some (InvalidConfigurationError (''unknown firewall '' @ [CHR 0x27] @ firewall @ [CHR 0x27])))
      else if chain = '''' then gret (Some (InvalidConfigurationError ''missing chain''))
      else fetch c [''/ip/firewall/'' @ firewall @ ''/print'', ''?=chain='' @ chain, ''?=disabled=true'', ''?#!'',
                    ''=stats='', ''=.proplist=comment,bytes,packets'']
        ''fetch fw stats %s/%s error: %w'' [firewall, chain] (\<lambda>reply.
      join_loop (\<lambda>re.
          let comment = mlookup (sen_map re) ''comment''
          in if comment \<noteq> ''''
             then wrapped ''collect fw %s/%s error: %w'' [firewall, chain]
                    (list_Collect (firewall_metrics k) (sen_map re) (WithLabels [firewall, chain, comment] c))
             else gret None)
        (rep_re reply) None))"

fun firewall_chains :: "firewallCollector \<Rightarrow> 'w ctx \<Rightarrow> string list \<Rightarrow> goerror option
    \<Rightarrow> ('w mstate, goerror option) gom" where
  "firewall_chains k c [] errs = gret errs"
| "firewall_chains k c (fwc # fwchains) errs =
     (case cut fwc '','' of
        None \<Rightarrow> firewall_chains k c fwchains (errors_join [errs, Some (InvalidConfigurationError
          (''invalid entry '' @ quoted fwc @ '', required '' @ [CHR 0x27] @ ''firewall,chain'' @ [CHR 0x27]))])
      | Some (fw, chain) \<Rightarrow>
          gbind (firewall_collectStats k (trim_space fw) (trim_space chain) c) (\<lambda>e.
          firewall_chains k c fwchains (errors_join [errs, e])))"

definition firewall_Collect :: "firewallCollector \<Rightarrow> 'w ctx \<Rightarrow> ('w mstate, goerror option) gom" where
  "firewall_Collect k c =
     (case Strs (cx_FeatureCfg c) ''sources'' of
        Inl err \<Rightarrow> gret (Some (Wrapf ''invalid configuration: %w'' [] err))
      | Inr fwchains \<Rightarrow>
          if fwchains = [] then gret (Some (InvalidConfigurationError ''missing configuration''))
          else firewall_chains k c fwchains None)"

lemma emits_firewall_chains:
  "(\<And>fw ch. emits P (firewall_collectStats k fw ch c)) \<Longrightarrow> emits P (firewall_chains k c fs errs)"
proof (induction fs arbitrary: errs)
  case (Cons f fs)
  then show ?case unfolding firewall_chains.simps by (intro emits_rules) auto
qed (simp only: firewall_chains.simps emits_gret)

lemma safe_firewall_chains [safe_rules]:
  "(\<And>fw ch. safe wait P (firewall_collectStats k fw ch c)) \<Longrightarrow> safe wait P (firewall_chains k c fs errs)"
proof (induction fs arbitrary: errs)
  case (Cons f fs)
  then show ?case unfolding firewall_chains.simps by (intro safe_rules) auto
qed (simp only: firewall_chains.simps safe_gret)

lemma runs_firewall_chains:
  "(\<And>fw ch. ok wait P (firewall_collectStats k fw ch c) (\<lambda>_. P)) \<Longrightarrow> ok wait P (firewall_chains k c fs errs) (\<lambda>_. P)"
proof (induction fs arbitrary: errs)
  case (Cons f fs)
  then show ?case unfolding firewall_chains.simps
    by (intro ok_option ok_prod ok_gbind [where R = "\<lambda>_. P"]) auto
qed (simp only: firewall_chains.simps ok_gret_same)

declare firewall_chains.simps [simp del]

lemma firewall_new:
  "\<exists>k. newFirewallCollector = Return k
     \<and> fits (firewall_metrics k) 5"
  by (simp add: newFirewallCollector_def build_simps)

interpretation firewall: announcing_collector "as_collector firewall_Describe firewall_Collect newFirewallCollector"
proof -
  obtain k where k: "newFirewallCollector = Return k" and shape: "fits (firewall_metrics k) 5"
    using firewall_new by blast
  show "announcing_collector (as_collector firewall_Describe firewall_Collect newFirewallCollector)"
    by (rule announcing_collectorI [OF k]; unfold firewall_Collect_def)
       (use shape in \<open>auto intro!: contract_emits contract_runs safe_rules emits_firewall_chains runs_firewall_chains
          simp: contract_simps firewall_Describe_def firewall_collectStats_def Let_def\<close>)
qed


section \<open>firmware\<close>

record firmwareCollector =
  firmware_metric :: PropertyMetric

definition newFirmwareCollector :: "firmwareCollector outcome" where
  "newFirmwareCollector =
     obind (Build (WithConverter MetricFromBoolNeg (WithName ''package_enabled''
        (NewPropertyGaugeMetric ''system'' ''disabled'' [''name'', ''version'', ''build_time'']))))
       (\<lambda>m. Return \<lparr>firmware_metric = m\<rparr>)"

definition firmware_Describe :: "firmwareCollector \<Rightarrow> desc list" where
  "firmware_Describe k = Describe (firmware_metric k)"

definition firmware_Collect :: "firmwareCollector \<Rightarrow> 'w ctx \<Rightarrow> ('w mstate, goerror option) gom" where
  "firmware_Collect k c =
     fetch c [''/system/package/getall''] ''fetch package error: %w'' [] (\<lambda>reply.
     join_loop (\<lambda>re. wrapped ''collect from package error: %w'' []
         (Collect (firmware_metric k) (sen_map re)
           (WithLabelsFromMap (sen_map re) [''name'', ''version'', ''build-time''] c)))
       (rep_re reply) None)"

lemma firmware_new:
  "\<exists>k. newFirmwareCollector = Return k
     \<and> fits [firmware_metric k] 5"
  by (simp add: newFirmwareCollector_def build_simps)

interpretation firmware: announcing_collector "as_collector firmware_Describe firmware_Collect newFirmwareCollector"
proof -
  obtain k where k: "newFirmwareCollector = Return k" and shape: "fits [firmware_metric k] 5"
    using firmware_new by blast
  show "announcing_collector (as_collector firmware_Describe firmware_Collect newFirmwareCollector)"
    by (rule announcing_collectorI [OF k]; unfold firmware_Collect_def)
       (use shape in \<open>auto intro!: contract_emits contract_runs safe_rules simp: contract_simps firmware_Describe_def\<close>)
qed


section \<open>health\<close>

record healthCollector =
  health_metrics :: "PropertyMetric list"

definition newhealthCollector :: "healthCollector outcome" where
  "newhealthCollector =
     (let prefix = ''health''
      in obind (oall
           [Build (WithHelp ''Input voltage to the RouterOS board, in volts''
              (NewPropertyGaugeMetric prefix ''voltage'' [])),
            Build (WithHelp ''Temperature of RouterOS board, in degrees Celsius''
              (NewPropertyGaugeMetric prefix ''temperature'' [])),
            Build (WithHelp ''Temperature of RouterOS CPU, in degrees Celsius''
              (NewPropertyGaugeMetric prefix ''cpu-temperature'' []))])
         (\<lambda>ms. Return \<lparr>health_metrics = ms\<rparr>))"

definition health_Describe :: "healthCollector \<Rightarrow> desc list" where
  "health_Describe k = list_Describe (health_metrics k)"

definition health_map :: "string gomap \<Rightarrow> string gomap option" where
  \<comment> \<open>the reply as property and value, of newer systems, put in the form of the older; \<open>None\<close>
     where the loop continues with the next sentence\<close>
  "health_map m =
     (case mget m ''name'' of
        None \<Rightarrow> Some m
      | Some metric \<Rightarrow> (case mget m ''value'' of Some v \<Rightarrow> Some (mput metric v m) | None \<Rightarrow> None))"

definition health_Collect :: "healthCollector \<Rightarrow> 'w ctx \<Rightarrow> ('w mstate, goerror option) gom" where
  "health_Collect k c =
     fetch c [''/system/health/print''] ''fetch health error: %w'' [] (\<lambda>reply.
     join_loop (\<lambda>re. case health_map (sen_map re) of
         None \<Rightarrow> gret None
       | Some m \<Rightarrow> list_Collect (health_metrics k) m c) (rep_re reply) None)"

lemma health_new:
  "\<exists>k. newhealthCollector = Return k
     \<and> fits (health_metrics k) 2"
  by (simp add: newhealthCollector_def build_simps)

interpretation health: announcing_collector "as_collector health_Describe health_Collect newhealthCollector"
proof -
  obtain k where k: "newhealthCollector = Return k" and shape: "fits (health_metrics k) 2"
    using health_new by blast
  show "announcing_collector (as_collector health_Describe health_Collect newhealthCollector)"
    by (rule announcing_collectorI [OF k]; unfold health_Collect_def)
       (use shape in \<open>auto intro!: contract_emits contract_runs safe_rules simp: contract_simps health_Describe_def\<close>)
qed


section \<open>interface\<close>

record interfaceCollector =
  interface_metrics :: "PropertyMetric list"

definition newInterfaceCollector :: "interfaceCollector outcome" where
  "newInterfaceCollector =
     (let prefix = ''interface''; labelNames = [LabelInterface, ''type''];
          counter = (\<lambda>property. Build (NewPropertyCounterMetric prefix property labelNames))
      in obind (oall
           [Build (NewPropertyGaugeMetric prefix ''actual-mtu'' labelNames),
            Build (WithConverter MetricFromBool (NewPropertyGaugeMetric prefix ''running'' labelNames)),
            counter ''rx-byte'', counter ''tx-byte'', counter ''rx-packet'', counter ''tx-packet'',
            counter ''rx-error'', counter ''tx-error'', counter ''rx-drop'', counter ''tx-drop'',
            counter ''link-downs'', counter ''tx-queue-drop'', counter ''fp-rx-byte'',
            counter ''fp-rx-packet'', counter ''fp-tx-byte'', counter ''fp-tx-packet''])
         (\<lambda>ms. Return \<lparr>interface_metrics = ms\<rparr>))"

definition interface_Describe :: "interfaceCollector \<Rightarrow> desc list" where
  "interface_Describe k = list_Describe (interface_metrics k)"

definition interface_Collect :: "interfaceCollector \<Rightarrow> 'w ctx \<Rightarrow> ('w mstate, goerror option) gom" where
  "interface_Collect k c =
     fetch c [''/interface/print'', ''?disabled=false'',
         ''=.proplist=name,type,disabled,actual-mtu,running,rx-byte,tx-byte,''
         @ ''rx-packet,tx-packet,rx-error,tx-error,rx-drop,tx-drop,link-downs,tx-queue-drop,''
         @ ''fp-tx-byte,fp-tx-packet,fp-rx-byte,fp-tx-packet'']
       ''fetch interfaces detail error: %w'' [] (\<lambda>reply.
     join_loop (\<lambda>re.
         if mlookup (sen_map re) ''name'' = ''lo'' then gret None
         else list_Collect (interface_metrics k) (sen_map re)
                (WithLabelsFromMap (sen_map re) [''name'', ''type''] c))
       (rep_re reply) None)"

lemma interface_new:
  "\<exists>k. newInterfaceCollector = Return k
     \<and> fits (interface_metrics k) 4"
  by (simp add: newInterfaceCollector_def build_simps)

interpretation interface: announcing_collector "as_collector interface_Describe interface_Collect newInterfaceCollector"
proof -
  obtain k where k: "newInterfaceCollector = Return k" and shape: "fits (interface_metrics k) 4"
    using interface_new by blast
  show "announcing_collector (as_collector interface_Describe interface_Collect newInterfaceCollector)"
    by (rule announcing_collectorI [OF k]; unfold interface_Collect_def)
       (use shape in \<open>auto intro!: contract_emits contract_runs safe_rules simp: contract_simps interface_Describe_def\<close>)
qed


section \<open>ip\<close>

record ipCollector =
  ip_metrics :: "PropertyMetric list"

definition newIPCollector :: "ipCollector outcome" where
  "newIPCollector =
     (let prefix = ''ip''
      in obind (oall
           [Build (WithConverter MetricFromBool (NewPropertyCounterMetric prefix ''ipv4-fast-path-active'' [])),
            Build (NewPropertyCounterMetric prefix ''ipv4-fast-path-bytes'' []),
            Build (NewPropertyCounterMetric prefix ''ipv4-fast-path-packets'' []),
            Build (WithConverter MetricFromBool (NewPropertyCounterMetric prefix ''ipv4-fasttrack-active'' [])),
            Build (NewPropertyCounterMetric prefix ''ipv4-fasttrack-bytes'' []),
            Build (NewPropertyCounterMetric prefix ''ipv4-fasttrack-packets'' [])])
         (\<lambda>ms. Return \<lparr>ip_metrics = ms\<rparr>))"

definition ip_Describe :: "ipCollector \<Rightarrow> desc list" where
  "ip_Describe k = list_Describe (ip_metrics k)"

definition ip_Collect :: "ipCollector \<Rightarrow> 'w ctx \<Rightarrow> ('w mstate, goerror option) gom" where
  "ip_Collect k c =
     fetch c [''/ip/settings/print'',
         ''=.proplist=ipv4-fast-path-active,ipv4-fast-path-bytes,ipv4-fast-path-packets,''
         @ ''ipv4-fasttrack-active,ipv4-fasttrack-bytes,ipv4-fasttrack-packets'']
       ''fetch ip settings error: %w'' [] (\<lambda>reply.
     join_loop (\<lambda>re. wrapped ''collect error: %w'' [] (list_Collect (ip_metrics k) (sen_map re)
         c))
       (rep_re reply) None)"

lemma ip_new:
  "\<exists>k. newIPCollector = Return k
     \<and> fits (ip_metrics k) 2"
  by (simp add: newIPCollector_def build_simps)

interpretation ip: announcing_collector "as_collector ip_Describe ip_Collect newIPCollector"
proof -
  obtain k where k: "newIPCollector = Return k" and shape: "fits (ip_metrics k) 2"
    using ip_new by blast
  show "announcing_collector (as_collector ip_Describe ip_Collect newIPCollector)"
    by (rule announcing_collectorI [OF k]; unfold ip_Collect_def)
       (use shape in \<open>auto intro!: contract_emits contract_runs safe_rules simp: contract_simps ip_Describe_def\<close>)
qed

end
