(* ===== verification/Collectors_C.thy ===== *)
theory Collectors_C
  imports Collectors_B
begin

text \<open>
  The collectors \<^verbatim>\<open>ipsec\<close>, \<^verbatim>\<open>ipv6_neighbor\<close>, \<^verbatim>\<open>lte\<close>, \<^verbatim>\<open>monitor\<close>, \<^verbatim>\<open>neighbor\<close>, \<^verbatim>\<open>netwatch\<close>, \<^verbatim>\<open>ntpc\<close>,
  \<^verbatim>\<open>optics\<close>, \<^verbatim>\<open>poe\<close>, \<^verbatim>\<open>pools\<close>, \<^verbatim>\<open>ppp\<close> and \<^verbatim>\<open>queue\<close>.  Two of them keep only the weaker contract
  \<open>safe_collector\<close>, as they may panic: \<^verbatim>\<open>ipv6_neighbor\<close> gives six label values to a metric with five labels, and
  \<^verbatim>\<open>lte\<close> panics on a band of blanks.
\<close>

section \<open>ipsec\<close>

record ipsecCollector =
  ipsec_metrics :: "PropertyMetric list"
  ipsec_activePeers :: "PropertyMetric list"

definition metricFromState :: ValueConverter where
  "metricFromState val = Inr (if val = ''established'' then f64_one else f64_zero)"

definition newIpsecCollector :: "ipsecCollector outcome" where
  "newIpsecCollector =
     (let prefix = ''ipsec''; prefixPeers = ''ipsec_active_peers'';
          labels = [''src_address'', ''dst_address'', LabelComment];
          labelsPeers = [''src_address'', ''dst_address'', LabelComment, ''side'']
      in obind (oall
           [Build (WithConverter metricFromState (NewPropertyGaugeMetric prefix ''ph2-state'' labels)),
            Build (WithConverter MetricFromBool (NewPropertyGaugeMetric prefix ''invalid'' labels)),
            Build (WithConverter MetricFromBool (NewPropertyGaugeMetric prefix ''active'' labels))])
         (\<lambda>ms. obind (oall
           [Build (NewPropertyGaugeMetric prefixPeers ''rx-bytes'' labelsPeers),
            Build (NewPropertyGaugeMetric prefixPeers ''tx-bytes'' labelsPeers),
            Build (NewPropertyGaugeMetric prefixPeers ''rx-packets'' labelsPeers),
            Build (NewPropertyGaugeMetric prefixPeers ''tx-packets'' labelsPeers),
            Build (WithName ''established'' (WithConverter metricFromState
              (NewPropertyGaugeMetric prefixPeers ''state'' labelsPeers))),
            Build (WithName ''uptime_seconds'' (WithConverter MetricFromDuration
              (NewPropertyGaugeMetric prefixPeers ''uptime'' labelsPeers))),
            Build (WithName ''last_seen_seconds'' (WithConverter MetricFromDuration
              (NewPropertyGaugeMetric prefixPeers ''last-seen'' labelsPeers))),
            Build (WithConverter MetricFromBool (NewPropertyGaugeMetric prefixPeers ''responder'' labelsPeers))])
         (\<lambda>peers. Return \<lparr>ipsec_metrics = ms, ipsec_activePeers = peers\<rparr>)))"

definition ipsec_Describe :: "ipsecCollector \<Rightarrow> desc list" where
  "ipsec_Describe k = list_Describe (ipsec_metrics k) @ list_Describe (ipsec_activePeers k)"

definition ipsec_collectPolicy :: "ipsecCollector \<Rightarrow> 'w ctx \<Rightarrow> ('w mstate, goerror option) gom" where
  "ipsec_collectPolicy k c =
     fetch c [''/ip/ipsec/policy/print'', ''?disabled=false'', ''?dynamic=false'',
              ''=.proplist=src-address,dst-address,comment,ph2-state,invalid,active'']
       ''fetch ipsec policy error: %w'' [] (\<lambda>reply.
     join_loop (\<lambda>re. wrapped ''collect policy error %w'' [] (list_Collect (ipsec_metrics k) (sen_map re)
         (WithLabelsFromMap (sen_map re) [''src-address'', ''dst-address'', ''comment''] c)))
       (rep_re reply) None)"

definition ipsec_collectActivePeers :: "ipsecCollector \<Rightarrow> 'w ctx \<Rightarrow> ('w mstate, goerror option) gom" where
  "ipsec_collectActivePeers k c =
     fetch c [''/ip/ipsec/active-peers/print'',
              ''=.proplist=src-address,dst-address,comment,side,rx-bytes,tx-bytes,''
              @ ''rx-packets,tx-packets,state,uptime,last-seen,responder'']
       ''fetch ipsec active peers error: %w'' [] (\<lambda>reply.
     join_loop (\<lambda>re. wrapped ''collect active peers error %w'' [] (list_Collect (ipsec_activePeers k) (sen_map re)
         (WithLabelsFromMap (sen_map re) [''src-address'', ''dst-address'', ''comment'', ''side''] c)))
       (rep_re reply) None)"

definition ipsec_Collect :: "ipsecCollector \<Rightarrow> 'w ctx \<Rightarrow> ('w mstate, goerror option) gom" where
  "ipsec_Collect k c = join_all [ipsec_collectPolicy k c, ipsec_collectActivePeers k c] []"

lemma ipsec_new:
  "\<exists>k. newIpsecCollector = Return k
     \<and> fits (ipsec_metrics k) 5 \<and> fits (ipsec_activePeers k) 6"
  by (simp add: newIpsecCollector_def build_simps)

interpretation ipsec: announcing_collector "as_collector ipsec_Describe ipsec_Collect newIpsecCollector"
proof -
  obtain k where k: "newIpsecCollector = Return k" and shape: "fits (ipsec_metrics k) 5" "fits (ipsec_activePeers k) 6"
    using ipsec_new by blast
  show "announcing_collector (as_collector ipsec_Describe ipsec_Collect newIpsecCollector)"
    by (rule announcing_collectorI [OF k]; unfold ipsec_Collect_def ipsec_collectPolicy_def ipsec_collectActivePeers_def)
       (use shape in \<open>auto intro!: contract_emits contract_runs safe_rules simp: contract_simps ipsec_Describe_def\<close>)
qed


section \<open>ipv6_neighbor\<close>

record ipv6NeighborCollector =
  ipv6n_metrics :: PropertyMetric
  ipv6n_statuses :: desc

definition newIPv6NeighborCollector :: "ipv6NeighborCollector outcome" where
  "newIPv6NeighborCollector =
     (let prefix = ''ipv6_neighbor''; labelNames = [''address'', LabelInterface, ''mac_address'', ''dynamic'', ''router'']
      in obind (Build (WithConverter MetricFromBool (NewPropertyGaugeMetric prefix ''reachable'' labelNames)))
           (\<lambda>m. Return \<lparr>ipv6n_metrics = m,
              ipv6n_statuses = Description prefix ''status'' ''neighbor entry statuses''
                                 [LabelDevName, LabelDevAddress, ''status'']\<rparr>))"

definition ipv6_neighbor_Describe :: "ipv6NeighborCollector \<Rightarrow> desc list" where
  "ipv6_neighbor_Describe k = Describe (ipv6n_metrics k) @ [ipv6n_statuses k]"

definition ipv6_neighbor_collectEntries :: "ipv6NeighborCollector \<Rightarrow> 'w ctx
    \<Rightarrow> ('w mstate, goerror option) gom" where
  "ipv6_neighbor_collectEntries k c =
     (if \<not> BoolValue (cx_FeatureCfg c) ''details'' False then gret None
      else fetch c [''/ipv6/neighbor/print'', ''?status=reachable'',
          ''=.proplist=address,mac-address,interface,dynamic,dhcp,router,status'']
        ''fetch ipv6 neighbor error: %w'' [] (\<lambda>reply.
      join_loop (\<lambda>re. wrapped ''collect error: %w'' [] (Collect (ipv6n_metrics k) (sen_map re)
          (WithLabelsFromMap (sen_map re)
            [''address'', ''interface'', ''mac-address'', ''comment'', ''dhcp'', ''dynamic''] c)))
        (rep_re reply) None))"

definition ipv6_neighbor_collectStatuses :: "ipv6NeighborCollector \<Rightarrow> 'w ctx
    \<Rightarrow> ('w mstate, goerror option) gom" where
  "ipv6_neighbor_collectStatuses k c =
     join_loop (\<lambda>status.
       fetch c [''/ipv6/neighbor/print'', ''?status='' @ status, ''=count-only='']
         ''fetch arp status %q  error: %w'' [status] (\<lambda>reply.
       done_map reply (\<lambda>m.
       case MetricFromString (mlookup m ''ret'') of
         Inr cnt \<Rightarrow> gseq (emit_for c [status] (ipv6n_statuses k) GaugeValue cnt) (gret None)
       | Inl err \<Rightarrow> gret (Some (Wrapf ''parse ret %v error: %w'' [] err)))))
     [''noarp'', ''incomplete'', ''reachable'', ''stale'', ''delay'', ''probe'', ''failed''] None"

definition ipv6_neighbor_Collect :: "ipv6NeighborCollector \<Rightarrow> 'w ctx \<Rightarrow> ('w mstate, goerror option) gom" where
  "ipv6_neighbor_Collect k c =
     (if dev_IPv6Disabled (cx_Device c) then gret None
      else join_all [ipv6_neighbor_collectEntries k c, ipv6_neighbor_collectStatuses k c] [])"

interpretation ipv6_neighbor: safe_collector
  "as_collector ipv6_neighbor_Describe ipv6_neighbor_Collect newIPv6NeighborCollector"
proof -
  obtain k where k: "newIPv6NeighborCollector = Return k" by (simp add: newIPv6NeighborCollector_def build_simps)
  show "safe_collector (as_collector ipv6_neighbor_Describe ipv6_neighbor_Collect newIPv6NeighborCollector)"
    by (rule safe_collectorI [OF k];
        unfold ipv6_neighbor_Collect_def ipv6_neighbor_collectEntries_def ipv6_neighbor_collectStatuses_def)
       (auto intro!: contract_emits safe_rules simp: contract_simps)
qed


section \<open>lte\<close>

record lteCollector =
  lte_metrics :: "PropertyMetric list"

definition metricFromLTEStatus :: ValueConverter where
  "metricFromLTEStatus val = Inr (if val = ''connected'' then f64_one else f64_zero)"

fun until_space :: "string \<Rightarrow> string" where
  "until_space [] = []"
| "until_space (x # s) = (if strip_first space_encodings (x # s) = None then x # until_space s else [])"

definition first_field :: "string \<Rightarrow> string option" where
  \<comment> \<open>the first element of \<^verbatim>\<open>strings.Fields(s)\<close>, if there is one\<close>
  "first_field s = (let t = trim_left space_encodings s in if t = [] then None else Some (until_space t))"

definition newLteCollector :: "lteCollector outcome" where
  "newLteCollector =
     (let prefix = ''lte_interface''; labelNames = [LabelInterface, ''cell_id'', ''primary_band'']
      in obind (oall
           [Build (NewPropertyGaugeMetric prefix ''rssi'' labelNames),
            Build (NewPropertyGaugeMetric prefix ''rsrp'' labelNames),
            Build (NewPropertyGaugeMetric prefix ''rsrq'' labelNames),
            Build (NewPropertyGaugeMetric prefix ''sinr'' labelNames),
            Build (WithConverter metricFromLTEStatus (WithName ''connected''
              (NewPropertyGaugeMetric prefix ''status'' labelNames)))])
         (\<lambda>ms. Return \<lparr>lte_metrics = ms\<rparr>))"

definition lte_Describe :: "lteCollector \<Rightarrow> desc list" where
  "lte_Describe k = list_Describe (lte_metrics k)"

definition lte_collectForInterface :: "lteCollector \<Rightarrow> 'w ctx \<Rightarrow> string \<Rightarrow> ('w mstate, goerror option) gom" where
  "lte_collectForInterface k c iface =
     fetch c [''/interface/lte/monitor'', ''=number='' @ iface, ''=once='',
              ''=.proplist=current-cellid,primary-band,rssi,rsrp,rsrq,sinr,status'']
       ''fetch %s lte interface statistics error: %w'' [iface] (\<lambda>reply.
     case rep_re reply of
       [] \<Rightarrow> gret None
     | re # _ \<Rightarrow>
         (let band = mlookup (sen_map re) ''primary-band'';
              collect = (\<lambda>primaryband. wrapped ''collect lte for %s error: %w'' [iface]
                (list_Collect (lte_metrics k) (sen_map re)
                  (WithLabels [iface, mlookup (sen_map re) ''current-cellid'', primaryband] c)))
          in if band = '''' then collect ''''
             else case first_field band of
                    Some primaryband \<Rightarrow> collect primaryband
                  | None \<Rightarrow> gpanic IndexOutOfRange))"

definition lte_Collect :: "lteCollector \<Rightarrow> 'w ctx \<Rightarrow> ('w mstate, goerror option) gom" where
  "lte_Collect k c =
     fetch c [''/interface/lte/print'', ''?disabled=false'', ''=.proplist=name'']
       ''fetch lte interface names error: %w'' [] (\<lambda>reply.
     join_loop (lte_collectForInterface k c) (ExtractPropertyFromReplay reply ''name'') None)"

interpretation lte: safe_collector "as_collector lte_Describe lte_Collect newLteCollector"
proof -
  obtain k where k: "newLteCollector = Return k" by (simp add: newLteCollector_def build_simps)
  show "safe_collector (as_collector lte_Describe lte_Collect newLteCollector)"
    by (rule safe_collectorI [OF k]; unfold lte_Collect_def lte_collectForInterface_def Let_def)
       (auto intro!: contract_emits safe_rules simp: contract_simps split: list.split)
qed


section \<open>monitor\<close>

record monitorCollector =
  monitor_metrics :: "PropertyMetric list"

definition metricFromLinkStatus :: ValueConverter where
  "metricFromLinkStatus val = Inr (if val = ''link-ok'' then f64_one else f64_zero)"

definition metricFromRate :: ValueConverter where
  "metricFromRate v = Inr (f64_of_int
     (case map_of [(''10Mbps'', 10), (''100Mbps'', 100), (''1Gbps'', 1000), (''2.5Gbps'', 2500),
                   (''5Gbps'', 5000), (''10Gbps'', 10000), (''25Gbps'', 25000), (''40Gbps'', 40000),
                   (''50Gbps'', 50000), (''100Gbps'', 100000)] v of
        Some n \<Rightarrow> n | None \<Rightarrow> 0))"

definition newMonitorCollector :: "monitorCollector outcome" where
  "newMonitorCollector =
     (let prefix = ''monitor''
      in obind (oall
           [Build (WithConverter metricFromLinkStatus (NewPropertyGaugeMetric prefix ''status'' [LabelInterface])),
            Build (WithConverter metricFromRate (NewPropertyGaugeMetric prefix ''rate'' [LabelInterface])),
            Build (WithConverter MetricFromBool (NewPropertyGaugeMetric prefix ''full-duplex'' [LabelInterface]))])
         (\<lambda>ms. Return \<lparr>monitor_metrics = ms\<rparr>))"

definition monitor_Describe :: "monitorCollector \<Rightarrow> desc list" where
  "monitor_Describe k = list_Describe (monitor_metrics k)"

definition monitor_collectForMonitor :: "monitorCollector \<Rightarrow> string list \<Rightarrow> 'w ctx
    \<Rightarrow> ('w mstate, goerror option) gom" where
  "monitor_collectForMonitor k eths c =
     fetch c [''/interface/ethernet/monitor'', ''=numbers='' @ join_with '','' eths, ''=once='',
              ''=.proplist=name,status,rate,full-duplex'']
       ''get ethernet monitor error: %w'' [] (\<lambda>reply.
     join_loop (\<lambda>e. wrapped ''collect %v error: %w'' [mlookup (sen_map e) ''name'']
         (list_Collect (monitor_metrics k) (sen_map e) (WithLabels [mlookup (sen_map e) ''name''] c)))
       (rep_re reply) None)"

definition monitor_Collect :: "monitorCollector \<Rightarrow> 'w ctx \<Rightarrow> ('w mstate, goerror option) gom" where
  "monitor_Collect k c =
     fetch c [''/interface/ethernet/print'', ''?disabled=false'', ''=.proplist=name'']
       ''fetch ethernet error: %w'' [] (\<lambda>reply.
     monitor_collectForMonitor k (ExtractPropertyFromReplay reply ''name'') c)"

lemma monitor_new:
  "\<exists>k. newMonitorCollector = Return k
     \<and> fits (monitor_metrics k) 3"
  by (simp add: newMonitorCollector_def build_simps)

interpretation monitor: announcing_collector "as_collector monitor_Describe monitor_Collect newMonitorCollector"
proof -
  obtain k where k: "newMonitorCollector = Return k" and shape: "fits (monitor_metrics k) 3"
    using monitor_new by blast
  show "announcing_collector (as_collector monitor_Describe monitor_Collect newMonitorCollector)"
    by (rule announcing_collectorI [OF k]; unfold monitor_Collect_def monitor_collectForMonitor_def)
       (use shape in \<open>auto intro!: contract_emits contract_runs safe_rules simp: contract_simps monitor_Describe_def\<close>)
qed


section \<open>neighbor\<close>

record neighborCollector =
  neighbor_metrics :: "PropertyMetric list"
  neighbor_stats :: desc

definition newNeighborCollector :: "neighborCollector outcome" where
  "newNeighborCollector =
     (let prefix = ''neighbor'';
          labelNames = [''about'', ''address4'', ''discovered-by'', LabelInterface, ''ipv6'', ''platform'',
            ''software-id'', ''version'', ''neighbor-address'', ''address6'', ''board'', ''identity'',
            ''interface-name'', ''mac-address'', ''system-caps'', ''system-description'']
      in obind (oall [Build (WithName ''entry'' (NewPropertyConstMetric prefix ''address'' labelNames))])
           (\<lambda>ms. Return \<lparr>neighbor_metrics = ms,
              neighbor_stats = Description prefix ''discovered'' ''Number of discovered neighbors by interface''
                                 [LabelDevName, LabelDevAddress, ''interface'']\<rparr>))"

definition neighbor_Describe :: "neighborCollector \<Rightarrow> desc list" where
  "neighbor_Describe k = list_Describe (neighbor_metrics k)"

definition neighbor_Collect :: "neighborCollector \<Rightarrow> 'w ctx \<Rightarrow> ('w mstate, goerror option) gom" where
  "neighbor_Collect k c =
     (let proplist =
        (if fv_Major (dev_FirmwareVersion (cx_Device c)) < 7
         then ''=.proplist=address4,interface,ipv6,platform,software-id,version,address,''
              @ ''address6,board,identity,interface-name,mac-address,system-caps,system-description''
         else ''=.proplist=address4,discovered-by,interface,ipv6,platform,software-id,version,address,''
              @ ''address6,board,identity,interface-name,mac-address,system-caps,system-description'')
      in fetch c [''/ip/neighbor/print'', proplist] ''fetch neighbor error: %w'' [] (\<lambda>reply.
     unless_err (emit_counts c (neighbor_stats k) (CountByProperty (rep_re reply) ''interface''))
     (if \<not> BoolValue (cx_FeatureCfg c) ''details'' False then gret None
      else join_loop (\<lambda>re. wrapped ''collect error: %w'' [] (list_Collect (neighbor_metrics k) (sen_map re)
             (WithLabelsFromMap (sen_map re)
               [''about'', ''address4'', ''discovered-by'', ''interface'', ''ipv6'', ''platform'', ''software-id'',
                ''version'', ''address'', ''address6'', ''board'', ''identity'', ''interface-name'',
                ''mac-address'', ''system-caps'', ''system-description''] c)))
           (rep_re reply) None)))"

lemma neighbor_new:
  "\<exists>k. newNeighborCollector = Return k
     \<and> fits (neighbor_metrics k) 18 \<and> length (dc_labels (neighbor_stats k)) = 3"
  by (simp add: newNeighborCollector_def build_simps)

interpretation neighbor: device_collector "as_collector neighbor_Describe neighbor_Collect newNeighborCollector"
proof -
  obtain k where k: "newNeighborCollector = Return k" and shape: "fits (neighbor_metrics k) 18" "length (dc_labels (neighbor_stats k)) = 3"
    using neighbor_new by blast
  show "device_collector (as_collector neighbor_Describe neighbor_Collect newNeighborCollector)"
    by (rule device_collectorI [OF k]; unfold neighbor_Collect_def Let_def)
       (use shape in \<open>auto intro!: contract_emits contract_runs safe_rules emits_counts runs_counts simp: contract_simps\<close>)
qed


section \<open>netwatch\<close>

record netwatchCollector =
  netwatch_metric :: PropertyMetric

definition newNetwatchCollector :: "netwatchCollector outcome" where
  "newNetwatchCollector =
     (let labelNames = [''host'', LabelComment, ''status'']
      in obind (Build (NewPropertyConstMetric ''netwatch'' ''status'' labelNames))
           (\<lambda>m. Return \<lparr>netwatch_metric = m\<rparr>))"

definition netwatch_Describe :: "netwatchCollector \<Rightarrow> desc list" where
  "netwatch_Describe k = Describe (netwatch_metric k)"

definition netwatch_Collect :: "netwatchCollector \<Rightarrow> 'w ctx \<Rightarrow> ('w mstate, goerror option) gom" where
  "netwatch_Collect k c =
     fetch c [''/tool/netwatch/print'', ''?disabled=false'', ''=.proplist=host,comment,status'']
       ''fetch netwatch error: %w'' [] (\<lambda>reply.
     join_loop (\<lambda>re. wrapped ''collect error %w'' [] (Collect (netwatch_metric k) (sen_map re)
         (WithLabelsFromMap (sen_map re) [''host'', ''comment'', ''status''] c)))
       (rep_re reply) None)"

lemma netwatch_new:
  "\<exists>k. newNetwatchCollector = Return k
     \<and> fits [netwatch_metric k] 5"
  by (simp add: newNetwatchCollector_def build_simps)

interpretation netwatch: announcing_collector "as_collector netwatch_Describe netwatch_Collect newNetwatchCollector"
proof -
  obtain k where k: "newNetwatchCollector = Return k" and shape: "fits [netwatch_metric k] 5"
    using netwatch_new by blast
  show "announcing_collector (as_collector netwatch_Describe netwatch_Collect newNetwatchCollector)"
    by (rule announcing_collectorI [OF k]; unfold netwatch_Collect_def)
       (use shape in \<open>auto intro!: contract_emits contract_runs safe_rules simp: contract_simps netwatch_Describe_def\<close>)
qed


section \<open>ntpc\<close>

record ntpcCollector =
  ntpc_enabled :: PropertyMetric
  ntpc_status :: PropertyMetric
  ntpc_offset :: PropertyMetric

definition msToSecConverter :: ValueConverter where
  "msToSecConverter input =
     (case ParseFloat input of
        Inl err \<Rightarrow> Inl (Wrapf ''parse %q into float error: %w'' [input] err)
      | Inr val \<Rightarrow> Inr (f64_div val (f64_of_int 1000)))"

definition metricFromNtpStatus :: ValueConverter where
  "metricFromNtpStatus input = Inr (if input = ''synchronized'' then f64_one else f64_zero)"

definition newNTPcCollector :: "ntpcCollector outcome" where
  "newNTPcCollector =
     (let prefix = ''ntp_client''
      in obind (Build (WithConverter MetricFromBool (NewPropertyGaugeMetric prefix ''enabled'' [])))
         (\<lambda>enabled. obind (Build (WithConverter metricFromNtpStatus (WithName ''synchronized''
              (NewPropertyGaugeMetric prefix ''status'' []))))
         (\<lambda>status. obind (Build (WithConverter msToSecConverter (NewPropertyGaugeMetric prefix ''system-offset'' [])))
         (\<lambda>offset. Return \<lparr>ntpc_enabled = enabled, ntpc_status = status, ntpc_offset = offset\<rparr>))))"

definition ntpc_Describe :: "ntpcCollector \<Rightarrow> desc list" where
  "ntpc_Describe k = Describe (ntpc_enabled k) @ Describe (ntpc_status k) @ Describe (ntpc_offset k)"

definition metric_Set :: "PropertyMetric \<Rightarrow> f64 \<Rightarrow> 'w ctx \<Rightarrow> ('w mstate, goerror option) gom" where
  \<comment> \<open>\<^verbatim>\<open>ps, _ := m.(metrics.PropertySimpleSet); ps.Set(value, ctx)\<close>\<close>
  "metric_Set m val c = (case m of SimpleMetric p \<Rightarrow> simple_Set p val c | _ \<Rightarrow> gpanic NilDereference)"

definition joined :: "goerror option \<Rightarrow> ('s, goerror option) gom \<Rightarrow> (goerror option \<Rightarrow> ('s, goerror option) gom)
    \<Rightarrow> ('s, goerror option) gom" where
  \<comment> \<open>\<^verbatim>\<open>errs = errors.Join(errs, m())\<close>\<close>
  "joined errs m k = gbind m (\<lambda>e. k (errors_join [errs, e]))"

definition ntpc_collectRO6 :: "ntpcCollector \<Rightarrow> 'w ctx \<Rightarrow> ('w mstate, goerror option) gom" where
  "ntpc_collectRO6 k c =
     fetch c [''/system/ntp/client/print'', ''=.proplist=enabled,active-server,last-adjustment'']
       ''fetch ntp client error: %w'' [] (\<lambda>reply.
     case rep_re reply of
       [] \<Rightarrow> gret None
     | sentence # _ \<Rightarrow>
         gbind (join_loop (\<lambda>m. m)
           [wrapped ''collect error: %w'' [] (Collect (ntpc_enabled k) (sen_map sentence) c)] None) (\<lambda>errs.
         joined errs (metric_Set (ntpc_status k)
           (if mlookup (sen_map sentence) ''active-server'' \<noteq> '''' then f64_one else f64_zero) c) (\<lambda>errs.
         let la = mlookup (sen_map sentence) ''last-adjustment''
         in if la = '''' then gret errs
            else case MetricFromDuration la of
                   Inl err \<Rightarrow> gret (errors_join [errs, Some (Wrapf ''parse last-adjustment %q error: %w'' [la] err)])
                 | Inr dur \<Rightarrow> joined errs (metric_Set (ntpc_offset k) dur c) gret)))"

definition ntpc_collectRO7 :: "ntpcCollector \<Rightarrow> 'w ctx \<Rightarrow> ('w mstate, goerror option) gom" where
  "ntpc_collectRO7 k c =
     fetch c [''/system/ntp/client/print'', ''=.proplist=enabled,status,system-offset'']
       ''fetch ntp client error: %w'' [] (\<lambda>reply.
     case rep_re reply of
       [] \<Rightarrow> gret None
     | re # _ \<Rightarrow> wrapped ''collect error: %w'' []
         (list_Collect [ntpc_enabled k, ntpc_status k, ntpc_offset k] (sen_map re) c))"

definition ntpc_Collect :: "ntpcCollector \<Rightarrow> 'w ctx \<Rightarrow> ('w mstate, goerror option) gom" where
  "ntpc_Collect k c =
     (if fv_Major (dev_FirmwareVersion (cx_Device c)) < 7 then ntpc_collectRO6 k c else ntpc_collectRO7 k c)"

definition is_simple :: "PropertyMetric \<Rightarrow> bool" where
  "is_simple m \<longleftrightarrow> (\<exists>p. m = SimpleMetric p)"

lemma simple_built [simp]:
  "pb_metricType b = metricGauge \<Longrightarrow> is_simple (build_metric (prepare b))"
  by (simp add: is_simple_def build_metric_def prepare_def Let_def)

lemma emits_metric_Set:
  "(\<And>x. mt_desc x \<in> set (Describe m) \<Longrightarrow> mt_labels x = cx_Labels c \<Longrightarrow> P x) \<Longrightarrow> emits P (metric_Set m v c)"
  unfolding metric_Set_def
  by (cases m) (auto simp: simple_Set_def simp del: gret_run gpanic_run intro!: emits_rules emits_emit)

lemma safe_metric_Set [safe_rules]: "safe wait (client_ok I) (metric_Set m v c)"
  unfolding metric_Set_def simple_Set_def by (cases m; simp only: PropertyMetric.case; intro safe_rules)

lemma runs_metric_Set:
  "is_simple m \<Longrightarrow> library_ok c \<Longrightarrow> fits [m] (length (cx_Labels c)) \<Longrightarrow>
     ok wait (client_ok I) (metric_Set m v c) (\<lambda>_. client_ok I)"
  by (auto simp: metric_Set_def is_simple_def simple_Set_def simp del: gret_run intro!: runs_gseq runs_emit runs_gret)

lemma emits_joined [emits_rules]: "emits P m \<Longrightarrow> (\<And>e. emits P (k e)) \<Longrightarrow> emits P (joined errs m k)"
  unfolding joined_def by (intro emits_rules)

lemma safe_joined [safe_rules]: "safe wait P m \<Longrightarrow> (\<And>e. safe wait P (k e)) \<Longrightarrow> safe wait P (joined errs m k)"
  unfolding joined_def by (intro safe_rules)

lemma runs_joined [runs_rules]:
  "ok wait P m (\<lambda>_. P) \<Longrightarrow> (\<And>e. ok wait P (k e) (\<lambda>_. P)) \<Longrightarrow> ok wait P (joined errs m k) (\<lambda>_. P)"
  unfolding joined_def by (erule ok_gbind) simp

lemma runs_gbind: "ok wait P m (\<lambda>_. P) \<Longrightarrow> (\<And>e. ok wait P (k e) (\<lambda>_. P)) \<Longrightarrow> ok wait P (gbind m k) (\<lambda>_. P)"
  by (erule ok_gbind) simp

lemma ntpc_new:
  "\<exists>k. newNTPcCollector = Return k
     \<and> fits [ntpc_enabled k, ntpc_status k, ntpc_offset k] 2 \<and> is_simple (ntpc_status k) \<and> is_simple (ntpc_offset k)"
  by (simp add: newNTPcCollector_def build_simps)

interpretation ntpc: announcing_collector "as_collector ntpc_Describe ntpc_Collect newNTPcCollector"
proof -
  obtain k where k: "newNTPcCollector = Return k" and shape: "fits [ntpc_enabled k, ntpc_status k, ntpc_offset k] 2" "is_simple (ntpc_status k)" "is_simple (ntpc_offset k)"
    using ntpc_new by blast
  show "announcing_collector (as_collector ntpc_Describe ntpc_Collect newNTPcCollector)"
    by (rule announcing_collectorI [OF k]; unfold ntpc_Collect_def ntpc_collectRO6_def ntpc_collectRO7_def Let_def)
       (use shape in \<open>auto intro!: contract_emits contract_runs safe_rules emits_joined runs_joined emits_metric_Set runs_metric_Set runs_gbind simp: contract_simps ntpc_Describe_def simp del: gret_run split: list.split\<close>)
qed


section \<open>optics\<close>

record opticsCollector =
  optics_metrics :: "PropertyMetric list"

definition newOpticsCollector :: "opticsCollector outcome" where
  "newOpticsCollector =
     (let prefix = ''optics'';
          gauge = (\<lambda>property. NewPropertyGaugeMetric prefix property [LabelInterface])
      in obind (oall
           [Build (WithConverter MetricFromBool (WithHelp ''RX status'' (gauge ''sfp-rx-loss''))),
            Build (WithConverter MetricFromBool (WithHelp ''TX status'' (gauge ''sfp-tx-fault''))),
            Build (WithHelp ''RX power in dBM'' (gauge ''sfp-rx-power'')),
            Build (WithHelp ''TX power in dBM'' (gauge ''sfp-tx-power'')),
            Build (WithHelp ''temperature in degree celsius'' (gauge ''sfp-temperature'')),
            Build (WithHelp ''bias is milliamps'' (gauge ''sfp-tx-bias-current'')),
            Build (gauge ''sfp-supply-voltage'')])
         (\<lambda>ms. Return \<lparr>optics_metrics = ms\<rparr>))"

definition optics_Describe :: "opticsCollector \<Rightarrow> desc list" where
  "optics_Describe k = list_Describe (optics_metrics k)"

definition listing :: "string list \<Rightarrow> string" where
  \<comment> \<open>the verb \<^verbatim>\<open>%v\<close> of a list of strings\<close>
  "listing xs = ''['' @ join_with '' '' xs @ '']''"

definition named_loop :: "PropertyMetric list \<Rightarrow> string \<Rightarrow> 'w ctx \<Rightarrow> sentence list
    \<Rightarrow> ('w mstate, goerror option) gom" where
  \<comment> \<open>the loop of \<^verbatim>\<open>optics\<close> and \<^verbatim>\<open>poe\<close> over the sentences that have a name\<close>
  "named_loop ms fmt c res = join_loop (\<lambda>se.
     case mget (sen_map se) ''name'' of
       None \<Rightarrow> gret None
     | Some name \<Rightarrow> wrapped fmt [name] (list_Collect ms (sen_map se) (WithLabels [name] c))) res None"

definition optics_collectForInterfaces :: "opticsCollector \<Rightarrow> string list \<Rightarrow> 'w ctx
    \<Rightarrow> ('w mstate, goerror option) gom" where
  "optics_collectForInterfaces k ifaces c =
     fetch c [''/interface/ethernet/monitor'', ''=numbers='' @ join_with '','' ifaces, ''=once='',
              ''=.proplist=name,sfp-rx-loss,sfp-tx-fault,sfp-temperature,sfp-supply-voltage,sfp-rx-power,''
              @ ''sfp-tx-power,sfp-tx-bias-current'']
       ''fetch ethernet monitor for %v error: %w'' [listing ifaces] (\<lambda>reply.
     named_loop (optics_metrics k) ''collect %s error: %w'' c (rep_re reply))"

definition optics_Collect :: "opticsCollector \<Rightarrow> 'w ctx \<Rightarrow> ('w mstate, goerror option) gom" where
  "optics_Collect k c =
     fetch c [''/interface/ethernet/print'', ''?disabled=false'', ''=.proplist=name,default-name'']
       ''fetch ethernet error: %w'' [] (\<lambda>reply.
     if rep_re reply = [] then gret None
     else optics_collectForInterfaces k
            (map (\<lambda>iface. mlookup (sen_map iface) ''name'')
              (filter (\<lambda>iface. has_prefix (mlookup (sen_map iface) ''name'') ''sfp''
                             \<or> has_prefix (mlookup (sen_map iface) ''default-name'') ''sfp'') (rep_re reply))) c)"

lemma optics_new:
  "\<exists>k. newOpticsCollector = Return k
     \<and> fits (optics_metrics k) 3"
  by (simp add: newOpticsCollector_def build_simps)

interpretation optics: announcing_collector "as_collector optics_Describe optics_Collect newOpticsCollector"
proof -
  obtain k where k: "newOpticsCollector = Return k" and shape: "fits (optics_metrics k) 3"
    using optics_new by blast
  show "announcing_collector (as_collector optics_Describe optics_Collect newOpticsCollector)"
    by (rule announcing_collectorI [OF k]; unfold optics_Collect_def optics_collectForInterfaces_def named_loop_def)
       (use shape in \<open>auto intro!: contract_emits contract_runs safe_rules simp: contract_simps optics_Describe_def\<close>)
qed


section \<open>poe\<close>

record poeCollector =
  poe_metrics :: "PropertyMetric list"

definition newPOECollector :: "poeCollector outcome" where
  "newPOECollector =
     (let prefix = ''poe''
      in obind (oall
           [Build (WithHelp ''current in mA'' (NewPropertyGaugeMetric prefix ''current'' [LabelInterface])),
            Build (WithHelp ''power in W'' (NewPropertyGaugeMetric prefix ''wattage'' [LabelInterface])),
            Build (WithHelp ''voltage in V'' (NewPropertyGaugeMetric prefix ''voltage'' [LabelInterface]))])
         (\<lambda>ms. Return \<lparr>poe_metrics = ms\<rparr>))"

definition poe_Describe :: "poeCollector \<Rightarrow> desc list" where
  "poe_Describe k = list_Describe (poe_metrics k)"

definition poe_collectForInterfaces :: "poeCollector \<Rightarrow> string list \<Rightarrow> 'w ctx
    \<Rightarrow> ('w mstate, goerror option) gom" where
  "poe_collectForInterfaces k ifaces c =
     fetch c [''/interface/ethernet/poe/monitor'', ''=numbers='' @ join_with '','' ifaces, ''=once='',
              ''=.proplist=poe-out-current,poe-out-voltage,poe-out-power'']
       ''fetch poe monitor for %v error: %w'' [listing ifaces] (\<lambda>reply.
     named_loop (poe_metrics k) ''collect %v error: %w'' c (rep_re reply))"

definition poe_Collect :: "poeCollector \<Rightarrow> 'w ctx \<Rightarrow> ('w mstate, goerror option) gom" where
  "poe_Collect k c =
     fetch c [''/interface/ethernet/poe/print'', ''=.proplist=name''] ''fetch ethernet poe error: %w'' [] (\<lambda>reply.
     if rep_re reply = [] then gret None
     else poe_collectForInterfaces k (map (\<lambda>iface. mlookup (sen_map iface) ''name'') (rep_re reply)) c)"

lemma poe_new:
  "\<exists>k. newPOECollector = Return k
     \<and> fits (poe_metrics k) 3"
  by (simp add: newPOECollector_def build_simps)

interpretation poe: announcing_collector "as_collector poe_Describe poe_Collect newPOECollector"
proof -
  obtain k where k: "newPOECollector = Return k" and shape: "fits (poe_metrics k) 3"
    using poe_new by blast
  show "announcing_collector (as_collector poe_Describe poe_Collect newPOECollector)"
    by (rule announcing_collectorI [OF k]; unfold poe_Collect_def poe_collectForInterfaces_def named_loop_def)
       (use shape in \<open>auto intro!: contract_emits contract_runs safe_rules simp: contract_simps poe_Describe_def\<close>)
qed


section \<open>pools\<close>

record poolCollector =
  pool_metrics :: "PropertyMetric list"

definition newPoolCollector :: "poolCollector outcome" where
  "newPoolCollector =
     (let prefix = ''ip_pool''; labelNames = [''ip_version'', ''pool'']
      in obind (oall
           [Build (WithHelp ''number of used IP/prefixes in a pool'' (NewPropertyGaugeMetric prefix ''used'' labelNames)),
            Build (WithHelp ''number of total IP in a pool'' (NewPropertyGaugeMetric prefix ''total'' labelNames))])
         (\<lambda>ms. Return \<lparr>pool_metrics = ms\<rparr>))"

definition pools_Describe :: "poolCollector \<Rightarrow> desc list" where
  "pools_Describe k = list_Describe (pool_metrics k)"

definition pool_collectForIPv4 :: "poolCollector \<Rightarrow> 'w ctx \<Rightarrow> ('w mstate, goerror option) gom" where
  "pool_collectForIPv4 k c =
     fetch c [''/ip/pool/print'', ''=.proplist=name,total,used''] ''fetch ipv4 pool error: %w'' [] (\<lambda>reply.
     join_loop (\<lambda>re. wrapped ''collect error: %w'' [] (list_Collect (pool_metrics k) (sen_map re)
         (WithLabels [''4'', mlookup (sen_map re) ''name''] c)))
       (rep_re reply) None)"

fun pool_loop :: "PropertyMetric \<Rightarrow> 'w ctx \<Rightarrow> (string \<times> int) list \<Rightarrow> ('w mstate, goerror option) gom" where
  "pool_loop m c [] = gret None"
| "pool_loop m c ((pool, used) # counter) =
     unless_err (wrapped ''collect ipv6 pool %s error: %w'' [pool]
         (Collect m [(''used'', Itoa used)] (WithLabels [''6'', pool] c)))
       (pool_loop m c counter)"

definition pool_collectForIPv6 :: "poolCollector \<Rightarrow> 'w ctx \<Rightarrow> ('w mstate, goerror option) gom" where
  "pool_collectForIPv6 k c =
     fetch c [''/ipv6/pool/used/print'', ''=.proplist=pool''] ''fetch used ipv6 pool error: %w'' [] (\<lambda>reply.
     pool_loop (hd (pool_metrics k)) c (CountByProperty (rep_re reply) ''pool''))"

definition pools_Collect :: "poolCollector \<Rightarrow> 'w ctx \<Rightarrow> ('w mstate, goerror option) gom" where
  "pools_Collect k c =
     joined None (pool_collectForIPv4 k c) (\<lambda>errs.
     if \<not> dev_IPv6Disabled (cx_Device c) then joined errs (pool_collectForIPv6 k c) gret else gret errs)"

lemma emits_pool_loop:
  "(\<And>reply ls. emits P (Collect m reply (WithLabels ls c))) \<Longrightarrow> emits P (pool_loop m c xs)"
proof (induction xs)
  case (Cons x xs)
  then show ?case by (cases x) (simp only: pool_loop.simps, intro emits_unless_err emits_wrapped, auto)
qed (simp only: pool_loop.simps emits_gret)

lemma runs_pool_loop:
  "(\<And>reply a b. ok wait P (Collect m reply (WithLabels [a, b] c)) (\<lambda>_. P)) \<Longrightarrow> ok wait P (pool_loop m c xs) (\<lambda>_. P)"
proof (induction xs)
  case (Cons x xs)
  then show ?case by (cases x) (simp only: pool_loop.simps, intro runs_unless_err runs_wrapped, auto)
qed (simp only: pool_loop.simps ok_gret_same)

lemma safe_pool_loop [safe_rules]: "safe wait (client_ok I) (pool_loop m c xs)"
  by (induction m c xs rule: pool_loop.induct)
     (simp_all only: pool_loop.simps safe_gret safe_unless_err safe_wrapped safe_Collect)

declare pool_loop.simps [simp del]

lemma hd_described: "ms \<noteq> [] \<Longrightarrow> d \<in> set (Describe (hd ms)) \<Longrightarrow> \<exists>m \<in> set ms. d \<in> set (Describe m)"
  by (cases ms) auto

lemma pools_new:
  "\<exists>k. newPoolCollector = Return k
     \<and> fits (pool_metrics k) 4 \<and> pool_metrics k \<noteq> [] \<and> fits [hd (pool_metrics k)] 4"
  by (simp add: newPoolCollector_def build_simps)

interpretation pools: announcing_collector "as_collector pools_Describe pools_Collect newPoolCollector"
proof -
  obtain k where k: "newPoolCollector = Return k" and shape: "fits (pool_metrics k) 4" "pool_metrics k \<noteq> []" "fits [hd (pool_metrics k)] 4"
    using pools_new by blast
  show "announcing_collector (as_collector pools_Describe pools_Collect newPoolCollector)"
    by (rule announcing_collectorI [OF k]; unfold pools_Collect_def pool_collectForIPv4_def pool_collectForIPv6_def)
       (use shape in \<open>auto intro!: contract_emits contract_runs safe_rules emits_joined runs_joined emits_pool_loop runs_pool_loop simp: contract_simps pools_Describe_def hd_described simp del: gret_run\<close>)
qed


section \<open>ppp\<close>

record pppCollector =
  ppp_metrics :: PropertyMetric
  ppp_active :: desc

definition newPPPCollector :: "pppCollector outcome" where
  "newPPPCollector =
     (let prefix = ''ppp''; labelNames = [''name'', ''service'', ''caller_id'', ''address'']
      in obind (Build (WithName ''active_peer'' (NewPropertyConstMetric prefix ''address'' labelNames)))
           (\<lambda>m. Return \<lparr>ppp_metrics = m,
              ppp_active = Description prefix ''active'' ''number of active ppp connections''
                             [LabelDevName, LabelDevAddress]\<rparr>))"

definition ppp_Describe :: "pppCollector \<Rightarrow> desc list" where
  "ppp_Describe k = Describe (ppp_metrics k)"

definition ppp_collectDetails :: "pppCollector \<Rightarrow> 'w ctx \<Rightarrow> ('w mstate, goerror option) gom" where
  "ppp_collectDetails k c =
     fetch c [''/ppp/active/print'', ''=.proplist=name,service,caller-id,address''] ''fetch ppp error: %w'' [] (\<lambda>reply.
     gbind (join_loop (\<lambda>re. wrapped ''collect error: %w'' [] (Collect (ppp_metrics k) (sen_map re)
         (WithLabelsFromMap (sen_map re) [''name'', ''service'', ''caller-id'', ''address''] c)))
       (rep_re reply) None) (\<lambda>errs.
     gseq (emit_for c [] (ppp_active k) GaugeValue (f64_of_int (int (length (rep_re reply))))) (gret errs)))"

definition ppp_collectStats :: "pppCollector \<Rightarrow> 'w ctx \<Rightarrow> ('w mstate, goerror option) gom" where
  "ppp_collectStats k c =
     fetch c [''/ppp/active/print'', ''=count-only=''] ''fetch ppp error: %w'' [] (\<lambda>reply.
     done_map reply (\<lambda>m.
     case MetricFromString (mlookup m ''ret'') of
       Inl err \<Rightarrow> gret (Some (Wrapf ''collect error: %w'' [] err))
     | Inr cnt \<Rightarrow> gseq (emit_for c [] (ppp_active k) GaugeValue cnt) (gret None)))"

definition ppp_Collect :: "pppCollector \<Rightarrow> 'w ctx \<Rightarrow> ('w mstate, goerror option) gom" where
  "ppp_Collect k c =
     (if BoolValue (cx_FeatureCfg c) ''details'' False then ppp_collectDetails k c else ppp_collectStats k c)"

lemma ppp_new:
  "\<exists>k. newPPPCollector = Return k
     \<and> fits [ppp_metrics k] 6 \<and> length (dc_labels (ppp_active k)) = 2"
  by (simp add: newPPPCollector_def build_simps)

interpretation ppp: device_collector "as_collector ppp_Describe ppp_Collect newPPPCollector"
proof -
  obtain k where k: "newPPPCollector = Return k" and shape: "fits [ppp_metrics k] 6" "length (dc_labels (ppp_active k)) = 2"
    using ppp_new by blast
  show "device_collector (as_collector ppp_Describe ppp_Collect newPPPCollector)"
    by (rule device_collectorI [OF k]; unfold ppp_Collect_def ppp_collectDetails_def ppp_collectStats_def)
       (use shape in \<open>auto intro!: contract_emits contract_runs safe_rules runs_gbind simp: contract_simps simp del: gret_run\<close>)
qed


section \<open>queue\<close>

record queueCollector =
  queue_monitorQueuedBytes :: PropertyMetric
  queue_monitorQueuedPackets :: PropertyMetric
  queue_metrics :: "PropertyMetric list"

definition metricFromQueueTxRx :: TXRXValueConverter where
  "metricFromQueueTxRx val = SplitStringToFloats val ''/''"

definition newQueueCollector :: "queueCollector outcome" where
  "newQueueCollector =
     (let labelNames = [''simple_queue_name'', ''queue'', LabelComment]; sqPrefix = ''simple_queue'';
          rxtx = (\<lambda>property. Build (WithRxTxConverter metricFromQueueTxRx
                    (NewPropertyRxTxMetric sqPrefix property labelNames)))
      in obind (Build (NewPropertyGaugeMetric ''queue'' ''queued-bytes'' []))
         (\<lambda>qb. obind (Build (NewPropertyGaugeMetric ''queue'' ''queued-packets'' []))
         (\<lambda>qp. obind (oall [rxtx ''packets'', rxtx ''bytes'', rxtx ''queued-packets'', rxtx ''queued-bytes''])
         (\<lambda>ms. Return \<lparr>queue_monitorQueuedBytes = qb, queue_monitorQueuedPackets = qp, queue_metrics = ms\<rparr>))))"

definition queue_Describe :: "queueCollector \<Rightarrow> desc list" where
  "queue_Describe k = list_Describe (queue_metrics k) @ Describe (queue_monitorQueuedBytes k)
     @ Describe (queue_monitorQueuedPackets k)"

definition queue_collectQueue :: "queueCollector \<Rightarrow> 'w ctx \<Rightarrow> ('w mstate, goerror option) gom" where
  "queue_collectQueue k c =
     fetch c [''/queue/monitor'', ''=once='', ''=.proplist=queued-packets,queued-bytes'']
       ''fetch queue monitor error: %w'' [] (\<lambda>reply.
     case rep_re reply of
       [] \<Rightarrow> gret None
     | re # _ \<Rightarrow>
         unless_err (wrapped ''collect queue monitor error: %w'' []
           (Collect (queue_monitorQueuedBytes k) (sen_map re) c))
         (wrapped ''collect queue monitor error: %w'' []
           (Collect (queue_monitorQueuedPackets k) (sen_map re) c)))"

definition queue_collectSimpleQueue :: "queueCollector \<Rightarrow> 'w ctx \<Rightarrow> ('w mstate, goerror option) gom" where
  "queue_collectSimpleQueue k c =
     fetch c [''/queue/simple/print'', ''?disabled=false'',
              ''=.proplist=name,queue,comment,bytes,packets,queued-bytes,queued-packets'']
       ''fetch simple queue error: %w'' [] (\<lambda>reply.
     join_loop (\<lambda>re. wrapped ''collect %v/%v error: %w''
         [mlookup (sen_map re) ''name'', mlookup (sen_map re) ''queue'']
         (list_Collect (queue_metrics k) (sen_map re)
           (WithLabelsFromMap (sen_map re) [''name'', ''queue'', ''comment''] c)))
       (rep_re reply) None)"

definition queue_Collect :: "queueCollector \<Rightarrow> 'w ctx \<Rightarrow> ('w mstate, goerror option) gom" where
  "queue_Collect k c = join_all [queue_collectQueue k c, queue_collectSimpleQueue k c] []"

lemma queue_new:
  "\<exists>k. newQueueCollector = Return k
     \<and> fits (queue_metrics k) 5 \<and> fits [queue_monitorQueuedBytes k] 2 \<and> fits [queue_monitorQueuedPackets k] 2"
  by (simp add: newQueueCollector_def build_simps)

interpretation queue: announcing_collector "as_collector queue_Describe queue_Collect newQueueCollector"
proof -
  obtain k where k: "newQueueCollector = Return k" and shape: "fits (queue_metrics k) 5" "fits [queue_monitorQueuedBytes k] 2" "fits [queue_monitorQueuedPackets k] 2"
    using queue_new by blast
  show "announcing_collector (as_collector queue_Describe queue_Collect newQueueCollector)"
    by (rule announcing_collectorI [OF k]; unfold queue_Collect_def queue_collectQueue_def queue_collectSimpleQueue_def)
       (use shape in \<open>auto intro!: contract_emits contract_runs safe_rules simp: contract_simps queue_Describe_def split: list.split\<close>)
qed

end
