(* ===== verification/Collectors_D.thy ===== *)
theory Collectors_D
  imports Collectors_C
begin

text \<open>
  The collectors \<^verbatim>\<open>radius\<close>, \<^verbatim>\<open>resource\<close>, \<^verbatim>\<open>routes\<close>, \<^verbatim>\<open>scripts\<close>, \<^verbatim>\<open>service\<close>, \<^verbatim>\<open>switch\<close>, \<^verbatim>\<open>w60g\<close>,
  \<^verbatim>\<open>wireguard\<close>, \<^verbatim>\<open>wlanif\<close> and \<^verbatim>\<open>wlansta\<close>.  All of them meet the contract.
\<close>

section \<open>Loops of these collectors\<close>

fun until_err :: "('a \<Rightarrow> ('s, goerror option) gom) \<Rightarrow> 'a list \<Rightarrow> ('s, goerror option) gom" where
  \<comment> \<open>\<^verbatim>\<open>for _, x := range xs { if err := f(x); err != nil { return err } }; return nil\<close>\<close>
  "until_err f [] = gret None"
| "until_err f (x # xs) = unless_err (f x) (until_err f xs)"

fun joined_loop :: "('a \<Rightarrow> ('s, goerror option) gom) \<Rightarrow> 'a list \<Rightarrow> goerror option
    \<Rightarrow> ('s, goerror option) gom" where
  \<comment> \<open>\<^verbatim>\<open>for _, x := range xs { errs = errors.Join(errs, f(x)) }; return errs\<close>\<close>
  "joined_loop f [] errs = gret errs"
| "joined_loop f (x # xs) errs = joined errs (f x) (joined_loop f xs)"

lemma emits_until_err: "(\<And>x. x \<in> set xs \<Longrightarrow> emits P (f x)) \<Longrightarrow> emits P (until_err f xs)"
proof (induction xs)
  case (Cons x xs)
  then show ?case by (simp only: until_err.simps, intro emits_unless_err) auto
qed (simp only: until_err.simps emits_gret)

lemma runs_until_err: "(\<And>x. x \<in> set xs \<Longrightarrow> ok wait P (f x) (\<lambda>_. P)) \<Longrightarrow> ok wait P (until_err f xs) (\<lambda>_. P)"
proof (induction xs)
  case (Cons x xs)
  then show ?case by (simp only: until_err.simps, intro runs_unless_err) auto
qed (simp only: until_err.simps ok_gret_same)

lemma emits_joined_loop: "(\<And>x. x \<in> set xs \<Longrightarrow> emits P (f x)) \<Longrightarrow> emits P (joined_loop f xs e)"
proof (induction xs arbitrary: e)
  case (Cons x xs)
  then show ?case by (simp only: joined_loop.simps, intro emits_joined) auto
qed (simp only: joined_loop.simps emits_gret)

lemma runs_joined_loop:
  "(\<And>x. x \<in> set xs \<Longrightarrow> ok wait P (f x) (\<lambda>_. P)) \<Longrightarrow> ok wait P (joined_loop f xs e) (\<lambda>_. P)"
proof (induction xs arbitrary: e)
  case (Cons x xs)
  then show ?case by (simp only: joined_loop.simps, intro runs_joined) auto
qed (simp only: joined_loop.simps ok_gret_same)

lemma safe_until_err [safe_rules]: "(\<And>x. x \<in> set xs \<Longrightarrow> safe wait P (f x)) \<Longrightarrow> safe wait P (until_err f xs)"
proof (induction xs)
  case (Cons x xs)
  then show ?case by (simp only: until_err.simps, intro safe_unless_err) auto
qed (simp only: until_err.simps safe_gret)

lemma safe_joined_loop [safe_rules]: "(\<And>x. x \<in> set xs \<Longrightarrow> safe wait P (f x)) \<Longrightarrow> safe wait P (joined_loop f xs e)"
proof (induction xs arbitrary: e)
  case (Cons x xs)
  then show ?case by (simp only: joined_loop.simps, intro safe_joined) auto
qed (simp only: joined_loop.simps safe_gret)

declare until_err.simps [simp del] joined_loop.simps [simp del]

lemma emits_cases:
  "emits P a \<Longrightarrow> (\<And>x ys. emits P (f x ys)) \<Longrightarrow> emits P (case xs of [] \<Rightarrow> a | x # ys \<Rightarrow> f x ys)"
  "(\<And>u v. p = (u, v) \<Longrightarrow> emits P (g u v)) \<Longrightarrow> emits P (case p of (u, v) \<Rightarrow> g u v)"
  by (cases xs; simp) (cases p; simp)

lemma runs_cases:
  "ok wait P a Q \<Longrightarrow> (\<And>x ys. ok wait P (f x ys) Q) \<Longrightarrow> ok wait P (case xs of [] \<Rightarrow> a | x # ys \<Rightarrow> f x ys) Q"
  "(\<And>u v. p = (u, v) \<Longrightarrow> ok wait P (g u v) Q) \<Longrightarrow> ok wait P (case p of (u, v) \<Rightarrow> g u v) Q"
  by (cases xs; simp) (cases p; simp)

lemmas loop_emits = emits_cases emits_until_err emits_joined_loop emits_joined emits_counts
lemmas loop_runs = runs_cases runs_until_err runs_joined_loop runs_joined runs_counts runs_gbind


section \<open>radius\<close>

record radiusCollector =
  radius_metrics :: "PropertyMetric list"

definition newRadiusCollector :: "radiusCollector outcome" where
  "newRadiusCollector =
     (let prefix = ''radius_incoming''
      in obind (oall
           [Build (NewPropertyCounterMetric prefix ''requests'' []),
            Build (NewPropertyCounterMetric prefix ''bad-requests'' []),
            Build (NewPropertyCounterMetric prefix ''naks'' []),
            Build (NewPropertyCounterMetric prefix ''acks'' [])])
         (\<lambda>ms. Return \<lparr>radius_metrics = ms\<rparr>))"

definition radius_Describe :: "radiusCollector \<Rightarrow> desc list" where
  "radius_Describe k = list_Describe (radius_metrics k)"

definition radius_Collect :: "radiusCollector \<Rightarrow> 'w ctx \<Rightarrow> ('w mstate, goerror option) gom" where
  "radius_Collect k c =
     fetch c [''/radius/incoming/monitor'', ''=once=''] ''fetch radius incoming monitor error: %w'' [] (\<lambda>reply.
     case rep_re reply of
       [] \<Rightarrow> gret None
     | re # _ \<Rightarrow> wrapped ''collect radius incoming monitor error: %w'' []
         (list_Collect (radius_metrics k) (sen_map re) c))"

lemma radius_new:
  "\<exists>k. newRadiusCollector = Return k
     \<and> fits (radius_metrics k) 2"
  by (simp add: newRadiusCollector_def build_simps)

interpretation radius: announcing_collector "as_collector radius_Describe radius_Collect newRadiusCollector"
proof -
  obtain k where k: "newRadiusCollector = Return k" and shape: "fits (radius_metrics k) 2"
    using radius_new by blast
  show "announcing_collector (as_collector radius_Describe radius_Collect newRadiusCollector)"
    by (rule announcing_collectorI [OF k]; unfold radius_Collect_def)
       (use shape in \<open>auto intro!: contract_emits contract_runs safe_rules simp: contract_simps radius_Describe_def split: list.split\<close>)
qed


section \<open>resource\<close>

record resourceCollector =
  resource_versionDesc :: desc
  resource_metrics :: "PropertyMetric list"

definition newResourceCollector :: "int \<Rightarrow> resourceCollector outcome" where
  \<comment> \<open>\<open>now\<close> is the reading of the clock that \<^verbatim>\<open>UnixTimeFromDuration\<close> takes\<close>
  "newResourceCollector now =
     (let prefix = ''system''; gauge = (\<lambda>property. Build (NewPropertyGaugeMetric prefix property []))
      in obind (oall
           [gauge ''free-memory'', gauge ''total-memory'', gauge ''cpu-load'', gauge ''free-hdd-space'',
            gauge ''total-hdd-space'', gauge ''cpu-frequency'', gauge ''bad-blocks'',
            Build (WithConverter MetricFromDuration (WithName ''uptime_seconds''
              (NewPropertyCounterMetric prefix ''uptime'' []))),
            Build (WithConverter (UnixTimeFromDuration now) (WithName ''start_time_seconds''
              (NewPropertyCounterMetric prefix ''uptime'' []))),
            gauge ''cpu-count''])
         (\<lambda>ms. Return \<lparr>resource_versionDesc = Description prefix ''routeros'' ''Board and system version''
             [LabelDevName, LabelDevAddress, ''board_name'', ''version'', ''architecture''],
           resource_metrics = ms\<rparr>))"

definition resource_Describe :: "resourceCollector \<Rightarrow> desc list" where
  "resource_Describe k = list_Describe (resource_metrics k) @ [resource_versionDesc k]"

definition resource_collectForStat :: "resourceCollector \<Rightarrow> 'w ctx \<Rightarrow> sentence
    \<Rightarrow> ('w mstate, goerror option) gom" where
  "resource_collectForStat k c reply =
     (let v = mlookup (sen_map reply)
      in gseq (emit_for c [v ''board-name'', v ''version'', v ''architecture-name'']
                (resource_versionDesc k) GaugeValue f64_one)
              (wrapped ''collect error: %w'' [] (list_Collect (resource_metrics k) (sen_map reply) c)))"

definition resource_Collect :: "resourceCollector \<Rightarrow> 'w ctx \<Rightarrow> ('w mstate, goerror option) gom" where
  "resource_Collect k c =
     fetch c [''/system/resource/print'',
              ''=.proplist=free-memory,total-memory,cpu-load,free-hdd-space,total-hdd-space,''
              @ ''cpu-frequency,bad-blocks,uptime,cpu-count,board-name,version,architecture-name'']
       ''fetch resource error: %w'' [] (\<lambda>reply.
     join_loop (resource_collectForStat k c) (rep_re reply) None)"

lemma resource_new:
  "\<exists>k. newResourceCollector now = Return k
     \<and> fits (resource_metrics k) 2 \<and> length (dc_labels (resource_versionDesc k)) = 5"
  by (simp add: newResourceCollector_def build_simps)

interpretation resource: announcing_collector "as_collector resource_Describe resource_Collect (newResourceCollector now)"
proof -
  obtain k where k: "newResourceCollector now = Return k" and shape: "fits (resource_metrics k) 2" "length (dc_labels (resource_versionDesc k)) = 5"
    using resource_new by blast
  show "announcing_collector (as_collector resource_Describe resource_Collect (newResourceCollector now))"
    by (rule announcing_collectorI [OF k]; unfold resource_Collect_def resource_collectForStat_def Let_def)
       (use shape in \<open>auto intro!: contract_emits contract_runs safe_rules simp: contract_simps resource_Describe_def\<close>)
qed


section \<open>routes\<close>

record routesCollector =
  routes_count :: PropertyMetric
  routes_countProtocol :: PropertyMetric
  routes_protocols :: "string list"

definition newRoutesCollector :: "routesCollector outcome" where
  "newRoutesCollector =
     (let prefix = ''routes''
      in obind (Build (WithHelp ''number of routes in RIB'' (NewPropertyRetMetric prefix '''' [''ip_version''])))
         (\<lambda>total. obind (Build (WithHelp ''number of routes per protocol in RIB''
              (NewPropertyRetMetric prefix ''protocol'' [''ip_version'', ''protocol''])))
         (\<lambda>per. Return \<lparr>routes_count = total, routes_countProtocol = per,
            routes_protocols = [''bgp'', ''static'', ''ospf'', ''dynamic'', ''connect'', ''rip'']\<rparr>)))"

definition routes_Describe :: "routesCollector \<Rightarrow> desc list" where
  "routes_Describe k = Describe (routes_count k) @ Describe (routes_countProtocol k)"

definition routes_collectCount :: "routesCollector \<Rightarrow> string \<Rightarrow> string \<Rightarrow> 'w ctx
    \<Rightarrow> ('w mstate, goerror option) gom" where
  "routes_collectCount k ipVersion topic c =
     fetch c [''/'' @ topic @ ''/route/print'', ''?disabled=false'', ''=count-only='']
       ''fetch route %s error: %w'' [topic] (\<lambda>reply.
     done_map reply (\<lambda>m. wrapped ''collect router %s %s error: %w'' [topic, ipVersion]
       (Collect (routes_count k) m (WithLabels [ipVersion] c))))"

definition routes_collectCountProtocol :: "routesCollector \<Rightarrow> string \<Rightarrow> string \<Rightarrow> 'w ctx \<Rightarrow> string
    \<Rightarrow> ('w mstate, goerror option) gom" where
  "routes_collectCountProtocol k ipVersion topic c protocol =
     fetch c [''/'' @ topic @ ''/route/print'', ''?disabled=false'', ''?'' @ protocol, ''=count-only='']
       ''fetch route %s error: %w'' [topic] (\<lambda>reply.
     done_map reply (\<lambda>m. wrapped ''collect count protocol %s %s error: %w'' [topic, protocol]
       (Collect (routes_countProtocol k) m (WithLabels [ipVersion, protocol] c))))"

definition routes_collectForIPVersion :: "routesCollector \<Rightarrow> string \<Rightarrow> string \<Rightarrow> 'w ctx
    \<Rightarrow> ('w mstate, goerror option) gom" where
  "routes_collectForIPVersion k ipVersion topic c =
     unless_err (routes_collectCount k ipVersion topic c)
       (until_err (routes_collectCountProtocol k ipVersion topic c) (routes_protocols k))"

definition routes_Collect :: "routesCollector \<Rightarrow> 'w ctx \<Rightarrow> ('w mstate, goerror option) gom" where
  "routes_Collect k c =
     joined None (routes_collectForIPVersion k ''4'' ''ip'' c) (\<lambda>errs.
     if \<not> dev_IPv6Disabled (cx_Device c)
     then joined errs (routes_collectForIPVersion k ''6'' ''ipv6'' c) gret else gret errs)"

lemma routes_new:
  "\<exists>k. newRoutesCollector = Return k
     \<and> fits [routes_count k] 3 \<and> fits [routes_countProtocol k] 4"
  by (simp add: newRoutesCollector_def build_simps)

interpretation routes: announcing_collector "as_collector routes_Describe routes_Collect newRoutesCollector"
proof -
  obtain k where k: "newRoutesCollector = Return k" and shape: "fits [routes_count k] 3" "fits [routes_countProtocol k] 4"
    using routes_new by blast
  show "announcing_collector (as_collector routes_Describe routes_Collect newRoutesCollector)"
    by (rule announcing_collectorI [OF k]; unfold routes_Collect_def routes_collectForIPVersion_def routes_collectCount_def routes_collectCountProtocol_def)
       (use shape in \<open>auto intro!: contract_emits contract_runs safe_rules loop_emits loop_runs simp: contract_simps routes_Describe_def simp del: gret_run\<close>)
qed


section \<open>scripts\<close>

record scriptCollector =
  script_metric :: desc

definition newScriptCollector :: "scriptCollector outcome" where
  "newScriptCollector = Return \<lparr>script_metric = Description '''' ''script'' ''metrics from scripts''
     [LabelDevName, LabelDevAddress, ''script'']\<rparr>"

definition scripts_Describe :: "scriptCollector \<Rightarrow> desc list" where
  "scripts_Describe k = [script_metric k]"

definition scripts_collectScript :: "scriptCollector \<Rightarrow> 'w ctx \<Rightarrow> string
    \<Rightarrow> ('w mstate, goerror option) gom" where
  "scripts_collectScript k c script =
     fetch c [''/system/script/run'', ''=number='' @ script] ''run script %s error: %w'' [script] (\<lambda>reply.
     done_map reply (\<lambda>m.
     case mget m ''ret'' of
       None \<Rightarrow> gret None
     | Some v \<Rightarrow>
         (case MetricFromString v of
            Inl err \<Rightarrow> gret (Some (Wrapf ''parse script %s result %v error: %w'' [script, v] err))
          | Inr value \<Rightarrow> gseq (emit_for c [script] (script_metric k) GaugeValue value) (gret None))))"

definition scripts_Collect :: "scriptCollector \<Rightarrow> 'w ctx \<Rightarrow> ('w mstate, goerror option) gom" where
  "scripts_Collect k c =
     (case Strs (cx_FeatureCfg c) ''scripts'' of
        Inl err \<Rightarrow> gret (Some (Wrapf ''invalid configuration: %w'' [] err))
      | Inr scripts \<Rightarrow>
          if scripts = [] then gret (Some (InvalidConfigurationError ''missing configuration''))
          else joined_loop (scripts_collectScript k c) scripts None)"

lemma scripts_new:
  "\<exists>k. newScriptCollector = Return k
     \<and> length (dc_labels (script_metric k)) = 3"
  by (simp add: newScriptCollector_def build_simps)

interpretation scripts: announcing_collector "as_collector scripts_Describe scripts_Collect newScriptCollector"
proof -
  obtain k where k: "newScriptCollector = Return k" and shape: "length (dc_labels (script_metric k)) = 3"
    using scripts_new by blast
  show "announcing_collector (as_collector scripts_Describe scripts_Collect newScriptCollector)"
    by (rule announcing_collectorI [OF k]; unfold scripts_Collect_def scripts_collectScript_def)
       (use shape in \<open>auto intro!: contract_emits contract_runs safe_rules loop_emits loop_runs simp: contract_simps scripts_Describe_def simp del: gret_run\<close>)
qed


section \<open>service\<close>

record serviceConnCollector =
  service_metrics :: desc

definition newServiceConnCollector :: "serviceConnCollector outcome" where
  "newServiceConnCollector = Return \<lparr>service_metrics =
     Description ''service'' ''active_connections_count'' ''number of active connection for service''
       [LabelDevName, LabelDevAddress, ''service'']\<rparr>"

definition service_Describe :: "serviceConnCollector \<Rightarrow> desc list" where
  "service_Describe k = [service_metrics k]"

definition service_Collect :: "serviceConnCollector \<Rightarrow> 'w ctx \<Rightarrow> ('w mstate, goerror option) gom" where
  "service_Collect k c =
     (if Compare (dev_FirmwareVersion (cx_Device c)) 7 19 0 < 0
      then gret (Some (NotSupportedError ''service collector is available since RO 7.19''))
      else fetch c [''/ip/service/print'', ''?connection'', ''=.proplist=name'']
        ''fetch service stats error: %w'' [] (\<lambda>reply.
      emit_counts c (service_metrics k) (CountByProperty (rep_re reply) ''name'')))"

lemma service_new:
  "\<exists>k. newServiceConnCollector = Return k
     \<and> length (dc_labels (service_metrics k)) = 3"
  by (simp add: newServiceConnCollector_def build_simps)

interpretation service: announcing_collector "as_collector service_Describe service_Collect newServiceConnCollector"
proof -
  obtain k where k: "newServiceConnCollector = Return k" and shape: "length (dc_labels (service_metrics k)) = 3"
    using service_new by blast
  show "announcing_collector (as_collector service_Describe service_Collect newServiceConnCollector)"
    by (rule announcing_collectorI [OF k]; unfold service_Collect_def)
       (use shape in \<open>auto intro!: contract_emits contract_runs safe_rules emits_counts runs_counts simp: contract_simps service_Describe_def\<close>)
qed


section \<open>switch\<close>

record switchCollector =
  switch_stats :: desc
  switch_statsDriver :: "PropertyMetric list"

definition newSwitchCollector :: "switchCollector outcome" where
  "newSwitchCollector =
     (let prefix = ''switch''; labelNames = [''switch''];
          driver = (\<lambda>property. Build (NewPropertyCounterMetric prefix property labelNames))
      in obind (oall
           [driver ''driver-rx-byte'', driver ''driver-rx-packet'', driver ''driver-tx-byte'',
            driver ''driver-tx-packet'', driver ''rx-broadcast'', driver ''rx-bytes'', driver ''rx-drop'',
            driver ''rx-multicast'', driver ''rx-packet'', driver ''tx-broadcast'', driver ''tx-bytes'',
            driver ''tx-drop'', driver ''tx-multicast'', driver ''tx-packet''])
         (\<lambda>ms. Return \<lparr>switch_stats = Description prefix ''stats'' ''switch statistics''
             [LabelDevName, LabelDevAddress, ''switch'', ''metric''],
           switch_statsDriver = ms\<rparr>))"

definition switch_Describe :: "switchCollector \<Rightarrow> desc list" where
  "switch_Describe k = switch_stats k # list_Describe (switch_statsDriver k)"

definition skipped_detail :: "string \<Rightarrow> bool" where
  "skipped_detail k \<longleftrightarrow> k = ''name'' \<or> k = ''type'' \<or> k = ''invalid'' \<or> k = ''.id''
     \<or> has_prefix k ''mirror'' \<or> has_prefix k ''driver-''"

fun switch_collectDetails :: "switchCollector \<Rightarrow> 'w ctx \<Rightarrow> string \<Rightarrow> string gomap \<Rightarrow> ('w mstate, unit) gom" where
  "switch_collectDetails k c name [] = gret ()"
| "switch_collectDetails k c name ((key, v) # remap) =
     (if skipped_detail key then switch_collectDetails k c name remap
      else case ParseInt v of
             Inl _ \<Rightarrow> switch_collectDetails k c name remap
           | Inr val \<Rightarrow> gseq (emit_for c [name, key] (switch_stats k) CounterValue (f64_of_int val))
                            (switch_collectDetails k c name remap))"

definition switch_Collect :: "switchCollector \<Rightarrow> 'w ctx \<Rightarrow> ('w mstate, goerror option) gom" where
  "switch_Collect k c =
     fetch c [''/interface/ethernet/switch/print''] ''fetch switch stats error: %w'' [] (\<lambda>reply.
     let details = BoolValue (cx_FeatureCfg c) ''details'' False
     in join_loop (\<lambda>re.
          let name = mlookup (sen_map re) ''name''
          in gbind (wrapped ''collect switch %s error: %w'' [name]
               (list_Collect (switch_statsDriver k) (sen_map re) (WithLabels [name] c))) (\<lambda>e.
             gseq (if details then switch_collectDetails k c name (sen_map re) else gret ()) (gret e)))
        (rep_re reply) None)"

lemma emits_details:
  "(\<And>v ls. length ls = 2 \<Longrightarrow> P \<lparr>mt_desc = switch_stats k, mt_type = CounterValue, mt_value = v,
      mt_labels = [dev_Name (cx_Device c), dev_Address (cx_Device c)] @ ls\<rparr>)
   \<Longrightarrow> emits P (switch_collectDetails k c name m)"
proof (induction m)
  case (Cons x m)
  then show ?case
    by (cases x) (auto simp: simp del: gret_run split: sum.split intro!: emits_gseq emits_emit_for)
qed (simp only: switch_collectDetails.simps emits_gret)

lemma runs_details:
  "library_ok c \<Longrightarrow> length (dc_labels (switch_stats k)) = 4 \<Longrightarrow>
     ok wait (client_ok I) (switch_collectDetails k c name m) (\<lambda>_. client_ok I)"
proof (induction m)
  case (Cons x m)
  then show ?case
    by (cases x) (auto simp: simp del: gret_run split: sum.split intro!: runs_gseq runs_emit_for)
qed (simp only: switch_collectDetails.simps ok_gret_same)

lemma safe_details [safe_rules]: "safe wait (client_ok I) (switch_collectDetails k c name m)"
proof (induction m)
  case (Cons x m)
  then show ?case
    by (cases x) (simp only: switch_collectDetails.simps, intro safe_rules, simp_all)
qed (simp only: switch_collectDetails.simps safe_gret)

declare switch_collectDetails.simps [simp del]

lemma switch_new:
  "\<exists>k. newSwitchCollector = Return k
     \<and> fits (switch_statsDriver k) 3 \<and> length (dc_labels (switch_stats k)) = 4"
  by (simp add: newSwitchCollector_def build_simps)

interpretation switch: announcing_collector "as_collector switch_Describe switch_Collect newSwitchCollector"
proof -
  obtain k where k: "newSwitchCollector = Return k" and shape: "fits (switch_statsDriver k) 3" "length (dc_labels (switch_stats k)) = 4"
    using switch_new by blast
  show "announcing_collector (as_collector switch_Describe switch_Collect newSwitchCollector)"
    by (rule announcing_collectorI [OF k]; unfold switch_Collect_def Let_def)
       (use shape in \<open>auto intro!: contract_emits contract_runs safe_rules emits_details runs_details runs_gbind simp: contract_simps switch_Describe_def simp del: gret_run\<close>)
qed


section \<open>w60g\<close>

record w60gInterfaceCollector =
  w60g_metrics :: "PropertyMetric list"

definition neww60gInterfaceCollector :: "w60gInterfaceCollector outcome" where
  "neww60gInterfaceCollector =
     (let gauge = (\<lambda>property. Build (NewPropertyGaugeMetric ''w60ginterface'' property [LabelInterface]))
      in obind (oall
           [gauge ''signal'', gauge ''rssi'', gauge ''tx-mcs'', gauge ''frequency'', gauge ''tx-phy-rate'',
            gauge ''tx-sector'', gauge ''distance'', gauge ''tx-packet-error-rate''])
         (\<lambda>ms. Return \<lparr>w60g_metrics = ms\<rparr>))"

definition w60g_Describe :: "w60gInterfaceCollector \<Rightarrow> desc list" where
  "w60g_Describe k = list_Describe (w60g_metrics k)"

definition collectw60gMetricsForInterfaces :: "w60gInterfaceCollector \<Rightarrow> string list \<Rightarrow> 'w ctx
    \<Rightarrow> ('w mstate, goerror option) gom" where
  "collectw60gMetricsForInterfaces k ifaces c =
     fetch c [''/interface/w60g/monitor'', ''=numbers='' @ join_with '','' ifaces, ''=once='',
              ''=.proplist=name,signal,rssi,tx-mcs,frequency,tx-phy-rate,tx-sector,distance,tx-packet-error-rate'']
       ''fetch w60g monitor error: %w'' [] (\<lambda>reply.
     named_loop (w60g_metrics k) ''collect %v error: %w'' c (rep_re reply))"

definition w60g_Collect :: "w60gInterfaceCollector \<Rightarrow> 'w ctx \<Rightarrow> ('w mstate, goerror option) gom" where
  "w60g_Collect k c =
     fetch c [''/interface/w60g/print'', ''=.proplist=name''] ''fetch w60g error: %w'' [] (\<lambda>reply.
     let ifaces = ExtractPropertyFromReplay reply ''name''
     in if ifaces = [] then gret None else collectw60gMetricsForInterfaces k ifaces c)"

lemma w60g_new:
  "\<exists>k. neww60gInterfaceCollector = Return k
     \<and> fits (w60g_metrics k) 3"
  by (simp add: neww60gInterfaceCollector_def build_simps)

interpretation w60g: announcing_collector "as_collector w60g_Describe w60g_Collect neww60gInterfaceCollector"
proof -
  obtain k where k: "neww60gInterfaceCollector = Return k" and shape: "fits (w60g_metrics k) 3"
    using w60g_new by blast
  show "announcing_collector (as_collector w60g_Describe w60g_Collect neww60gInterfaceCollector)"
    by (rule announcing_collectorI [OF k]; unfold w60g_Collect_def collectw60gMetricsForInterfaces_def named_loop_def Let_def)
       (use shape in \<open>auto intro!: contract_emits contract_runs safe_rules simp: contract_simps w60g_Describe_def\<close>)
qed


section \<open>wireguard\<close>

record wireguardCollector =
  wireguard_peers :: "PropertyMetric list"
  wireguard_wg :: "PropertyMetric list"
  wireguard_peersStats :: desc

definition newWireguardCollector :: "wireguardCollector outcome" where
  "newWireguardCollector =
     (let prefix = ''wireguard''; peerLabelNames = [''public_key'', LabelComment, ''disabled''];
          wgLabelNames = [''public_key'', ''wg_name'', LabelComment]
      in obind (oall
           [Build (WithConverter MetricFromDuration (NewPropertyGaugeMetric prefix ''last-handshake'' peerLabelNames)),
            Build (NewPropertyCounterMetric prefix ''rx'' peerLabelNames),
            Build (NewPropertyCounterMetric prefix ''tx'' peerLabelNames)])
         (\<lambda>peers. obind (oall
           [Build (WithConverter MetricFromBool (NewPropertyGaugeMetric prefix ''running'' wgLabelNames))])
         (\<lambda>wg. Return \<lparr>wireguard_peers = peers, wireguard_wg = wg,
            wireguard_peersStats = Description prefix ''peers_status'' ''wg peer statistics''
              [LabelDevName, LabelDevAddress, ''status'']\<rparr>)))"

definition wireguard_Describe :: "wireguardCollector \<Rightarrow> desc list" where
  "wireguard_Describe k = list_Describe (wireguard_peers k) @ list_Describe (wireguard_wg k)
     @ [wireguard_peersStats k]"

definition wireguard_collectWGPeers :: "wireguardCollector \<Rightarrow> 'w ctx \<Rightarrow> ('w mstate, goerror option) gom" where
  "wireguard_collectWGPeers k c =
     fetch c [''/interface/wireguard/peers/print'',
              ''=.proplist=comment,public-key,comment,disabled,last-handshake,rx,tx,current-endpoint-address'']
       ''fetch wireguard peers stats error: %w'' [] (\<lambda>reply.
     let connected = length (filter (\<lambda>re. mlookup (sen_map re) ''public-key'' \<noteq> ''''
                         \<and> mlookup (sen_map re) ''current-endpoint-address'' \<noteq> '''') (rep_re reply))
     in gseq (emit_for c [''connected''] (wireguard_peersStats k) GaugeValue (f64_of_int (int connected)))
       (gseq (emit_for c [''waiting''] (wireguard_peersStats k) GaugeValue
                (f64_of_int (int (length (rep_re reply)) - int connected)))
       (if \<not> BoolValue (cx_FeatureCfg c) ''details'' False then gret None
        else join_loop (\<lambda>re.
          let pubKey = mlookup (sen_map re) ''public-key''
          in if pubKey = '''' then gret None
             else wrapped ''collect wireguard %v error: %w'' [] (list_Collect (wireguard_peers k) (sen_map re)
               (WithLabels [pubKey, mlookup (sen_map re) ''comment'', mlookup (sen_map re) ''disabled''] c)))
          (rep_re reply) None)))"

definition wireguard_collectWG :: "wireguardCollector \<Rightarrow> 'w ctx \<Rightarrow> ('w mstate, goerror option) gom" where
  "wireguard_collectWG k c =
     gbind (client_run c [''/interface/wireguard/print'', ''?disabled=false'',
              ''=.proplist=comment,public-key,comment,disabled,running,name'']) (\<lambda>r. case r of
       Inl err \<Rightarrow> gret (errors_join [Some (Wrapf ''fetch wireguard status error: %w'' [] err)])
     | Inr reply \<Rightarrow>
         join_loop (\<lambda>re. wrapped ''collect wireguard %v error: %w'' [] (list_Collect (wireguard_wg k) (sen_map re)
             (WithLabelsFromMap (sen_map re) [''public-key'', ''name'', ''comment''] c)))
           (rep_re reply) None)"

definition wireguard_Collect :: "wireguardCollector \<Rightarrow> 'w ctx \<Rightarrow> ('w mstate, goerror option) gom" where
  "wireguard_Collect k c =
     (if fv_Major (dev_FirmwareVersion (cx_Device c)) < 7 then gret (Some (NotSupportedError ''wireguard''))
      else join_all [wireguard_collectWG k c, wireguard_collectWGPeers k c] [])"

lemma runs_run_cases:
  assumes "ro_client (cx_Client c) I wait"
    and "\<And>err. ok wait (client_ok I) (h err) (\<lambda>_. client_ok I)"
    and "\<And>r. replied r \<Longrightarrow> ok wait (client_ok I) (k r) (\<lambda>_. client_ok I)"
  shows "ok wait (client_ok I) (gbind (client_run c ws) (\<lambda>r. case r of Inl err \<Rightarrow> h err | Inr reply \<Rightarrow> k reply))
           (\<lambda>_. client_ok I)"
proof (rule ok_gbind [OF runs_client [OF assms(1)]])
  fix res
  show "ok wait (\<lambda>s. client_ok I s \<and> (\<forall>r. res = Inr r \<longrightarrow> replied r))
      (case res of Inl err \<Rightarrow> h err | Inr r \<Rightarrow> k r) (\<lambda>_. client_ok I)"
    using assms(2,3) by (cases res) (auto simp: ok_def)
qed

lemma wireguard_new:
  "\<exists>k. newWireguardCollector = Return k
     \<and> fits (wireguard_peers k) 5 \<and> fits (wireguard_wg k) 5 \<and> length (dc_labels (wireguard_peersStats k)) = 3"
  by (simp add: newWireguardCollector_def build_simps)

interpretation wireguard: announcing_collector "as_collector wireguard_Describe wireguard_Collect newWireguardCollector"
proof -
  obtain k where k: "newWireguardCollector = Return k" and shape: "fits (wireguard_peers k) 5" "fits (wireguard_wg k) 5" "length (dc_labels (wireguard_peersStats k)) = 3"
    using wireguard_new by blast
  show "announcing_collector (as_collector wireguard_Describe wireguard_Collect newWireguardCollector)"
    by (rule announcing_collectorI [OF k]; unfold wireguard_Collect_def wireguard_collectWG_def wireguard_collectWGPeers_def Let_def)
       (use shape in \<open>auto intro!: contract_emits contract_runs safe_rules runs_run_cases simp: contract_simps wireguard_Describe_def simp del: gret_run\<close>)
qed


section \<open>wlanif\<close>

record wlanIFCollector =
  wlanif_frequencyDesc :: desc
  wlanif_metrics :: "PropertyMetric list"
  wlanif_channelDesc :: desc

definition newWlanIFCollector :: "wlanIFCollector outcome" where
  "newWlanIFCollector =
     (let prefix = ''wlan_interface'';
          gauge = (\<lambda>property. Build (NewPropertyGaugeMetric prefix property [LabelInterface]))
      in obind (oall [gauge ''registered-clients'', gauge ''noise-floor'', gauge ''overall-tx-ccq''])
         (\<lambda>ms. Return \<lparr>wlanif_frequencyDesc = Description prefix ''frequency'' ''WiFi frequency''
             [LabelDevName, LabelDevAddress, LabelInterface, ''freqidx''],
           wlanif_metrics = ms,
           wlanif_channelDesc = Description prefix ''channel'' ''WiFi channel''
             [LabelDevName, LabelDevAddress, LabelInterface, ''channel'']\<rparr>))"

definition wlanif_Describe :: "wlanIFCollector \<Rightarrow> desc list" where
  "wlanif_Describe k = [wlanif_frequencyDesc k] @ list_Describe (wlanif_metrics k) @ [wlanif_channelDesc k]"

definition frequency_of :: "string \<Rightarrow> string" where
  "frequency_of part = (case cut part ''/'' of Some (freq, _) \<Rightarrow> freq | None \<Rightarrow> part)"

definition wlanif_collectMetricForFreq :: "wlanIFCollector \<Rightarrow> string \<Rightarrow> sentence \<Rightarrow> 'w ctx
    \<Rightarrow> ('w mstate, goerror option) gom" where
  "wlanif_collectMetricForFreq k iface re c =
     (let channel = mlookup (sen_map re) ''channel''
      in gseq (emit_for c [iface, channel] (wlanif_channelDesc k) GaugeValue f64_one)
         (until_err (\<lambda>(idx, part).
            let freq = frequency_of part
            in if freq = '''' then gret None
               else case ParseFloat freq of
                      Inl err \<Rightarrow> gret (Some (Wrapf ''collect channel for %s parse %v error: %w'' [iface, freq] err))
                    | Inr value \<Rightarrow> gseq (emit_for c [iface, Itoa (int idx + 1)] (wlanif_frequencyDesc k)
                                         GaugeValue value) (gret None))
          (enumerate 0 (split_on channel ''+''))))"

definition wlanif_collectForInterface :: "wlanIFCollector \<Rightarrow> string \<Rightarrow> 'w ctx
    \<Rightarrow> ('w mstate, goerror option) gom" where
  "wlanif_collectForInterface k iface c =
     fetch c [''/interface/wireless/monitor'', ''=numbers='' @ iface, ''=once='',
              ''=.proplist=registered-clients,noise-floor,overall-tx-ccq,channel'']
       ''fetch wireless monitor for %s error: %w'' [iface] (\<lambda>reply.
     case rep_re reply of
       [] \<Rightarrow> gret None
     | re # _ \<Rightarrow>
         unless_err (wrapped ''collect %s error: %w'' [iface]
           (list_Collect (wlanif_metrics k) (sen_map re) (WithLabels [iface] c)))
         (wlanif_collectMetricForFreq k iface re c))"

definition wlanif_Collect :: "wlanIFCollector \<Rightarrow> 'w ctx \<Rightarrow> ('w mstate, goerror option) gom" where
  "wlanif_Collect k c =
     fetch c [''/interface/wireless/print'', ''=.proplist=name,disabled,frequency''] ''fetch wireless error: %w'' []
       (\<lambda>reply.
     until_err (\<lambda>re.
       if mlookup (sen_map re) ''disabled'' = ''true'' \<and> mlookup (sen_map re) ''frequency'' = '''' then gret None
       else wlanif_collectForInterface k (mlookup (sen_map re) ''name'') c) (rep_re reply))"

lemma wlanif_new:
  "\<exists>k. newWlanIFCollector = Return k
     \<and> fits (wlanif_metrics k) 3 \<and> length (dc_labels (wlanif_frequencyDesc k)) = 4 \<and> length (dc_labels (wlanif_channelDesc k)) = 4"
  by (simp add: newWlanIFCollector_def build_simps)

interpretation wlanif: announcing_collector "as_collector wlanif_Describe wlanif_Collect newWlanIFCollector"
proof -
  obtain k where k: "newWlanIFCollector = Return k" and shape: "fits (wlanif_metrics k) 3" "length (dc_labels (wlanif_frequencyDesc k)) = 4" "length (dc_labels (wlanif_channelDesc k)) = 4"
    using wlanif_new by blast
  show "announcing_collector (as_collector wlanif_Describe wlanif_Collect newWlanIFCollector)"
    by (rule announcing_collectorI [OF k]; unfold wlanif_Collect_def wlanif_collectForInterface_def wlanif_collectMetricForFreq_def Let_def)
       (use shape in \<open>auto intro!: contract_emits contract_runs safe_rules loop_emits loop_runs simp: contract_simps wlanif_Describe_def simp del: gret_run\<close>)
qed


section \<open>wlansta\<close>

record wlanSTACollector =
  wlansta_metrics :: "PropertyMetric list"

definition newWlanSTACollector :: "wlanSTACollector outcome" where
  "newWlanSTACollector =
     (let prefix = ''wlan_station''; labelNames = [LabelInterface, ''mac_address'']
      in obind (oall
           [Build (NewPropertyGaugeMetric prefix ''signal-to-noise'' labelNames),
            Build (NewPropertyGaugeMetric prefix ''signal-strength'' labelNames),
            Build (NewPropertyRxTxMetric prefix ''packets'' labelNames),
            Build (NewPropertyRxTxMetric prefix ''bytes'' labelNames),
            Build (NewPropertyRxTxMetric prefix ''frames'' labelNames)])
         (\<lambda>ms. Return \<lparr>wlansta_metrics = ms\<rparr>))"

definition wlansta_Describe :: "wlanSTACollector \<Rightarrow> desc list" where
  "wlansta_Describe k = list_Describe (wlansta_metrics k)"

definition wlansta_Collect :: "wlanSTACollector \<Rightarrow> 'w ctx \<Rightarrow> ('w mstate, goerror option) gom" where
  "wlansta_Collect k c =
     fetch c [''/interface/wireless/registration-table/print'',
              ''=.proplist=interface,mac-address,signal-to-noise,signal-strength,packets,bytes,frames'']
       ''fetch wireless reg error: %w'' [] (\<lambda>reply.
     join_loop (\<lambda>re. list_Collect (wlansta_metrics k) (sen_map re)
         (WithLabelsFromMap (sen_map re) [''interface'', ''mac-address''] c))
       (rep_re reply) None)"

lemma wlansta_new:
  "\<exists>k. newWlanSTACollector = Return k
     \<and> fits (wlansta_metrics k) 4"
  by (simp add: newWlanSTACollector_def build_simps)

interpretation wlansta: announcing_collector "as_collector wlansta_Describe wlansta_Collect newWlanSTACollector"
proof -
  obtain k where k: "newWlanSTACollector = Return k" and shape: "fits (wlansta_metrics k) 4"
    using wlansta_new by blast
  show "announcing_collector (as_collector wlansta_Describe wlansta_Collect newWlanSTACollector)"
    by (rule announcing_collectorI [OF k]; unfold wlansta_Collect_def)
       (use shape in \<open>auto intro!: contract_emits contract_runs safe_rules simp: contract_simps wlansta_Describe_def\<close>)
qed

end
