(* ===== verification/Registry.thy ===== *)
theory Registry
  imports Collectors_D
begin

text \<open>
  The registry as the \<^verbatim>\<open>init\<close> functions of package \<^verbatim>\<open>internal/collectors\<close> fill it, and which of the
  registered collectors keep the contract of a collector.  The argument \<open>now\<close> is one reading of the clock for all values of all
  scrapes, where \<^verbatim>\<open>UnixTimeFromDuration\<close> reads it anew for each.
\<close>

section \<open>The init functions\<close>

definition arp_init :: "'w RegisteredCollector gomap \<Rightarrow> 'w RegisteredCollector gomap" where
  "arp_init = registerCollector ''arp'' (as_collector arp_Describe arp_Collect newARPCollector)
     ''retrieves arp metrics''"

definition capsman_init :: "'w RegisteredCollector gomap \<Rightarrow> 'w RegisteredCollector gomap" where
  "capsman_init = registerCollector ''capsman'' (as_collector capsman_Describe capsman_Collect newCapsmanCollector)
     ''retrieves CapsMan station metrics''"

definition certs_init :: "'w RegisteredCollector gomap \<Rightarrow> 'w RegisteredCollector gomap" where
  "certs_init = registerCollector ''certs'' (as_collector certs_Describe certs_Collect newCertsCollector)
     ''retrieves dns metrics''"

definition cloud_init :: "'w RegisteredCollector gomap \<Rightarrow> 'w RegisteredCollector gomap" where
  "cloud_init = registerCollector ''cloud'' (as_collector cloud_Describe cloud_Collect newCloudCollector)
     ''retrieves cloud services information''"

definition conntrack_init :: "'w RegisteredCollector gomap \<Rightarrow> 'w RegisteredCollector gomap" where
  "conntrack_init = registerCollector ''conntrack'' (as_collector conntrack_Describe conntrack_Collect newConntrackCollector)
     ''retrieves connection tracking information''"

definition container_init :: "'w RegisteredCollector gomap \<Rightarrow> 'w RegisteredCollector gomap" where
  "container_init = registerCollector ''container'' (as_collector container_Describe container_Collect newContainerCollector)
     ''retrieves container metrics''"

definition dhcp_init :: "'w RegisteredCollector gomap \<Rightarrow> 'w RegisteredCollector gomap" where
  "dhcp_init = registerCollector ''dhcp'' (as_collector dhcp_Describe dhcp_Collect newDHCPCollector)
     ''retrieves DHCP server metrics''"

definition dhcpl_init :: "'w RegisteredCollector gomap \<Rightarrow> 'w RegisteredCollector gomap" where
  "dhcpl_init = registerCollector ''dhcpl'' (as_collector dhcpl_Describe dhcpl_Collect newDHCPLCollector)
     ''retrieves DHCP server lease information''"

definition dhcpv6_init :: "'w RegisteredCollector gomap \<Rightarrow> 'w RegisteredCollector gomap" where
  "dhcpv6_init = registerCollector ''dhcpv6'' (as_collector dhcpv6_Describe dhcpv6_Collect newDHCPv6Collector)
     ''retrieves DHCPv6 server metrics''"

definition disk_init :: "'w RegisteredCollector gomap \<Rightarrow> 'w RegisteredCollector gomap" where
  "disk_init = registerCollector ''disk'' (as_collector disk_Describe disk_Collect newDiskCollector)
     ''retrieves disks metrics''"

definition dns_adlist_init :: "'w RegisteredCollector gomap \<Rightarrow> 'w RegisteredCollector gomap" where
  "dns_adlist_init = registerCollector ''dns_adlist'' (as_collector dns_adlist_Describe dns_adlist_Collect newDNSAdlistCollector)
     ''retrieves dns adlist metrics''"

definition dns_init :: "'w RegisteredCollector gomap \<Rightarrow> 'w RegisteredCollector gomap" where
  "dns_init = registerCollector ''dns'' (as_collector dns_Describe dns_Collect newDNSCollector)
     ''retrieves dns metrics''"

definition dude_init :: "'w RegisteredCollector gomap \<Rightarrow> 'w RegisteredCollector gomap" where
  "dude_init = registerCollector ''dude'' (as_collector dude_Describe dude_Collect newDudeCollector)
     ''retrieves dude metrics''"

definition firewall_init :: "'w RegisteredCollector gomap \<Rightarrow> 'w RegisteredCollector gomap" where
  "firewall_init = registerCollector ''firewall'' (as_collector firewall_Describe firewall_Collect newFirewallCollector)
     ''retrieves firewall metrics''"

definition firmware_init :: "'w RegisteredCollector gomap \<Rightarrow> 'w RegisteredCollector gomap" where
  "firmware_init = registerCollector ''firmware'' (as_collector firmware_Describe firmware_Collect newFirmwareCollector)
     ''retrieves firmware version''"

definition health_init :: "'w RegisteredCollector gomap \<Rightarrow> 'w RegisteredCollector gomap" where
  "health_init = registerCollector ''health'' (as_collector health_Describe health_Collect newhealthCollector)
     ''retrieves board Health metrics''"

definition interface_init :: "'w RegisteredCollector gomap \<Rightarrow> 'w RegisteredCollector gomap" where
  "interface_init = registerCollector ''interface'' (as_collector interface_Describe interface_Collect newInterfaceCollector)
     ''retrieves interfaces metrics''"

definition ip_init :: "'w RegisteredCollector gomap \<Rightarrow> 'w RegisteredCollector gomap" where
  "ip_init = registerCollector ''ip'' (as_collector ip_Describe ip_Collect newIPCollector)
     ''retrieves ip metrics''"

definition ipsec_init :: "'w RegisteredCollector gomap \<Rightarrow> 'w RegisteredCollector gomap" where
  "ipsec_init = registerCollector ''ipsec'' (as_collector ipsec_Describe ipsec_Collect newIpsecCollector)
     ''retrieves IPsec metrics''"

definition ipv6_neighbor_init :: "'w RegisteredCollector gomap \<Rightarrow> 'w RegisteredCollector gomap" where
  "ipv6_neighbor_init = registerCollector ''ipv6_neighbor'' (as_collector ipv6_neighbor_Describe ipv6_neighbor_Collect newIPv6NeighborCollector)
     ''retrieves ipv6 neighbors metrics''"

definition lte_init :: "'w RegisteredCollector gomap \<Rightarrow> 'w RegisteredCollector gomap" where
  "lte_init = registerCollector ''lte'' (as_collector lte_Describe lte_Collect newLteCollector)
     ''retrieves LTE interfaces metrics''"

definition monitor_init :: "'w RegisteredCollector gomap \<Rightarrow> 'w RegisteredCollector gomap" where
  "monitor_init = registerCollector ''monitor'' (as_collector monitor_Describe monitor_Collect newMonitorCollector)
     ''retrieves ethernet interfaces monitor metrics''"

definition neighbor_init :: "'w RegisteredCollector gomap \<Rightarrow> 'w RegisteredCollector gomap" where
  "neighbor_init = registerCollector ''neighbor'' (as_collector neighbor_Describe neighbor_Collect newNeighborCollector)
     ''retrieves neighbor metrics''"

definition netwatch_init :: "'w RegisteredCollector gomap \<Rightarrow> 'w RegisteredCollector gomap" where
  "netwatch_init = registerCollector ''netwatch'' (as_collector netwatch_Describe netwatch_Collect newNetwatchCollector)
     ''retrieves Netwatch status''"

definition ntpc_init :: "'w RegisteredCollector gomap \<Rightarrow> 'w RegisteredCollector gomap" where
  "ntpc_init = registerCollector ''ntpc'' (as_collector ntpc_Describe ntpc_Collect newNTPcCollector)
     ''retrieves ntp client metrics''"

definition optics_init :: "'w RegisteredCollector gomap \<Rightarrow> 'w RegisteredCollector gomap" where
  "optics_init = registerCollector ''optics'' (as_collector optics_Describe optics_Collect newOpticsCollector)
     ''retrieves optical diagnostic metrics''"

definition poe_init :: "'w RegisteredCollector gomap \<Rightarrow> 'w RegisteredCollector gomap" where
  "poe_init = registerCollector ''poe'' (as_collector poe_Describe poe_Collect newPOECollector)
     ''retrieves POE metrics''"

definition pools_init :: "'w RegisteredCollector gomap \<Rightarrow> 'w RegisteredCollector gomap" where
  "pools_init = registerCollector ''pools'' (as_collector pools_Describe pools_Collect newPoolCollector)
     ''retrieves IP pool metrics''"

definition ppp_init :: "'w RegisteredCollector gomap \<Rightarrow> 'w RegisteredCollector gomap" where
  "ppp_init = registerCollector ''ppp'' (as_collector ppp_Describe ppp_Collect newPPPCollector)
     ''retrieves ppp active connections metrics''"

definition queue_init :: "'w RegisteredCollector gomap \<Rightarrow> 'w RegisteredCollector gomap" where
  "queue_init = registerCollector ''queue'' (as_collector queue_Describe queue_Collect newQueueCollector)
     ''retrieves Simple Queue and queue monitor metrics''"

definition radius_init :: "'w RegisteredCollector gomap \<Rightarrow> 'w RegisteredCollector gomap" where
  "radius_init = registerCollector ''radius'' (as_collector radius_Describe radius_Collect newRadiusCollector)
     ''retrieves Radius incoming metrics''"

definition resource_init :: "int \<Rightarrow> 'w RegisteredCollector gomap \<Rightarrow> 'w RegisteredCollector gomap" where
  "resource_init now = registerCollector ''resource'' (as_collector resource_Describe resource_Collect (newResourceCollector now))
     ''retrieves RouterOS system resource metrics''"

definition routes_init :: "'w RegisteredCollector gomap \<Rightarrow> 'w RegisteredCollector gomap" where
  "routes_init = registerCollector ''routes'' (as_collector routes_Describe routes_Collect newRoutesCollector)
     ''retrieves routing table information''"

definition scripts_init :: "'w RegisteredCollector gomap \<Rightarrow> 'w RegisteredCollector gomap" where
  "scripts_init = registerCollector ''scripts'' (as_collector scripts_Describe scripts_Collect newScriptCollector)
     ''retrieves metrics from scripts''"

definition service_init :: "'w RegisteredCollector gomap \<Rightarrow> 'w RegisteredCollector gomap" where
  "service_init = registerCollector ''service'' (as_collector service_Describe service_Collect newServiceConnCollector)
     ''retrieves service connections metrics''"

definition switch_init :: "'w RegisteredCollector gomap \<Rightarrow> 'w RegisteredCollector gomap" where
  "switch_init = registerCollector ''switch'' (as_collector switch_Describe switch_Collect newSwitchCollector)
     ''retrieves switch statistics''"

definition w60g_init :: "'w RegisteredCollector gomap \<Rightarrow> 'w RegisteredCollector gomap" where
  "w60g_init = registerCollector ''w60g'' (as_collector w60g_Describe w60g_Collect neww60gInterfaceCollector)
     ''retrieves W60G interface metrics''"

definition wireguard_init :: "'w RegisteredCollector gomap \<Rightarrow> 'w RegisteredCollector gomap" where
  "wireguard_init = registerCollector ''wireguard'' (as_collector wireguard_Describe wireguard_Collect newWireguardCollector)
     ''retrieves wireguard peers metrics''"

definition wlanif_init :: "'w RegisteredCollector gomap \<Rightarrow> 'w RegisteredCollector gomap" where
  "wlanif_init = registerCollector ''wlanif'' (as_collector wlanif_Describe wlanif_Collect newWlanIFCollector)
     ''retrieves WLAN interface metrics''"

definition wlansta_init :: "'w RegisteredCollector gomap \<Rightarrow> 'w RegisteredCollector gomap" where
  "wlansta_init = registerCollector ''wlansta'' (as_collector wlansta_Describe wlansta_Collect newWlanSTACollector)
     ''retrieves connecten WLAN station metrics''"

definition registered :: "int \<Rightarrow> 'w RegisteredCollector gomap" where
  \<comment> \<open>\<^verbatim>\<open>registeredCollectors\<close> after the package is initialised, file by file; \<open>now\<close> is the clock of
     \<open>newResourceCollector\<close>\<close>
  "registered now = fold (\<lambda>f. f)
     [arp_init, capsman_init, certs_init, cloud_init, conntrack_init, container_init,
      dhcp_init, dhcpl_init, dhcpv6_init, disk_init, dns_adlist_init, dns_init, dude_init,
      firewall_init, firmware_init, health_init, interface_init, ip_init, ipsec_init,
      ipv6_neighbor_init, lte_init, monitor_init, neighbor_init, netwatch_init, ntpc_init,
      optics_init, poe_init, pools_init, ppp_init, queue_init, radius_init, resource_init now,
      routes_init, scripts_init, service_init, switch_init, w60g_init, wireguard_init,
      wlanif_init, wlansta_init] []"

lemmas init_defs = arp_init_def capsman_init_def certs_init_def cloud_init_def conntrack_init_def
  container_init_def dhcp_init_def dhcpl_init_def dhcpv6_init_def disk_init_def
  dns_adlist_init_def dns_init_def dude_init_def firewall_init_def firmware_init_def
  health_init_def interface_init_def ip_init_def ipsec_init_def ipv6_neighbor_init_def
  lte_init_def monitor_init_def neighbor_init_def netwatch_init_def ntpc_init_def
  optics_init_def poe_init_def pools_init_def ppp_init_def queue_init_def radius_init_def
  resource_init_def routes_init_def scripts_init_def service_init_def switch_init_def
  w60g_init_def wireguard_init_def wlanif_init_def wlansta_init_def


section \<open>What is registered\<close>

definition table :: "int \<Rightarrow> (string \<times> 'w RouterOSCollector outcome \<times> string) list" where
  \<comment> \<open>the arguments of the calls of \<open>registerCollector\<close>, in order\<close>
  "table now =
     [
      (''arp'', as_collector arp_Describe arp_Collect newARPCollector, ''retrieves arp metrics''),
      (''capsman'', as_collector capsman_Describe capsman_Collect newCapsmanCollector, ''retrieves CapsMan station metrics''),
      (''certs'', as_collector certs_Describe certs_Collect newCertsCollector, ''retrieves dns metrics''),
      (''cloud'', as_collector cloud_Describe cloud_Collect newCloudCollector, ''retrieves cloud services information''),
      (''conntrack'', as_collector conntrack_Describe conntrack_Collect newConntrackCollector, ''retrieves connection tracking information''),
      (''container'', as_collector container_Describe container_Collect newContainerCollector, ''retrieves container metrics''),
      (''dhcp'', as_collector dhcp_Describe dhcp_Collect newDHCPCollector, ''retrieves DHCP server metrics''),
      (''dhcpl'', as_collector dhcpl_Describe dhcpl_Collect newDHCPLCollector, ''retrieves DHCP server lease information''),
      (''dhcpv6'', as_collector dhcpv6_Describe dhcpv6_Collect newDHCPv6Collector, ''retrieves DHCPv6 server metrics''),
      (''disk'', as_collector disk_Describe disk_Collect newDiskCollector, ''retrieves disks metrics''),
      (''dns_adlist'', as_collector dns_adlist_Describe dns_adlist_Collect newDNSAdlistCollector, ''retrieves dns adlist metrics''),
      (''dns'', as_collector dns_Describe dns_Collect newDNSCollector, ''retrieves dns metrics''),
      (''dude'', as_collector dude_Describe dude_Collect newDudeCollector, ''retrieves dude metrics''),
      (''firewall'', as_collector firewall_Describe firewall_Collect newFirewallCollector, ''retrieves firewall metrics''),
      (''firmware'', as_collector firmware_Describe firmware_Collect newFirmwareCollector, ''retrieves firmware version''),
      (''health'', as_collector health_Describe health_Collect newhealthCollector, ''retrieves board Health metrics''),
      (''interface'', as_collector interface_Describe interface_Collect newInterfaceCollector, ''retrieves interfaces metrics''),
      (''ip'', as_collector ip_Describe ip_Collect newIPCollector, ''retrieves ip metrics''),
      (''ipsec'', as_collector ipsec_Describe ipsec_Collect newIpsecCollector, ''retrieves IPsec metrics''),
      (''ipv6_neighbor'', as_collector ipv6_neighbor_Describe ipv6_neighbor_Collect newIPv6NeighborCollector, ''retrieves ipv6 neighbors metrics''),
      (''lte'', as_collector lte_Describe lte_Collect newLteCollector, ''retrieves LTE interfaces metrics''),
      (''monitor'', as_collector monitor_Describe monitor_Collect newMonitorCollector, ''retrieves ethernet interfaces monitor metrics''),
      (''neighbor'', as_collector neighbor_Describe neighbor_Collect newNeighborCollector, ''retrieves neighbor metrics''),
      (''netwatch'', as_collector netwatch_Describe netwatch_Collect newNetwatchCollector, ''retrieves Netwatch status''),
      (''ntpc'', as_collector ntpc_Describe ntpc_Collect newNTPcCollector, ''retrieves ntp client metrics''),
      (''optics'', as_collector optics_Describe optics_Collect newOpticsCollector, ''retrieves optical diagnostic metrics''),
      (''poe'', as_collector poe_Describe poe_Collect newPOECollector, ''retrieves POE metrics''),
      (''pools'', as_collector pools_Describe pools_Collect newPoolCollector, ''retrieves IP pool metrics''),
      (''ppp'', as_collector ppp_Describe ppp_Collect newPPPCollector, ''retrieves ppp active connections metrics''),
      (''queue'', as_collector queue_Describe queue_Collect newQueueCollector, ''retrieves Simple Queue and queue monitor metrics''),
      (''radius'', as_collector radius_Describe radius_Collect newRadiusCollector, ''retrieves Radius incoming metrics''),
      (''resource'', as_collector resource_Describe resource_Collect (newResourceCollector now), ''retrieves RouterOS system resource metrics''),
      (''routes'', as_collector routes_Describe routes_Collect newRoutesCollector, ''retrieves routing table information''),
      (''scripts'', as_collector scripts_Describe scripts_Collect newScriptCollector, ''retrieves metrics from scripts''),
      (''service'', as_collector service_Describe service_Collect newServiceConnCollector, ''retrieves service connections metrics''),
      (''switch'', as_collector switch_Describe switch_Collect newSwitchCollector, ''retrieves switch statistics''),
      (''w60g'', as_collector w60g_Describe w60g_Collect neww60gInterfaceCollector, ''retrieves W60G interface metrics''),
      (''wireguard'', as_collector wireguard_Describe wireguard_Collect newWireguardCollector, ''retrieves wireguard peers metrics''),
      (''wlanif'', as_collector wlanif_Describe wlanif_Collect newWlanIFCollector, ''retrieves WLAN interface metrics''),
      (''wlansta'', as_collector wlansta_Describe wlansta_Collect newWlanSTACollector, ''retrieves connecten WLAN station metrics'')]"

lemma registerCollector_new:
  "n \<notin> set (mkeys m) \<Longrightarrow> registerCollector n f d m = m @ [(n, \<lparr>reg_instFunc = f, reg_Name = n, reg_Description = d\<rparr>)]"
  by (induction m) (auto simp: registerCollector_def mput_def mkeys_def)

lemma fold_registerCollector:
  "distinct (mkeys m @ map fst ts) \<Longrightarrow> fold (\<lambda>(n, f, d). registerCollector n f d) ts m
     = m @ map (\<lambda>(n, f, d). (n, \<lparr>reg_instFunc = f, reg_Name = n, reg_Description = d\<rparr>)) ts"
proof (induction ts arbitrary: m)
  case (Cons t ts)
  obtain n f d where t: "t = (n, f, d)" by (cases t)
  with Cons.prems have "n \<notin> set (mkeys m)" by simp
  moreover have "distinct (mkeys (m @ [(n, \<lparr>reg_instFunc = f, reg_Name = n, reg_Description = d\<rparr>)]) @ map fst ts)"
    using Cons.prems t by (auto simp: mkeys_def)
  ultimately show ?case using t by (simp add: registerCollector_new Cons.IH)
qed simp

lemma table_names: "map fst (table now) =
     [''arp'', ''capsman'', ''certs'', ''cloud'', ''conntrack'', ''container'', ''dhcp'',
      ''dhcpl'', ''dhcpv6'', ''disk'', ''dns_adlist'', ''dns'', ''dude'', ''firewall'',
      ''firmware'', ''health'', ''interface'', ''ip'', ''ipsec'', ''ipv6_neighbor'', ''lte'',
      ''monitor'', ''neighbor'', ''netwatch'', ''ntpc'', ''optics'', ''poe'', ''pools'',
      ''ppp'', ''queue'', ''radius'', ''resource'', ''routes'', ''scripts'', ''service'',
      ''switch'', ''w60g'', ''wireguard'', ''wlanif'', ''wlansta'']"
  by (simp only: table_def list.map prod.sel)

lemma table_distinct: "distinct (map fst (table now))"
  unfolding table_names by code_simp

lemma registered_table: "registered now = fold (\<lambda>(n, f, d). registerCollector n f d) (table now) []"
  by (simp only: registered_def table_def init_defs fold_simps prod.case)

lemma registered_eq:
  "registered now = map (\<lambda>(n, f, d). (n, \<lparr>reg_instFunc = f, reg_Name = n, reg_Description = d\<rparr>)) (table now)"
  using fold_registerCollector [of "[]" "table now"] table_distinct [of now]
  by (simp add: registered_table mkeys_def)

lemmas safe_contracts = dhcpl.safe_collector_axioms ipv6_neighbor.safe_collector_axioms lte.safe_collector_axioms

lemmas device_contracts = arp.device_collector_axioms capsman.device_collector_axioms certs.device_collector_axioms cloud.device_collector_axioms conntrack.device_collector_axioms container.device_collector_axioms dhcp.device_collector_axioms dhcpv6.device_collector_axioms disk.device_collector_axioms dns_adlist.device_collector_axioms dns.device_collector_axioms dude.device_collector_axioms firewall.device_collector_axioms firmware.device_collector_axioms health.device_collector_axioms interface.device_collector_axioms ip.device_collector_axioms ipsec.device_collector_axioms monitor.device_collector_axioms neighbor.device_collector_axioms netwatch.device_collector_axioms ntpc.device_collector_axioms optics.device_collector_axioms poe.device_collector_axioms pools.device_collector_axioms ppp.device_collector_axioms queue.device_collector_axioms radius.device_collector_axioms resource.device_collector_axioms routes.device_collector_axioms scripts.device_collector_axioms service.device_collector_axioms switch.device_collector_axioms w60g.device_collector_axioms wireguard.device_collector_axioms wlanif.device_collector_axioms wlansta.device_collector_axioms

lemmas announcing_contracts = arp.announcing_collector_axioms capsman.announcing_collector_axioms certs.announcing_collector_axioms conntrack.announcing_collector_axioms container.announcing_collector_axioms dhcp.announcing_collector_axioms dhcpv6.announcing_collector_axioms dns_adlist.announcing_collector_axioms dns.announcing_collector_axioms dude.announcing_collector_axioms firewall.announcing_collector_axioms firmware.announcing_collector_axioms health.announcing_collector_axioms interface.announcing_collector_axioms ip.announcing_collector_axioms ipsec.announcing_collector_axioms monitor.announcing_collector_axioms netwatch.announcing_collector_axioms ntpc.announcing_collector_axioms optics.announcing_collector_axioms poe.announcing_collector_axioms pools.announcing_collector_axioms queue.announcing_collector_axioms radius.announcing_collector_axioms resource.announcing_collector_axioms routes.announcing_collector_axioms scripts.announcing_collector_axioms service.announcing_collector_axioms switch.announcing_collector_axioms w60g.announcing_collector_axioms wireguard.announcing_collector_axioms wlanif.announcing_collector_axioms wlansta.announcing_collector_axioms

definition device_only :: "string list" where
  "device_only = [''cloud'', ''disk'', ''neighbor'', ''ppp'']"

definition no_contract :: "string list" where
  "no_contract = [''dhcpl'', ''ipv6_neighbor'', ''lte'']"

definition contract :: "string \<Rightarrow> 'w RouterOSCollector outcome \<Rightarrow> bool" where
  "contract n new \<longleftrightarrow> safe_collector new
       \<and> (n \<notin> set no_contract \<longrightarrow> device_collector new)
       \<and> (n \<notin> set no_contract \<longrightarrow> n \<notin> set device_only \<longrightarrow> announcing_collector new)"

lemma contract_alt:
  "contract n new \<longleftrightarrow> safe_collector new \<and> (n \<in> set no_contract \<or> device_collector new)
     \<and> (n \<in> set (no_contract @ device_only) \<or> announcing_collector new)"
  by (auto simp: contract_def)

lemma contractI:
  "announcing_collector new \<Longrightarrow> contract n new"
  "device_collector new \<Longrightarrow> n \<in> set device_only \<Longrightarrow> contract n new"
  "safe_collector new \<Longrightarrow> n \<in> set no_contract \<Longrightarrow> contract n new"
  by (auto simp: contract_def announcing_collector_def device_collector_def)

lemma all_Cons: "list_all P (x # xs) \<longleftrightarrow> P x \<and> list_all P xs" "list_all P [] \<longleftrightarrow> True"
  by simp_all

lemma unusual_names:
  "''cloud'' \<in> set device_only" "''disk'' \<in> set device_only" "''neighbor'' \<in> set device_only" "''ppp'' \<in> set device_only"
  "''dhcpl'' \<in> set no_contract" "''ipv6_neighbor'' \<in> set no_contract" "''lte'' \<in> set no_contract"
  by (simp_all add: device_only_def no_contract_def)

lemma table_contracts: "list_all (\<lambda>(n, f, d). contract n f) (table now)"
  unfolding table_def all_Cons prod.case
  by (intro conjI TrueI announcing_contracts [THEN contractI(1)] contractI(2) [OF cloud.device_collector_axioms]
      contractI(2) [OF disk.device_collector_axioms] contractI(2) [OF neighbor.device_collector_axioms]
      contractI(2) [OF ppp.device_collector_axioms] safe_contracts [THEN contractI(3)] unusual_names)

text \<open>The registry of the program, whose collectors ask a \<open>client\<close>.\<close>

definition registry :: "int \<Rightarrow> client RegisteredCollector gomap" where
  "registry now = registered now"

abbreviation entries :: "int \<Rightarrow> (string \<times> client RouterOSCollector outcome \<times> string) list" where
  "entries now \<equiv> table now"

section \<open>Properties\<close>

lemma in_registered: "(n, f, d) \<in> set (entries now) \<Longrightarrow>
     mget (registry now) n = Some \<lparr>reg_instFunc = f, reg_Name = n, reg_Description = d\<rparr>"
proof -
  assume m: "(n, f, d) \<in> set (entries now)"
  have "distinct (map fst (registry now))"
    using table_distinct [of now] by (simp add: registered_eq registry_def o_def split_def)
  moreover have "(n, \<lparr>reg_instFunc = f, reg_Name = n, reg_Description = d\<rparr>) \<in> set (registry now)"
    using m by (force simp: registered_eq registry_def)
  ultimately show ?thesis by (simp add: mget_def)
qed

lemma names_table: "AvailableCollectorsNames (registry now) = map fst (entries now)"
  by (simp add: AvailableCollectorsNames_def mkeys_def registered_eq registry_def o_def split_def)

lemma instanate_registered:
  assumes "n \<in> set (AvailableCollectorsNames (registry now))"
  shows "\<exists>k. InstanateCollector (registry now) n = Return (Some k) \<and> contract n (Return k)"
proof -
  from assms obtain f d where m: "(n, f, d) \<in> set (entries now)" by (auto simp: names_table)
  with table_contracts [of now] have "contract n f" by (auto simp: list_all_iff)
  moreover from this have "\<exists>k. f = Return k" by (auto simp: contract_def dest: safe_collector.built)
  ultimately show ?thesis using in_registered [OF m] by (auto simp: InstanateCollector_def)
qed

lemma instanate_unknown:
  "n \<notin> set (AvailableCollectorsNames r) \<Longrightarrow> InstanateCollector r n = Return None"
  by (simp add: InstanateCollector_def AvailableCollectorsNames_def mget_None_iff [symmetric])

text \<open>
  Property C14: what the registry holds.  The \<^verbatim>\<open>init\<close> functions register forty collectors under
  distinct names.  Every registered constructor returns a collector, and every collector is safe: whatever the
  device answers it leaves the client usable, waits for ever only where a command of the client does, and sends only metrics
  with the name and address of the device.  All of them but three also return, without a panic, and all but these
  and four more send only metrics that \<^verbatim>\<open>Describe\<close> announces.  For any other name
  \<^verbatim>\<open>InstanateCollector\<close> gives nil.
\<close>

theorem registry_contracts:
  "length (AvailableCollectorsNames (registry now)) = 40
   \<and> distinct (AvailableCollectorsNames (registry now))
   \<and> (\<forall>n. if n \<in> set (AvailableCollectorsNames (registry now))
          then \<exists>k. InstanateCollector (registry now) n = Return (Some k)
             \<and> safe_collector (Return k)
             \<and> (n \<in> set no_contract \<or> device_collector (Return k))
             \<and> (n \<in> set (no_contract @ device_only)
                \<or> announcing_collector (Return k))
          else InstanateCollector (registry now) n = Return None)"
proof (intro conjI allI)
  show "length (AvailableCollectorsNames (registry now)) = 40"
    unfolding names_table table_names by simp
  show "distinct (AvailableCollectorsNames (registry now))"
    unfolding names_table by (rule table_distinct)
  fix n
  show "if n \<in> set (AvailableCollectorsNames (registry now))
          then \<exists>k. InstanateCollector (registry now) n = Return (Some k)
             \<and> safe_collector (Return k)
             \<and> (n \<in> set no_contract \<or> device_collector (Return k))
             \<and> (n \<in> set (no_contract @ device_only)
                \<or> announcing_collector (Return k))
          else InstanateCollector (registry now) n = Return None"
  proof (cases "n \<in> set (AvailableCollectorsNames (registry now))")
    case True
    from instanate_registered [OF True] obtain k where "InstanateCollector (registry now) n = Return (Some k)"
      and "contract n (Return k)" by blast
    with True show ?thesis unfolding contract_alt by (simp only: if_True) blast
  next
    case False
    from instanate_unknown [OF False] False show ?thesis by (simp only: if_False)
  qed
qed

end
