(* ===== verification/Device.thy ===== *)
theory Device
  imports Collectors
begin

text \<open>
  Package \<^verbatim>\<open>internal/collector\<close>, \<^verbatim>\<open>device_collector.go\<close>: one device, its cached connection and its
  collectors.  The network is a parameter (\<open>dialer\<close>: what dialing an address gives), and so is the
  context (\<open>cancelled k\<close>: whether \<^verbatim>\<open>ctx.Done()\<close> is closed when the \<open>k\<close>-th collector has finished).
  The state has the device collector, the metrics sent so far, and the clients the program has
  let go of, which shows what is closed and what leaks.

  The dialer gets the timeout of the device; what it gives has no deadline, and the context is asked only
  between collectors.  So a device whose connection is silent (\<open>Conn\<close>) keeps its collection waiting
  for ever; \<open>quiet\<close> says that there is such a connection.
\<close>

section \<open>State\<close>

record deviceCollectorRC =
  rc_collector :: "client RouterOSCollector option"
  rc_name :: string
  rc_featureConf :: FeatureConf

record deviceCollector =
  dc_cl :: "client option"
  dc_device :: Device
  dc_collectors :: "deviceCollectorRC list"
  dc_isSrv :: bool
  dc_errors :: "64 word"

record dstate =
  ds_dc :: deviceCollector
  ds_ch :: "metric list"
  ds_gone :: "client list"

definition stopAfterErrors :: int where "stopAfterErrors = 5"

definition APIPort :: string where "APIPort = ''8728''"
definition APIPortTLS :: string where "APIPortTLS = ''8729''"
definition DefaultTimeout :: int where "DefaultTimeout = 5"

definition newDeviceCollector :: "Device \<Rightarrow> deviceCollectorRC list \<Rightarrow> deviceCollector" where
  "newDeviceCollector device collectors =
     (let d1 = (if dev_Port device = '''' then device\<lparr>dev_Port := if dev_TLS device then APIPortTLS else APIPort\<rparr>
                else device);
          d2 = (if dev_Timeout d1 = 0 then d1\<lparr>dev_Timeout := DefaultTimeout\<rparr> else d1);
          d3 = (if dev_CollectTimeout d2 = 0 then d2\<lparr>dev_CollectTimeout := dev_Timeout d2 * 10\<rparr> else d2)
      in \<lparr>dc_cl = None, dc_device = d3, dc_collectors = collectors, dc_isSrv = (dev_Srv d3 \<noteq> None),
          dc_errors = 0\<rparr>)"


section \<open>Connecting\<close>

text \<open>
  \<open>updateIdentity\<close> and \<open>getVersion\<close> work on a client and write fields of the device.
\<close>

definition on_client :: "('c, 'a) gom \<Rightarrow> ('c \<times> Device, 'a) gom" where
  "on_client m = (\<lambda>(c, d). case m c of (r, c') \<Rightarrow> (r, (c', d)))"

definition set_device :: "(Device \<Rightarrow> Device) \<Rightarrow> ('c \<times> Device, unit) gom" where
  "set_device f = gupdate (\<lambda>(c, d). (c, f d))"

definition updateIdentity :: "(byte list \<Rightarrow> goerror + string) \<Rightarrow> (client \<times> Device, goerror option) gom" where
  "updateIdentity decode =
     gbind (on_client (Run decode [''/system/identity/print''])) (\<lambda>r. case r of
       Inl err \<Rightarrow> gret (Some (Wrapf ''get identity error: %w'' [] err))
     | Inr reply \<Rightarrow>
         (case rep_re reply of
            [] \<Rightarrow> gret (Some ErrInvalidResponse)
          | re # _ \<Rightarrow>
              (let name = mlookup (sen_map re) ''name''
               in gseq (set_device (\<lambda>d. d\<lparr>dev_Name := name\<rparr>))
                  (gret (if name = '''' then Some ErrInvalidResponse else None)))))"

definition parseFirmwareVersion :: "sentence \<Rightarrow> goerror + FirmwareVersion" where
  "parseFirmwareVersion re =
     (let v = mlookup (sen_map re) ''version'';
          version = (case cut v '' '' of Some (a, _) \<Rightarrow> a | None \<Rightarrow> v)
      in if version = '''' then Inl ErrInvalidVersion
         else let parts = split_on version ''.''
              in if length parts \<noteq> 3 \<and> length parts \<noteq> 2 then Inl ErrInvalidVersion
                 else case Atoi (parts ! 0) of
                        Inl err \<Rightarrow> Inl (Wrapf ''parse error: %w'' [] err)
                      | Inr major \<Rightarrow>
                   (case Atoi (parts ! 1) of
                        Inl err \<Rightarrow> Inl (Wrapf ''parse error: %w'' [] err)
                      | Inr minor \<Rightarrow>
                   (case (if length parts = 3 then Atoi (parts ! 2) else Inr 0) of
                        Inl err \<Rightarrow> Inl (Wrapf ''parse error: %w'' [] err)
                      | Inr patch \<Rightarrow> Inr \<lparr>fv_Major = major, fv_Minor = minor, fv_Patch = patch,
                          fv_Architecture = mlookup (sen_map re) ''architecture-name''\<rparr>)))"

definition getVersion :: "(byte list \<Rightarrow> goerror + string) \<Rightarrow> (client \<times> Device, goerror option) gom" where
  "getVersion decode =
     gbind (on_client (Run decode [''/system/resource/print''])) (\<lambda>r. case r of
       Inl err \<Rightarrow> gret (Some (Wrapf ''get version error: %w'' [] err))
     | Inr reply \<Rightarrow>
         (case rep_re reply of
            [] \<Rightarrow> gpanic IndexOutOfRange
          | re # _ \<Rightarrow>
              (case parseFirmwareVersion re of
                 Inl err \<Rightarrow> gseq (set_device (\<lambda>d. d\<lparr>dev_FirmwareVersion := zero_version\<rparr>))
                              (gret (Some (Wrapf ''parse version %v error: %w'' [] err)))
               | Inr v \<Rightarrow>
                   gseq (set_device (\<lambda>d. d\<lparr>dev_FirmwareVersion := v\<rparr>))
                   (gbind (on_client (Run decode [''/system/clock/print''])) (\<lambda>r'. case r' of
                      Inl err \<Rightarrow> gret (Some (Wrapf ''get clock error: %w'' [] err))
                    | Inr reply' \<Rightarrow>
                        (case rep_re reply' of
                           [] \<Rightarrow> gpanic IndexOutOfRange
                         | re' # _ \<Rightarrow>
                             gseq (set_device (\<lambda>d. d\<lparr>dev_Timezone := mlookup (sen_map re') ''time-zone-name''\<rparr>))
                             (gret None)))))))"

definition dial :: "(string \<Rightarrow> bool \<Rightarrow> bool \<Rightarrow> int \<Rightarrow> goerror + conn) \<Rightarrow> Device \<Rightarrow> goerror + conn" where
  "dial dialer d =
     (case dialer (dev_Address d @ '':'' @ dev_Port d) (dev_TLS d) (dev_Insecure d) (dev_Timeout d) of
        Inl err \<Rightarrow> Inl (Wrapf ''dial error: %w'' [] err)
      | Inr con \<Rightarrow> Inr con)"

definition set_dc :: "(deviceCollector \<Rightarrow> deviceCollector) \<Rightarrow> dstate \<Rightarrow> dstate" where
  "set_dc f s = s\<lparr>ds_dc := f (ds_dc s)\<rparr>"

definition let_go :: "client \<Rightarrow> dstate \<Rightarrow> dstate" where
  \<comment> \<open>the last reference to a client is gone\<close>
  "let_go c s = s\<lparr>ds_gone := ds_gone s @ [c]\<rparr>"

definition on_cached :: "(client \<times> Device, 'a) gom \<Rightarrow> (dstate, 'a) gom" where
  \<comment> \<open>a call on the client \<^verbatim>\<open>dc.cl\<close>\<close>
  "on_cached m = (\<lambda>s. case dc_cl (ds_dc s) of
       None \<Rightarrow> (Panicked NilDereference, s)
     | Some cl \<Rightarrow> (case m (cl, dc_device (ds_dc s)) of
         (r, (cl', d)) \<Rightarrow> (r, set_dc (\<lambda>dc. dc\<lparr>dc_cl := Some cl', dc_device := d\<rparr>) s)))"

definition close_cached :: "dstate \<Rightarrow> dstate" where
  \<comment> \<open>\<^verbatim>\<open>dc.cl.Close(); dc.cl = nil\<close>\<close>
  "close_cached s = (case dc_cl (ds_dc s) of
       None \<Rightarrow> s
     | Some cl \<Rightarrow> let_go (Close cl) (set_dc (\<lambda>dc. dc\<lparr>dc_cl := None\<rparr>) s))"

definition disconnect :: "dstate \<Rightarrow> dstate" where
  "disconnect s = (if dc_isSrv (ds_dc s) then close_cached s else s)"

definition identify :: "(byte list \<Rightarrow> goerror + string) \<Rightarrow> client \<Rightarrow> (dstate, goerror + unit) gom" where
  \<comment> \<open>\<^verbatim>\<open>connect\<close> from the point where the client is logged in; a client that is neither cached nor
     closed is let go of\<close>
  "identify decode cl = (\<lambda>s.
     if dev_Srv (dc_device (ds_dc s)) = None
     then (Return (Inr ()), set_dc (\<lambda>dc. dc\<lparr>dc_cl := Some cl\<rparr>) s)
     else (case updateIdentity decode (cl, dc_device (ds_dc s)) of
             (Return None, (cl', d)) \<Rightarrow>
               (Return (Inr ()), set_dc (\<lambda>dc. dc\<lparr>dc_device := d, dc_cl := Some cl'\<rparr>) s)
           | (Return (Some err), (cl', d)) \<Rightarrow>
               (Return (Inl (Wrapf ''get identity error: %w'' [] err)),
                let_go cl' (set_dc (\<lambda>dc. dc\<lparr>dc_device := d\<rparr>) s))
           | (Panicked p, (cl', d)) \<Rightarrow> (Panicked p, let_go cl' (set_dc (\<lambda>dc. dc\<lparr>dc_device := d\<rparr>) s))
           | (Blocked, (cl', d)) \<Rightarrow> (Blocked, set_dc (\<lambda>dc. dc\<lparr>dc_device := d\<rparr>) s)))"

definition reconnect :: "(byte list \<Rightarrow> goerror + string) \<Rightarrow> (string \<Rightarrow> bool \<Rightarrow> bool \<Rightarrow> int \<Rightarrow> goerror + conn)
    \<Rightarrow> (dstate, goerror + unit) gom" where
  \<comment> \<open>\<^verbatim>\<open>connect\<close> from \<^verbatim>\<open>dc.dial(ctx)\<close> on\<close>
  "reconnect decode dialer = (\<lambda>s.
     let d = dc_device (ds_dc s)
     in case dial dialer d of
          Inl err \<Rightarrow> (Return (Inl err), s)
        | Inr con \<Rightarrow>
            (case Login decode (dev_User d) (dev_Password d) (NewClient con) of
               (Return (Some err), cl) \<Rightarrow> (Return (Inl (Wrapf ''login error: %w'' [] err)), let_go (Close cl) s)
             | (Return None, cl) \<Rightarrow> identify decode cl s
             | (Panicked p, cl) \<Rightarrow> (Panicked p, let_go cl s)
             | (Blocked, cl) \<Rightarrow> (Blocked, s)))"

definition is_alive :: "goerror + reply \<Rightarrow> bool" where
  "is_alive r = (case r of Inl _ \<Rightarrow> False | Inr reply \<Rightarrow> rep_re reply \<noteq> [])"

definition connect :: "(byte list \<Rightarrow> goerror + string) \<Rightarrow> (string \<Rightarrow> bool \<Rightarrow> bool \<Rightarrow> int \<Rightarrow> goerror + conn)
    \<Rightarrow> (dstate, goerror + unit) gom" where
  \<comment> \<open>on success the client is \<^verbatim>\<open>dc.cl\<close>\<close>
  "connect decode dialer = (\<lambda>s.
     if dc_cl (ds_dc s) \<noteq> None
     then gbind (on_cached (on_client (Run decode [''/system/identity/print'']))) (\<lambda>r.
            if is_alive r then gret (Inr ())
            else gseq (gupdate close_cached) (reconnect decode dialer)) s
     else reconnect decode dialer s)"


section \<open>Collecting\<close>

definition run_collector :: "(byte list \<Rightarrow> goerror + string) \<Rightarrow> (desc \<Rightarrow> string list \<Rightarrow> bool)
    \<Rightarrow> deviceCollectorRC \<Rightarrow> (dstate, goerror option) gom" where
  \<comment> \<open>\<^verbatim>\<open>drc.collector.Collect(&cctx)\<close>; an unknown collector is a nil interface\<close>
  "run_collector decode accepts drc = (\<lambda>s.
     case (rc_collector drc, dc_cl (ds_dc s)) of
       (Some k, Some cl) \<Rightarrow>
         (let cctx = NewCollectorContext (dc_device (ds_dc s)) (Run decode) (rc_name drc)
                       (rc_featureConf drc) accepts
          in case rc_Collect k cctx \<lparr>ms_world = cl, ms_ch = ds_ch s\<rparr> of
               (r, ms) \<Rightarrow> (r, set_dc (\<lambda>dc. dc\<lparr>dc_cl := Some (ms_world ms)\<rparr>) (s\<lparr>ds_ch := ms_ch ms\<rparr>)))
     | _ \<Rightarrow> (Panicked NilDereference, s))"

definition count_errors :: "int \<Rightarrow> dstate \<Rightarrow> dstate" where
  "count_errors n = set_dc (\<lambda>dc. dc\<lparr>dc_errors := dc_errors dc + of_int n\<rparr>)"

fun gather_loop :: "(deviceCollectorRC \<Rightarrow> (dstate, goerror option) gom) \<Rightarrow> (nat \<Rightarrow> bool)
    \<Rightarrow> deviceCollectorRC list \<Rightarrow> nat \<Rightarrow> int \<Rightarrow> goerror option \<Rightarrow> (dstate, goerror option) gom" where
  "gather_loop run cancelled [] k collectErrors result = gret result"
| "gather_loop run cancelled (drc # drcs) k collectErrors result =
     gbind (run drc) (\<lambda>e. case e of
       Some err \<Rightarrow>
         (let result' = errors_join [result, Some (Wrapf ''collect %s error: %w'' [rc_name drc] err)]
          in gseq (gupdate (count_errors 1))
             (if collectErrors + 1 = stopAfterErrors then gret (errors_join [result', Some ErrTooManyErrors])
              else if cancelled k then gret result'
              else gather_loop run cancelled drcs (Suc k) (collectErrors + 1) result'))
     | None \<Rightarrow>
         if cancelled k then gret result else gather_loop run cancelled drcs (Suc k) 0 result)"

definition gatherMetrics :: "(byte list \<Rightarrow> goerror + string) \<Rightarrow> (desc \<Rightarrow> string list \<Rightarrow> bool) \<Rightarrow> (nat \<Rightarrow> bool)
    \<Rightarrow> (dstate, goerror option) gom" where
  "gatherMetrics decode accepts cancelled = (\<lambda>s.
     gather_loop (run_collector decode accepts) cancelled (dc_collectors (ds_dc s)) 0 0 None s)"

definition deferred :: "('s \<Rightarrow> 's) \<Rightarrow> ('s, 'a) gom \<Rightarrow> ('s, 'a) gom" where
  \<comment> \<open>\<^verbatim>\<open>defer f()\<close>: it runs on return and on panic\<close>
  "deferred f m = (\<lambda>s. case m s of
       (Return x, s') \<Rightarrow> (Return x, f s')
     | (Panicked p, s') \<Rightarrow> (Panicked p, f s')
     | (Blocked, s') \<Rightarrow> (Blocked, s'))"

definition forget_version :: "dstate \<Rightarrow> dstate" where
  \<comment> \<open>\<^verbatim>\<open>dc.device.FirmwareVersion.Major = 0\<close>\<close>
  "forget_version = set_dc (\<lambda>dc. dc\<lparr>dc_device := (dc_device dc)\<lparr>dev_FirmwareVersion :=
       (dev_FirmwareVersion (dc_device dc))\<lparr>fv_Major := 0\<rparr>\<rparr>\<rparr>)"

definition count_all :: "dstate \<Rightarrow> dstate" where
  \<comment> \<open>\<^verbatim>\<open>dc.errors += int64(len(dc.collectors))\<close>\<close>
  "count_all s = count_errors (int (length (dc_collectors (ds_dc s)))) s"

definition load_version :: "(byte list \<Rightarrow> goerror + string) \<Rightarrow> (dstate, goerror option) gom" where
  "load_version decode = (\<lambda>s.
     if fv_Major (dev_FirmwareVersion (dc_device (ds_dc s))) = 0 then on_cached (getVersion decode) s
     else (Return None, s))"

definition collect_connected :: "(byte list \<Rightarrow> goerror + string) \<Rightarrow> (desc \<Rightarrow> string list \<Rightarrow> bool)
    \<Rightarrow> (nat \<Rightarrow> bool) \<Rightarrow> (dstate, goerror option) gom" where
  \<comment> \<open>\<open>collect\<close> from the point where the device is connected\<close>
  "collect_connected decode accepts cancelled =
     gbind (load_version decode) (\<lambda>e. case e of
       Some err \<Rightarrow> gseq (gupdate count_all) (gret (Some (Wrapf ''get version error: %w'' [] err)))
     | None \<Rightarrow> wrapped ''collect error: %w'' [] (gatherMetrics decode accepts cancelled))"

definition collect :: "(byte list \<Rightarrow> goerror + string) \<Rightarrow> (string \<Rightarrow> bool \<Rightarrow> bool \<Rightarrow> int \<Rightarrow> goerror + conn)
    \<Rightarrow> (desc \<Rightarrow> string list \<Rightarrow> bool) \<Rightarrow> (nat \<Rightarrow> bool) \<Rightarrow> (dstate, goerror option) gom" where
  "collect decode dialer accepts cancelled =
     gbind (connect decode dialer) (\<lambda>r. case r of
       Inl err \<Rightarrow> gseq (gupdate forget_version) (gseq (gupdate count_all)
                    (gret (Some (Wrapf ''connect error: %w'' [] err))))
     | Inr _ \<Rightarrow> deferred disconnect (collect_connected decode accepts cancelled))"


section \<open>What the operations keep\<close>

text \<open>\<open>healthy\<close>: a client no command is running on and that is not closed.\<close>

definition healthy :: "client \<Rightarrow> bool" where
  "healthy c \<longleftrightarrow> idle c \<and> \<not> cl_closing c"

definition on_peer :: "bool \<Rightarrow> client \<Rightarrow> bool" where
  \<comment> \<open>a healthy client whose peer is silent, or one whose peer is not\<close>
  "on_peer b c \<longleftrightarrow> healthy c \<and> silent (cl_rwc c) = b"

lemma on_peer_meets: "on_peer b c \<longleftrightarrow> meets b c \<and> \<not> cl_closing c"
  by (auto simp: on_peer_def meets_def healthy_def)

lemma Run_on_peer:
  assumes "on_peer b c"
  shows "(\<exists>res c'. Run decode ws c = (Return res, c') \<and> on_peer b c') \<or> b \<and> fst (Run decode ws c) = Blocked"
  using assms Run_meets [of b c decode ws] keepsD [OF keeps_Run, of c False decode ws]
  by (cases "Run decode ws c") (auto simp: on_peer_meets)

interpretation live: ro_client "Run decode" "on_peer b" b
proof unfold_locales
  fix s ws r s'
  assume i: "on_peer b s"
  show "(\<exists>res s'. Run decode ws s = (Return res, s') \<and> on_peer b s') \<or> b \<and> fst (Run decode ws s) = Blocked"
    by (rule Run_on_peer [OF i])
  assume "Run decode ws s = (Return (Inr r), s')"
  with i Run_Inr [of s decode ws r s']
  show "\<exists>d. rep_done r = Some d \<and> sen_word d = ''!done''" "\<forall>x \<in> set (rep_re r). sen_word x = ''!re''"
    by (auto simp: on_peer_def healthy_def)
qed

lemma healthy_NewClient [simp]: "healthy (NewClient con)" "on_peer b (NewClient con) \<longleftrightarrow> silent con = b"
  by (simp_all add: healthy_def on_peer_def)

lemma Login_on_peer:
  assumes "on_peer b c"
  shows "(\<exists>err c'. Login decode user password c = (Return err, c') \<and> on_peer b c')
     \<or> b \<and> fst (Login decode user password c) = Blocked"
  using assms Login_meets [of b c decode user password] keepsD [OF keeps_Login, of c False decode user password]
  by (cases "Login decode user password c") (auto simp: on_peer_meets)

definition dinv :: "dstate \<Rightarrow> bool" where
  "dinv s \<longleftrightarrow> (\<forall>c. dc_cl (ds_dc s) = Some c \<longrightarrow> healthy c)
     \<and> dc_isSrv (ds_dc s) = (dev_Srv (dc_device (ds_dc s)) \<noteq> None)"

definition quiet :: "(string \<Rightarrow> bool \<Rightarrow> bool \<Rightarrow> int \<Rightarrow> goerror + conn) \<Rightarrow> deviceCollector \<Rightarrow> bool" where
  \<comment> \<open>the cached connection of the device is silent, or the one the dialer gives\<close>
  "quiet dialer dc \<longleftrightarrow> (case dc_cl dc of None \<Rightarrow> False | Some cl \<Rightarrow> silent (cl_rwc cl))
     \<or> (case dial dialer (dc_device dc) of Inl err \<Rightarrow> False | Inr con \<Rightarrow> silent con)"

definition all_closed :: "dstate \<Rightarrow> bool" where
  "all_closed s \<longleftrightarrow> (\<forall>c \<in> set (ds_gone s). cl_closing c)"

text \<open>What connecting does not touch: the collectors, the counters, the metrics, and all of the device but its name.\<close>

definition same_task :: "dstate \<Rightarrow> dstate \<Rightarrow> bool" where
  "same_task s s' \<longleftrightarrow> dc_collectors (ds_dc s') = dc_collectors (ds_dc s) \<and> dc_isSrv (ds_dc s') = dc_isSrv (ds_dc s)
     \<and> dc_errors (ds_dc s') = dc_errors (ds_dc s) \<and> ds_ch s' = ds_ch s
     \<and> (dc_device (ds_dc s'))\<lparr>dev_Name := ''''\<rparr> = (dc_device (ds_dc s))\<lparr>dev_Name := ''''\<rparr>
     \<and> (dev_Srv (dc_device (ds_dc s)) = None \<longrightarrow> dc_device (ds_dc s') = dc_device (ds_dc s))"

lemma device_eqD:
  "d\<lparr>dev_Name := ''''\<rparr> = e\<lparr>dev_Name := ''''\<rparr> \<Longrightarrow> dev_Srv d = dev_Srv e"
  "d\<lparr>dev_Name := ''''\<rparr> = e\<lparr>dev_Name := ''''\<rparr> \<Longrightarrow> dev_Address d = dev_Address e"
  "d\<lparr>dev_Name := ''''\<rparr> = e\<lparr>dev_Name := ''''\<rparr> \<Longrightarrow> dev_FirmwareVersion d = dev_FirmwareVersion e"
  by (cases d; cases e; simp)+

lemma Close_closing [simp]: "cl_closing (Close c)"
  by (simp add: Close_def)

lemma updateIdentity_ends:
  assumes "on_peer b c"
  shows "(\<exists>err c' n. updateIdentity decode (c, d) = (Return err, (c', d\<lparr>dev_Name := n\<rparr>)) \<and> on_peer b c'
     \<and> (err = None \<longrightarrow> n \<noteq> '''')) \<or> b \<and> fst (updateIdentity decode (c, d)) = Blocked"
proof (rule live.run_cases [OF assms, of decode "[''/system/identity/print'']"])
  fix e c' assume "Run decode [''/system/identity/print''] c = (Return (Inl e), c')" and "on_peer b c'"
  then show ?thesis
    by (intro disjI1 exI [of _ "Some (Wrapf ''get identity error: %w'' [] e)"] exI [of _ c'] exI [of _ "dev_Name d"])
       (simp add: updateIdentity_def gbind_def on_client_def)
next
  fix c' assume "Run decode [''/system/identity/print''] c = (Blocked, c')" and b
  then show ?thesis by (simp add: updateIdentity_def gbind_def on_client_def)
next
  fix r fin c' assume "Run decode [''/system/identity/print''] c = (Return (Inr r), c')" and "on_peer b c'"
  note r = this
  show ?thesis
  proof (cases "rep_re r")
    case Nil
    with r show ?thesis
      by (intro disjI1 exI [of _ "Some ErrInvalidResponse"] exI [of _ c'] exI [of _ "dev_Name d"])
         (simp add: updateIdentity_def gbind_def on_client_def)
  next
    case (Cons re res)
    with r show ?thesis
      by (auto simp: updateIdentity_def gbind_def gseq_def on_client_def set_device_def Let_def)
  qed
qed

text \<open>What connecting ends with: a connection or an error; or it waits for ever, when \<open>b\<close> is true.\<close>

definition connected_from :: "dstate \<Rightarrow> bool \<Rightarrow> (goerror + unit) outcome \<times> dstate \<Rightarrow> bool" where
  "connected_from s b result \<longleftrightarrow> (case result of
       (Return res, s') \<Rightarrow> dinv s' \<and> same_task s s' \<and> (res = Inr () \<longleftrightarrow> dc_cl (ds_dc s') \<noteq> None)
          \<and> (case dc_cl (ds_dc s') of None \<Rightarrow> True | Some cl \<Rightarrow> silent (cl_rwc cl) \<longrightarrow> b)
          \<and> (dev_Srv (dc_device (ds_dc s)) = None \<longrightarrow> all_closed s \<longrightarrow> all_closed s')
     | (Panicked p, s') \<Rightarrow> False
     | (Blocked, s') \<Rightarrow> b)"

lemma reconnect_ends:
  assumes "dinv s" and "dc_cl (ds_dc s) = None"
  shows "connected_from s (quiet dialer (ds_dc s)) (reconnect decode dialer s)"
proof (cases "dial dialer (dc_device (ds_dc s))")
  case (Inl err)
  with assms show ?thesis by (auto simp: reconnect_def same_task_def connected_from_def)
next
  case (Inr con)
  let ?d = "dc_device (ds_dc s)" and ?b = "silent con"
  have q: "quiet dialer (ds_dc s) = ?b" using assms(2) Inr by (simp add: quiet_def)
  have "on_peer ?b (NewClient con)" by simp
  from Login_on_peer [OF this, of decode "dev_User ?d" "dev_Password ?d"] show ?thesis
  proof (elim disjE exE conjE)
    assume ?b "fst (Login decode (dev_User ?d) (dev_Password ?d) (NewClient con)) = Blocked"
    with Inr q show ?thesis
      by (cases "Login decode (dev_User ?d) (dev_Password ?d) (NewClient con)")
         (simp add: reconnect_def connected_from_def)
  next
    fix err cl
    assume l: "Login decode (dev_User ?d) (dev_Password ?d) (NewClient con) = (Return err, cl)" and cl: "on_peer ?b cl"
    show ?thesis
    proof (cases err)
      case (Some e)
      with Inr l assms show ?thesis
        by (auto simp: reconnect_def let_go_def same_task_def dinv_def all_closed_def connected_from_def)
    next
      case None
      show ?thesis
      proof (cases "dev_Srv ?d")
        case None
        with \<open>err = None\<close> Inr l cl assms q show ?thesis
          by (auto simp: reconnect_def identify_def set_dc_def same_task_def dinv_def all_closed_def
              connected_from_def on_peer_def)
      next
        case (Some srv)
        from updateIdentity_ends [OF cl, of decode ?d] show ?thesis
        proof (elim disjE exE conjE)
          assume ?b "fst (updateIdentity decode (cl, ?d)) = Blocked"
          with Some \<open>err = None\<close> Inr l q show ?thesis
            by (cases "updateIdentity decode (cl, ?d)")
               (auto simp: reconnect_def identify_def connected_from_def split: prod.split)
        next
          fix e c' n
          assume u: "updateIdentity decode (cl, ?d) = (Return e, (c', ?d\<lparr>dev_Name := n\<rparr>))" and c': "on_peer ?b c'"
          with Some \<open>err = None\<close> Inr l assms q show ?thesis
            by (cases e)
               (auto simp: reconnect_def identify_def set_dc_def let_go_def same_task_def dinv_def all_closed_def
                connected_from_def on_peer_def)
        qed
      qed
    qed
  qed
qed

lemma close_cached_inv: "dinv s \<Longrightarrow> dinv (close_cached s)"
  "all_closed s \<Longrightarrow> all_closed (close_cached s)" "same_task s (close_cached s)"
  "dc_cl (ds_dc (close_cached s)) = None"
  by (auto simp: close_cached_def dinv_def set_dc_def let_go_def all_closed_def same_task_def split: option.splits)

lemma same_task_trans: "same_task a b \<Longrightarrow> same_task b c \<Longrightarrow> same_task a c"
  by (auto simp: same_task_def dest: device_eqD)

lemma close_cached_device [simp]: "dc_device (ds_dc (close_cached s)) = dc_device (ds_dc s)"
  by (simp add: close_cached_def set_dc_def let_go_def split: option.split)

lemma connect_ends:
  assumes "dinv s"
  shows "connected_from s (quiet dialer (ds_dc s)) (connect decode dialer s)"
proof (cases "dc_cl (ds_dc s)")
  case None
  with reconnect_ends [OF assms None] show ?thesis by (simp add: connect_def)
next
  case (Some c)
  let ?b = "silent (cl_rwc c)" and ?q = "quiet dialer (ds_dc s)"
  have q: ?q if ?b using that Some by (simp add: quiet_def)
  have "on_peer ?b c" using Some assms by (simp add: dinv_def on_peer_def)
  from Run_on_peer [OF this, of decode "[''/system/identity/print'']"] show ?thesis
  proof (elim disjE exE conjE)
    assume ?b "fst (Run decode [''/system/identity/print''] c) = Blocked"
    with Some q show ?thesis
      by (cases "Run decode [''/system/identity/print''] c")
         (simp add: connect_def gbind_def on_cached_def on_client_def connected_from_def)
  next
    fix r c' assume r: "Run decode [''/system/identity/print''] c = (Return r, c')" and c': "on_peer ?b c'"
    let ?s1 = "set_dc (\<lambda>dc. dc\<lparr>dc_cl := Some c', dc_device := dc_device (ds_dc s)\<rparr>) s"
    have i: "dinv ?s1" and t: "same_task s ?s1" and g: "all_closed s \<longrightarrow> all_closed ?s1"
      using assms c' by (auto simp: dinv_def set_dc_def same_task_def all_closed_def on_peer_def)
    show ?thesis
    proof (cases "is_alive r")
      case True
      with Some r i t g q c' show ?thesis
        by (auto simp: connect_def gbind_def on_cached_def on_client_def set_dc_def connected_from_def on_peer_def)
    next
      case False
      note cc = close_cached_inv [of ?s1]
      let ?s2 = "close_cached ?s1"
      have "quiet dialer (ds_dc ?s2) \<longrightarrow> ?q" using cc(4) by (simp add: quiet_def set_dc_def)
      moreover have "connect decode dialer s = reconnect decode dialer ?s2"
        using Some r False by (simp add: connect_def gbind_def gseq_def on_cached_def on_client_def)
      moreover have "connected_from ?s2 (quiet dialer (ds_dc ?s2)) (reconnect decode dialer ?s2)"
        by (rule reconnect_ends [OF cc(1) [OF i] cc(4)])
      moreover have "dev_Srv (dc_device (ds_dc ?s2)) = dev_Srv (dc_device (ds_dc s))" by (simp add: set_dc_def)
      moreover have "same_task s ?s2" by (rule same_task_trans [OF t cc(3)])
      ultimately show ?thesis using cc(2) g
        by (auto simp: connected_from_def intro: same_task_trans split: prod.splits outcome.splits option.splits)
    qed
  qed
qed

text \<open>However connecting ends, it sends nothing and leaves the collectors alone.\<close>

lemma connect_still:
  "connect decode dialer s = (r, s') \<Longrightarrow> ds_ch s' = ds_ch s \<and> dc_collectors (ds_dc s') = dc_collectors (ds_dc s)"
proof -
  let ?P = "\<lambda>t :: dstate. ds_ch t = ds_ch s \<and> dc_collectors (ds_dc t) = dc_collectors (ds_dc s)"
  have 1: "keeps ?P (reconnect decode dialer)"
    by (rule keepsI) (auto simp: reconnect_def identify_def set_dc_def let_go_def Let_def
        split: sum.splits prod.splits outcome.splits option.splits)
  have 2: "keeps ?P (on_cached m)" for m :: "(client \<times> Device, goerror + reply) gom"
    by (rule keepsI) (auto simp: on_cached_def set_dc_def split: prod.splits option.splits)
  have 3: "keeps ?P (gupdate close_cached)"
    by (rule keepsI) (auto simp: close_cached_def set_dc_def let_go_def split: option.splits)
  have "keeps ?P (connect decode dialer)"
  proof (rule keepsI)
    fix t assume t: "?P t"
    have "keeps ?P (gbind (on_cached (on_client (Run decode [''/system/identity/print'']))) (\<lambda>r.
            if is_alive r then gret (Inr ()) else gseq (gupdate close_cached) (reconnect decode dialer)))"
      by (intro keeps_rules 1 2 3)
    with t 1 show "?P (snd (connect decode dialer t))" by (simp add: connect_def keeps_def)
  qed
  then have k: "?P (snd (connect decode dialer s))" by (rule keepsD [where r = "fst (connect decode dialer s)"]) simp_all
  assume "connect decode dialer s = (r, s')"
  with k show "?P s'" by simp
qed


text \<open>What \<open>getVersion\<close> may change of a device.\<close>

definition same_host :: "Device \<Rightarrow> Device \<Rightarrow> bool" where
  "same_host d d' \<longleftrightarrow> dev_Name d' = dev_Name d \<and> dev_Address d' = dev_Address d \<and> dev_Srv d' = dev_Srv d"

lemma same_host_updates [simp]:
  "same_host d d" "same_host d (e\<lparr>dev_FirmwareVersion := v\<rparr>) = same_host d e"
  "same_host d (e\<lparr>dev_Timezone := z\<rparr>) = same_host d e"
  by (simp_all add: same_host_def)

lemma getVersion_keeps:
  assumes "\<And>d v. P d \<Longrightarrow> P (d\<lparr>dev_FirmwareVersion := v\<rparr>)" and "\<And>d z. P d \<Longrightarrow> P (d\<lparr>dev_Timezone := z\<rparr>)"
  shows "keeps (\<lambda>(c, d). P d) (getVersion decode)"
proof -
  have r: "keeps (\<lambda>(c, d). P d) (on_client (Run decode ws))" for ws
    by (rule keepsI) (auto simp: on_client_def split: prod.splits)
  have s: "keeps (\<lambda>(c, d). P d) (set_device f)" if "\<And>d. P d \<Longrightarrow> P (f d)" for f
    unfolding set_device_def by (rule keeps_gupdate) (use that in auto)
  have l: "keeps P' m \<Longrightarrow> (\<And>x xs. keeps P' (f x xs)) \<Longrightarrow> keeps P' (case v of [] \<Rightarrow> m | x # xs \<Rightarrow> f x xs)"
    for P' :: "client \<times> Device \<Rightarrow> bool" and m :: "(client \<times> Device, goerror option) gom" and f and v :: "sentence list"
    by (simp split: list.split)
  show ?thesis
    unfolding getVersion_def
    by (intro keeps_gbind r s l keeps_case_sum keeps_gret keeps_gseq keeps_gpanic) (auto intro: assms)
qed

lemma getVersion_host: "getVersion decode (c, d) = (r, (c', d')) \<Longrightarrow> same_host d d'"
  using keepsD [OF getVersion_keeps [of "same_host d" decode], of "(c, d)" r "(c', d')"] by simp

definition tried :: "bool \<Rightarrow> goerror option outcome \<times> client \<times> Device \<Rightarrow> bool" where
  \<comment> \<open>the ends of \<open>getVersion\<close>\<close>
  "tried b result \<longleftrightarrow> (case result of (r, (c, d)) \<Rightarrow>
       if r = Blocked then b else on_peer b c \<and> (r = Panicked IndexOutOfRange \<or> (\<exists>err. r = Return err)))"

lemma getVersion_ends:
  assumes "on_peer b c"
  shows "tried b (getVersion decode (c, d))"
proof (rule live.run_cases [OF assms, of decode "[''/system/resource/print'']"])
  fix e c1 assume "Run decode [''/system/resource/print''] c = (Return (Inl e), c1)" and "on_peer b c1"
  then show ?thesis by (simp add: getVersion_def gbind_def on_client_def tried_def)
next
  fix c1 assume "Run decode [''/system/resource/print''] c = (Blocked, c1)" and b
  then show ?thesis by (simp add: getVersion_def gbind_def on_client_def tried_def)
next
  fix rep fin c1 assume r: "Run decode [''/system/resource/print''] c = (Return (Inr rep), c1)" and c1: "on_peer b c1"
  show ?thesis
  proof (cases "rep_re rep")
    case Nil
    with r c1 show ?thesis by (simp add: getVersion_def gbind_def on_client_def tried_def)
  next
    case (Cons re res)
    show ?thesis
    proof (cases "parseFirmwareVersion re")
      case (Inl e)
      with Cons r c1 show ?thesis
        by (simp add: getVersion_def gbind_def gseq_def on_client_def set_device_def tried_def)
    next
      case (Inr v)
      from Run_on_peer [OF c1, of decode "[''/system/clock/print'']"] show ?thesis
      proof (elim disjE exE conjE)
        assume b "fst (Run decode [''/system/clock/print''] c1) = Blocked"
        with Inr Cons r show ?thesis
          by (cases "Run decode [''/system/clock/print''] c1")
             (simp add: getVersion_def gbind_def gseq_def on_client_def set_device_def tried_def)
      next
        fix res2 c2 assume "Run decode [''/system/clock/print''] c1 = (Return res2, c2)" and "on_peer b c2"
        with Inr Cons r show ?thesis
          by (cases res2; cases "rep_re (projr res2)")
             (simp_all add: getVersion_def gbind_def gseq_def on_client_def set_device_def tried_def)
      qed
    qed
  qed
qed

text \<open>
  \<open>sends_own d ch\<close>: since the channel held \<open>ch\<close> only metrics of the device \<open>d\<close> were sent.
  \<open>works b d ch g\<close>: moreover it is connected, to a silent peer when \<open>b\<close> is true; \<open>g\<close> are the clients
  let go of.
\<close>

definition sends_own :: "Device \<Rightarrow> metric list \<Rightarrow> dstate \<Rightarrow> bool" where
  "sends_own d ch s \<longleftrightarrow> same_host d (dc_device (ds_dc s))
     \<and> (\<exists>sent. ds_ch s = ch @ sent
          \<and> (\<forall>x \<in> set sent. \<exists>ls. mt_labels x = [dev_Name d, dev_Address d] @ ls))"

definition works :: "bool \<Rightarrow> Device \<Rightarrow> metric list \<Rightarrow> client list \<Rightarrow> dstate \<Rightarrow> bool" where
  "works b d ch g s \<longleftrightarrow> dinv s \<and> (\<exists>cl. dc_cl (ds_dc s) = Some cl \<and> on_peer b cl) \<and> ds_gone s = g \<and> sends_own d ch s"

lemma works_count [simp]: "works b d ch g (count_errors n s) = works b d ch g s"
  "works b d ch g (count_all s) = works b d ch g s"
  "sends_own d ch (count_errors n s) = sends_own d ch s" "sends_own d ch (count_all s) = sends_own d ch s"
  by (simp_all add: works_def sends_own_def dinv_def count_all_def count_errors_def set_dc_def)

definition accepts_all :: "(desc \<Rightarrow> string list \<Rightarrow> bool) \<Rightarrow> bool" where
  \<comment> \<open>the metric library takes any values for the labels of a description\<close>
  "accepts_all accepts \<longleftrightarrow> (\<forall>d ls. length ls = length (dc_labels d) \<longrightarrow> accepts d ls)"

definition good_rc :: "deviceCollectorRC \<Rightarrow> bool" where
  "good_rc drc \<longleftrightarrow> (\<exists>k. rc_collector drc = Some k \<and> device_collector (Return k))"

lemma run_collector_ok:
  assumes "good_rc drc" and "accepts_all accepts"
  shows "ok b (works b d ch g) (run_collector decode accepts drc) (\<lambda>_. works b d ch g)"
  unfolding ok_def
proof (intro allI impI)
  fix s assume w: "works b d ch g s"
  then obtain cl sent where cl: "dc_cl (ds_dc s) = Some cl" "on_peer b cl" and sent: "ds_ch s = ch @ sent"
    "\<forall>x \<in> set sent. \<exists>ls. mt_labels x = [dev_Name d, dev_Address d] @ ls"
    and h: "same_host d (dc_device (ds_dc s))"
    by (auto simp: works_def sends_own_def)
  obtain k where k: "rc_collector drc = Some k" and dk: "device_collector (Return k)"
    using assms(1) by (auto simp: good_rc_def)
  let ?c = "NewCollectorContext (dc_device (ds_dc s)) (Run decode) (rc_name drc) (rc_featureConf drc) accepts"
  have "fresh_ctx ?c" "library_ok ?c" "ro_client (cx_Client ?c) (on_peer b) b"
    using assms(2) live.ro_client_axioms
    by (simp_all add: NewCollectorContext_def fresh_ctx_def library_ok_def accepts_all_def)
  from device_collector.collected [OF dk refl this, of "\<lparr>ms_world = cl, ms_ch = ds_ch s\<rparr>", simplified, OF cl(2)]
  show "(\<exists>e s'. run_collector decode accepts drc s = (Return e, s') \<and> works b d ch g s')
     \<or> b \<and> fst (run_collector decode accepts drc s) = Blocked"
  proof (elim disjE exE conjE)
    fix err ms new assume r: "rc_Collect k ?c \<lparr>ms_world = cl, ms_ch = ds_ch s\<rparr> = (Return err, ms)"
      and i: "on_peer b (ms_world ms)" and ch: "ms_ch ms = ds_ch s @ new"
      and new: "\<forall>x \<in> set new. of_device ?c x"
    have "dev_Name (cx_Device ?c) = dev_Name d" "dev_Address (cx_Device ?c) = dev_Address d"
      using h by (simp_all add: same_host_def NewCollectorContext_def)
    with new have "\<forall>x \<in> set new. \<exists>ls. mt_labels x = [dev_Name d, dev_Address d] @ ls"
      by (simp add: of_device_def)
    with k cl r i ch sent w show ?thesis
      by (auto simp: run_collector_def works_def sends_own_def dinv_def set_dc_def on_peer_def)
  next
    assume b "fst (rc_Collect k ?c \<lparr>ms_world = cl, ms_ch = ds_ch s\<rparr>) = Blocked"
    with k cl show ?thesis by (auto simp: run_collector_def split: prod.split)
  qed
qed

text \<open>
  What every collector of a device keeps, also one that panics, one the registry does not know (it
  is nil), and whatever the metric library accepts.
\<close>

definition sound_rc :: "deviceCollectorRC \<Rightarrow> bool" where
  "sound_rc drc \<longleftrightarrow> (case rc_collector drc of None \<Rightarrow> True | Some k \<Rightarrow> safe_collector (Return k))"

lemma good_rc_sound: "good_rc drc \<Longrightarrow> sound_rc drc"
  by (auto simp: good_rc_def sound_rc_def device_collector_def)

lemma run_collector_own:
  assumes "sound_rc drc"
  shows "keeps (sends_own d ch) (run_collector decode accepts drc)"
proof (rule keepsI)
  fix s assume w: "sends_own d ch s"
  show "sends_own d ch (snd (run_collector decode accepts drc s))"
  proof (cases "rc_collector drc = None \<or> dc_cl (ds_dc s) = None")
    case True
    with w show ?thesis by (auto simp: run_collector_def split: option.split)
  next
    case False
    then obtain k cl where k: "rc_collector drc = Some k" "dc_cl (ds_dc s) = Some cl" by auto
    then have sk: "safe_collector (Return k)" using assms by (simp add: sound_rc_def)
    let ?c = "NewCollectorContext (dc_device (ds_dc s)) (Run decode) (rc_name drc) (rc_featureConf drc) accepts"
    obtain r ms where r: "rc_Collect k ?c \<lparr>ms_world = cl, ms_ch = ds_ch s\<rparr> = (r, ms)" by fastforce
    have "fresh_ctx ?c" by (simp add: NewCollectorContext_def fresh_ctx_def)
    from emitsD [OF safe_collector.sends [OF sk refl this] r] obtain new
      where "ms_ch ms = ds_ch s @ new" "\<forall>x \<in> set new. of_device ?c x" by auto
    moreover have "of_device ?c x \<longleftrightarrow> (\<exists>ls. mt_labels x = [dev_Name d, dev_Address d] @ ls)" for x
      using w by (simp add: sends_own_def same_host_def NewCollectorContext_def of_device_def)
    ultimately show ?thesis
      using k r w by (auto simp: run_collector_def sends_own_def set_dc_def)
  qed
qed

lemma run_collector_safe:
  assumes "sound_rc drc"
  shows "safe b (works b d ch g) (run_collector decode accepts drc)"
proof (rule safeI)
  fix s assume w: "works b d ch g s"
  then obtain cl where cl: "dc_cl (ds_dc s) = Some cl" "on_peer b cl" and own: "sends_own d ch s"
    by (auto simp: works_def)
  show "if fst (run_collector decode accepts drc s) = Blocked then b
    else works b d ch g (snd (run_collector decode accepts drc s))"
  proof (cases "rc_collector drc")
    case None
    with w show ?thesis by (simp add: run_collector_def)
  next
    case (Some k)
    then have sk: "safe_collector (Return k)" using assms by (simp add: sound_rc_def)
    let ?c = "NewCollectorContext (dc_device (ds_dc s)) (Run decode) (rc_name drc) (rc_featureConf drc) accepts"
    obtain r ms where r: "rc_Collect k ?c \<lparr>ms_world = cl, ms_ch = ds_ch s\<rparr> = (r, ms)" by fastforce
    have f: "fresh_ctx ?c" and ro: "ro_client (cx_Client ?c) (on_peer b) b"
      using live.ro_client_axioms by (simp_all add: NewCollectorContext_def fresh_ctx_def)
    have "if r = Blocked then b else on_peer b (ms_world ms)"
      using safe_collector.attempted [OF sk refl f ro _ r] cl(2) by simp
    moreover have "sends_own d ch (snd (run_collector decode accepts drc s))"
      using run_collector_own [OF assms] own by (simp add: keeps_def)
    ultimately show ?thesis
      using Some cl r w by (auto simp: run_collector_def works_def dinv_def set_dc_def on_peer_def)
  qed
qed

lemma keeps_gather_loop:
  assumes "\<And>drc. drc \<in> set drcs \<Longrightarrow> keeps P (run drc)" and "\<And>s. P s \<Longrightarrow> P (count_errors 1 s)"
  shows "keeps P (gather_loop run cancelled drcs k n res)"
  using assms(1)
proof (induction drcs arbitrary: k n res)
  case (Cons drc drcs)
  have "keeps P (run drc)" using Cons.prems by simp
  moreover have "keeps P (gather_loop run cancelled drcs k' n' res')" for k' n' res'
    by (rule Cons.IH) (simp add: Cons.prems)
  ultimately show ?case
    unfolding gather_loop.simps Let_def
    by (intro keeps_gbind keeps_case_option keeps_gseq keeps_gupdate keeps_if keeps_gret) (auto intro: assms(2))
qed (simp add: keeps_gret)

lemma gather_loop_safe:
  assumes "\<And>drc. drc \<in> set drcs \<Longrightarrow> safe b P (run drc)" and "\<And>s. P s \<Longrightarrow> P (count_errors 1 s)"
  shows "safe b P (gather_loop run cancelled drcs k n res)"
  using assms(1)
proof (induction drcs arbitrary: k n res)
  case (Cons drc drcs)
  have "safe b P (run drc)" using Cons.prems by simp
  moreover have "safe b P (gather_loop run cancelled drcs k' n' res')" for k' n' res'
    by (rule Cons.IH) (simp add: Cons.prems)
  ultimately show ?case
    unfolding gather_loop.simps Let_def
    by (intro safe_gbind safe_option safe_gseq safe_gupdate safe_if safe_gret) (auto intro: assms(2))
qed (simp add: safe_gret)

lemma gather_loop_ok:
  assumes "\<And>drc. drc \<in> set drcs \<Longrightarrow> ok b P (run drc) (\<lambda>_. P)" and "\<And>s. P s \<Longrightarrow> P (count_errors 1 s)"
  shows "ok b P (gather_loop run cancelled drcs k n res) (\<lambda>_. P)"
  using assms(1)
proof (induction drcs arbitrary: k n res)
  case (Cons drc drcs)
  have "ok b P (run drc) (\<lambda>_. P)" using Cons.prems by simp
  moreover have "ok b P (gather_loop run cancelled drcs k' n' res') (\<lambda>_. P)" for k' n' res'
    by (rule Cons.IH) (simp add: Cons.prems)
  ultimately show ?case
    unfolding gather_loop.simps Let_def
    by (intro ok_gbind [where R = "\<lambda>_. P"] ok_option ok_gseq [where R = "\<lambda>_. P"] ok_gupdate ok_if ok_gret)
       (auto intro: assms(2))
qed (simp add: ok_def)

definition reliable :: "(desc \<Rightarrow> string list \<Rightarrow> bool) \<Rightarrow> deviceCollectorRC list \<Rightarrow> bool" where
  \<comment> \<open>nothing panics: the collectors keep their contract and the metric library takes what they send\<close>
  "reliable accepts drcs \<longleftrightarrow> accepts_all accepts \<and> (\<forall>drc \<in> set drcs. good_rc drc)"

lemma gatherMetrics_outcome:
  assumes "works b d ch g s" and "\<forall>drc \<in> set (dc_collectors (ds_dc s)). sound_rc drc"
    and "gatherMetrics decode accepts cancelled s = (r, s')"
  shows "if r = Blocked then b
    else works b d ch g s' \<and> (reliable accepts (dc_collectors (ds_dc s)) \<longrightarrow> (\<exists>e. r = Return e))"
proof -
  let ?loop = "gather_loop (run_collector decode accepts) cancelled (dc_collectors (ds_dc s)) 0 0 None"
  have r: "?loop s = (r, s')" using assms(3) by (simp add: gatherMetrics_def)
  have l: "safe b (works b d ch g) ?loop" by (rule gather_loop_safe) (use assms(2) run_collector_safe in auto)
  moreover have "r = Blocked \<or> (\<exists>e. r = Return e)" if "reliable accepts (dc_collectors (ds_dc s))"
  proof -
    have "ok b (works b d ch g) ?loop (\<lambda>_. works b d ch g)"
      by (rule gather_loop_ok) (use that run_collector_ok in \<open>auto simp: reliable_def\<close>)
    from this assms(1) r show ?thesis by (cases rule: ok_cases) auto
  qed
  ultimately show ?thesis using safeD [where P = "works b d ch g", OF l assms(1) r] by auto
qed

lemma load_version_own: "keeps (sends_own d ch) (load_version decode)"
proof (rule keepsI)
  fix s assume w: "sends_own d ch s"
  show "sends_own d ch (snd (load_version decode s))"
  proof (cases "dc_cl (ds_dc s)")
    case None
    with w show ?thesis by (simp add: load_version_def on_cached_def)
  next
    case (Some cl)
    obtain r cl' d' where v: "getVersion decode (cl, dc_device (ds_dc s)) = (r, (cl', d'))" by (metis prod_cases3)
    from getVersion_host [OF v] w v Some show ?thesis
      by (auto simp: load_version_def on_cached_def set_dc_def sends_own_def same_host_def)
  qed
qed

lemma load_version_outcome:
  assumes "works b d ch g s" and "load_version decode s = (r, s')"
  shows "dc_collectors (ds_dc s') = dc_collectors (ds_dc s)"
    and "if r = Blocked then b else works b d ch g s' \<and> ((\<exists>err. r = Return err)
        \<or> r = Panicked IndexOutOfRange \<and> fv_Major (dev_FirmwareVersion (dc_device (ds_dc s))) = 0)"
proof -
  have own: "sends_own d ch s'" using keepsD [OF load_version_own _ assms(2)] assms(1) by (simp add: works_def)
  from assms(1) obtain cl where cl: "dc_cl (ds_dc s) = Some cl" "on_peer b cl" by (auto simp: works_def)
  obtain q c' d' where v: "getVersion decode (cl, dc_device (ds_dc s)) = (q, (c', d'))" by (metis prod_cases3)
  note t = getVersion_ends [OF cl(2), of decode "dc_device (ds_dc s)", unfolded v]
  note h = getVersion_host [OF v]
  show "dc_collectors (ds_dc s') = dc_collectors (ds_dc s)"
    using assms(2) cl v by (auto simp: load_version_def on_cached_def set_dc_def split: if_splits)
  show "if r = Blocked then b else works b d ch g s' \<and> ((\<exists>err. r = Return err)
        \<or> r = Panicked IndexOutOfRange \<and> fv_Major (dev_FirmwareVersion (dc_device (ds_dc s))) = 0)"
  proof (cases "fv_Major (dev_FirmwareVersion (dc_device (ds_dc s))) = 0")
    case False
    with assms show ?thesis by (auto simp: load_version_def)
  next
    case True
    with assms cl v have "r = q" and s': "s' = set_dc (\<lambda>dc. dc\<lparr>dc_cl := Some c', dc_device := d'\<rparr>) s"
      by (auto simp: load_version_def on_cached_def)
    with True t h own assms(1) show ?thesis
      by (auto simp: tried_def works_def dinv_def same_host_def set_dc_def on_peer_def)
  qed
qed


section \<open>Properties\<close>

lemma deferred_run:
  "m s = (r, s') \<Longrightarrow> r \<noteq> Blocked \<Longrightarrow> deferred f m s = (r, f s')"
  by (cases r) (auto simp: deferred_def)

lemma disconnect_effect:
  assumes "dinv s"
  shows "dinv (disconnect s)" "ds_ch (disconnect s) = ds_ch s" "dc_device (ds_dc (disconnect s)) = dc_device (ds_dc s)"
    "dc_isSrv (ds_dc (disconnect s)) = dc_isSrv (ds_dc s)"
    "dc_isSrv (ds_dc s) \<Longrightarrow> dc_cl (ds_dc (disconnect s)) = None"
    "all_closed s \<Longrightarrow> all_closed (disconnect s)"
  using assms close_cached_inv [of s]
  by (auto simp: disconnect_def same_task_def close_cached_def set_dc_def let_go_def split: option.split)

lemma collect_connected_own:
  assumes "sends_own d ch s" and "\<forall>drc \<in> set (dc_collectors (ds_dc s)). sound_rc drc"
    and "collect_connected decode accepts cancelled s = (r, s')"
  shows "sends_own d ch s'"
proof -
  let ?P = "sends_own d ch" and ?drcs = "dc_collectors (ds_dc s)"
  obtain q s1 where v: "load_version decode s = (q, s1)" by fastforce
  have 1: "?P s1" using keepsD [OF load_version_own assms(1) v] .
  have 2: "dc_collectors (ds_dc s1) = ?drcs"
    using v by (auto simp: load_version_def on_cached_def set_dc_def split: if_splits option.splits prod.splits)
  have "keeps ?P (gather_loop (run_collector decode accepts) cancelled ?drcs 0 0 None)"
    by (rule keeps_gather_loop) (use assms(2) run_collector_own in auto)
  with 1 2 have g: "?P (snd (gatherMetrics decode accepts cancelled s1))" by (simp add: gatherMetrics_def keeps_def)
  obtain q2 s2 where gm: "gatherMetrics decode accepts cancelled s1 = (q2, s2)" by fastforce
  have "s' \<in> {s1, count_all s1, s2}"
    using assms(3) v gm
    by (cases q; cases q2) (auto simp: collect_connected_def wrapped_def gbind_def gseq_def split: option.splits)
  with 1 g gm show ?thesis by auto
qed

lemma connected_part:
  assumes "works b d ch g s" and "\<forall>drc \<in> set (dc_collectors (ds_dc s)). sound_rc drc"
    and "collect_connected decode accepts cancelled s = (r, s')"
  shows "if r = Blocked then b else works b d ch g s'
     \<and> (reliable accepts (dc_collectors (ds_dc s)) \<longrightarrow> (\<exists>err. r = Return err)
        \<or> r = Panicked IndexOutOfRange \<and> fv_Major (dev_FirmwareVersion (dc_device (ds_dc s))) = 0)"
proof -
  obtain q s1 where v: "load_version decode s = (q, s1)" by fastforce
  note dcs = load_version_outcome(1) [OF assms(1) v] and o = load_version_outcome(2) [OF assms(1) v]
  show ?thesis
  proof (cases "q = Return None")
    case True
    obtain r2 s2 where gm: "gatherMetrics decode accepts cancelled s1 = (r2, s2)" by fastforce
    have "works b d ch g s1" using o True by simp
    from gatherMetrics_outcome [OF this _ gm] assms(2) dcs
    have "if r2 = Blocked then b else works b d ch g s2
      \<and> (reliable accepts (dc_collectors (ds_dc s)) \<longrightarrow> (\<exists>e. r2 = Return e))" by simp
    with True v gm assms(3) show ?thesis
      by (cases r2) (auto simp: collect_connected_def wrapped_def gbind_def)
  next
    case False
    with o v assms(3) show ?thesis
      by (cases q) (auto simp: collect_connected_def gbind_def gseq_def split: option.splits)
  qed
qed

text \<open>
  The end of \<open>collect\<close>.  It waits for ever only for a quiet device; otherwise the device collector is fit for
  the next time.  In any case what was sent has the labels of the device.
\<close>

definition collected_from :: "dstate \<Rightarrow> bool \<Rightarrow> bool \<Rightarrow> goerror option outcome \<Rightarrow> dstate \<Rightarrow> metric list \<Rightarrow> bool" where
  "collected_from s b rel r s' sent \<longleftrightarrow>
     ds_ch s' = ds_ch s @ sent
     \<and> (\<forall>x \<in> set sent. \<exists>ls. mt_labels x = [dev_Name (dc_device (ds_dc s')), dev_Address (dc_device (ds_dc s'))] @ ls)
     \<and> (if r = Blocked then b
        else dinv s'
          \<and> (dc_isSrv (ds_dc s) \<longrightarrow> dc_cl (ds_dc s') = None)
          \<and> (\<not> dc_isSrv (ds_dc s) \<longrightarrow> all_closed s \<longrightarrow> all_closed s')
          \<and> (rel \<longrightarrow> (\<exists>err. r = Return err)
              \<or> r = Panicked IndexOutOfRange \<and> fv_Major (dev_FirmwareVersion (dc_device (ds_dc s))) = 0))"

lemma collect_outcome:
  assumes "dinv s" and "\<forall>drc \<in> set (dc_collectors (ds_dc s)). sound_rc drc"
    and "collect decode dialer accepts cancelled s = (r, s')"
  shows "\<exists>sent. collected_from s (quiet dialer (ds_dc s)) (reliable accepts (dc_collectors (ds_dc s))) r s' sent"
proof -
  obtain q s1 where c: "connect decode dialer s = (q, s1)" by fastforce
  note e = connect_ends [OF assms(1), of dialer decode, unfolded c]
  note still = connect_still [OF c]
  show ?thesis
  proof (cases q)
    case (Panicked p)
    with e show ?thesis by (simp add: connected_from_def)
  next
    case Blocked
    with e c assms(3) still show ?thesis
      by (intro exI [of _ "[]"]) (auto simp: collect_def gbind_def connected_from_def collected_from_def)
  next
    case (Return res)
    with e have i: "dinv s1" and t: "same_task s s1" and conn: "res = Inr () \<longleftrightarrow> dc_cl (ds_dc s1) \<noteq> None"
      and cl: "dev_Srv (dc_device (ds_dc s)) = None \<longrightarrow> all_closed s \<longrightarrow> all_closed s1"
      and b: "case dc_cl (ds_dc s1) of None \<Rightarrow> True | Some cl \<Rightarrow> silent (cl_rwc cl) \<longrightarrow> quiet dialer (ds_dc s)"
      by (simp_all add: connected_from_def)
    have srv: "dc_isSrv (ds_dc s1) = dc_isSrv (ds_dc s)" and ch: "ds_ch s1 = ds_ch s"
      and dcs: "dc_collectors (ds_dc s1) = dc_collectors (ds_dc s)"
      and fv: "dev_FirmwareVersion (dc_device (ds_dc s1)) = dev_FirmwareVersion (dc_device (ds_dc s))"
      using t by (auto simp: same_task_def dest: device_eqD)
    show ?thesis
    proof (cases res)
      case (Inl err)
      let ?s2 = "count_all (forget_version s1)"
      have "r = Return (Some (Wrapf ''connect error: %w'' [] err))" "s' = ?s2"
        using c Inl Return assms(3) by (auto simp: collect_def gbind_def gseq_def)
      moreover have "dinv ?s2" "dc_cl (ds_dc ?s2) = None" "all_closed ?s2 = all_closed s1" "ds_ch ?s2 = ds_ch s"
        using i conn Inl ch by (auto simp: dinv_def all_closed_def count_all_def count_errors_def forget_version_def set_dc_def)
      ultimately show ?thesis using cl assms(1)
        by (intro exI [of _ "[]"]) (auto simp: dinv_def collected_from_def)
    next
      case (Inr u)
      let ?d = "dc_device (ds_dc s1)"
      obtain cl1 where cl1: "dc_cl (ds_dc s1) = Some cl1" using conn Inr by auto
      let ?b = "silent (cl_rwc cl1)"
      have w1: "works ?b ?d (ds_ch s) (ds_gone s1) s1"
        using i cl1 ch by (simp add: works_def sends_own_def dinv_def on_peer_def)
      obtain r2 s2 where m: "collect_connected decode accepts cancelled s1 = (r2, s2)" by fastforce
      have rcs: "\<forall>drc \<in> set (dc_collectors (ds_dc s1)). sound_rc drc" using assms(2) dcs by simp
      note p = connected_part [OF w1 rcs m]
      have "sends_own ?d (ds_ch s) s1" using w1 by (simp add: works_def)
      from collect_connected_own [OF this rcs m] obtain sent where own: "ds_ch s2 = ds_ch s @ sent"
        "\<forall>x \<in> set sent. \<exists>ls. mt_labels x = [dev_Name ?d, dev_Address ?d] @ ls" and h: "same_host ?d (dc_device (ds_dc s2))"
        by (auto simp: sends_own_def)
      have col: "deferred disconnect (collect_connected decode accepts cancelled) s1 = (r, s')"
        using c Inr Return assms(3) by (simp add: collect_def gbind_def)
      show ?thesis
      proof (cases "r2 = Blocked")
        case True
        then have "r = Blocked" "s' = s2" using col m by (simp_all add: deferred_def)
        moreover have "quiet dialer (ds_dc s)" using p True b cl1 by simp
        ultimately show ?thesis using own h
          by (intro exI [of _ sent]) (auto simp: collected_from_def same_host_def)
      next
        case False
        then have r: "r = r2" "s' = disconnect s2" using deferred_run [where m = "collect_connected decode accepts cancelled" and f = disconnect, OF m] col
          by simp_all
        have w: "works ?b ?d (ds_ch s) (ds_gone s1) s2" using p False by simp
        then have i2: "dinv s2" and g: "all_closed s1 \<longrightarrow> all_closed s2" by (auto simp: works_def all_closed_def)
        have srv2: "dc_isSrv (ds_dc s2) = dc_isSrv (ds_dc s)"
          using i2 h i srv by (simp add: dinv_def same_host_def)
        from p False r fv dcs own h disconnect_effect [OF i2] srv2 cl g assms(1) show ?thesis
          by (intro exI [of _ sent]) (auto simp: collected_from_def same_host_def dinv_def [of s])
      qed
    qed
  qed
qed


subsection \<open>The rule of five consecutive errors\<close>

fun run_all :: "(deviceCollectorRC \<Rightarrow> (dstate, goerror option) gom) \<Rightarrow> deviceCollectorRC list
    \<Rightarrow> (dstate, goerror option list) gom" where
  \<comment> \<open>collectors one after the other, with no rule to stop\<close>
  "run_all run [] = gret []"
| "run_all run (drc # drcs) =
     gbind (run drc) (\<lambda>e.
     gseq (if e = None then gret () else gupdate (count_errors 1))
     (gbind (run_all run drcs) (\<lambda>es. gret (e # es))))"

definition failed :: "goerror option list \<Rightarrow> bool list" where
  "failed es = map (\<lambda>e. e \<noteq> None) es"

definition five_fail :: "bool list \<Rightarrow> bool" where
  \<comment> \<open>the last five failed\<close>
  "five_fail bs \<longleftrightarrow> 5 \<le> length bs \<and> (\<forall>b \<in> set (drop (length bs - 5) bs). b)"

lemma five_fail_reset: "five_fail (as @ False # bs) \<longleftrightarrow> five_fail bs"
proof (cases "5 \<le> length bs")
  case True
  then have "length as + length bs - 4 = length as + (length bs - 4)" and "length bs - 4 = Suc (length bs - 5)" by simp_all
  with True show ?thesis by (simp add: five_fail_def)
next
  case False
  then have "length as + Suc (length bs) - 5 \<le> length as" by simp
  then have "False \<in> set (drop (length as + Suc (length bs) - 5) (as @ False # bs))" by simp
  with False show ?thesis unfolding five_fail_def by auto
qed

lemma five_fail_replicate [simp]: "five_fail (replicate n True) \<longleftrightarrow> 5 \<le> n"
  by (auto simp: five_fail_def)

lemma failed_simps [simp]:
  "failed [] = []" "failed (e # es) = (e \<noteq> None) # failed es" "length (failed es) = length es"
  "failed (take q es) = take q (failed es)"
  by (simp_all add: failed_def take_map)

definition stops :: "nat \<Rightarrow> (nat \<Rightarrow> bool) \<Rightarrow> nat \<Rightarrow> goerror option list \<Rightarrow> nat \<Rightarrow> bool" where
  \<comment> \<open>the loop stops after the \<open>q\<close>-th of these results, when \<open>n\<close> failures in a row came before\<close>
  "stops n cancelled k es q \<longleftrightarrow> 0 < q \<and> (five_fail (replicate n True @ take q (failed es)) \<or> cancelled (k + q - 1))"

lemma stops_Suc:
  "stops n cancelled k (None # es) (Suc q) \<longleftrightarrow>
     (if q = 0 then cancelled k else stops 0 cancelled (Suc k) es q)"
  "stops n cancelled k (Some e # es) (Suc q) \<longleftrightarrow>
     (if q = 0 then 5 \<le> Suc n \<or> cancelled k else stops (Suc n) cancelled (Suc k) es q)"
proof -
  show "stops n cancelled k (None # es) (Suc q) \<longleftrightarrow>
     (if q = 0 then cancelled k else stops 0 cancelled (Suc k) es q)"
    by (auto simp: stops_def five_fail_reset) (auto simp: five_fail_def)
  show "stops n cancelled k (Some e # es) (Suc q) \<longleftrightarrow>
     (if q = 0 then 5 \<le> Suc n \<or> cancelled k else stops (Suc n) cancelled (Suc k) es q)"
    using five_fail_replicate [of "Suc n"] by (cases q) (simp_all add: stops_def replicate_app_Cons_same)
qed

lemma all_less_Suc: "(\<forall>q < Suc p. P q) \<longleftrightarrow> P 0 \<and> (\<forall>q < p. P (Suc q))"
  by (metis less_Suc_eq_0_disj)

lemma stops_one: "stops n cancelled k [e] (Suc 0) \<longleftrightarrow> cancelled k \<or> e \<noteq> None \<and> 5 \<le> Suc n"
  by (cases e) (auto simp: stops_Suc)

lemma stops_0 [simp]: "\<not> stops n cancelled k es 0"
  by (simp add: stops_def)

definition loop_spec :: "(deviceCollectorRC \<Rightarrow> (dstate, goerror option) gom) \<Rightarrow> (nat \<Rightarrow> bool)
    \<Rightarrow> deviceCollectorRC list \<Rightarrow> nat \<Rightarrow> nat \<Rightarrow> goerror option \<Rightarrow> goerror option \<Rightarrow> dstate \<Rightarrow> dstate \<Rightarrow> nat
    \<Rightarrow> goerror option list \<Rightarrow> bool" where
  \<comment> \<open>what the loop has done: it ran the first \<open>p\<close> collectors, with the results \<open>es\<close>\<close>
  "loop_spec run cancelled drcs k n res0 res s s' p es \<longleftrightarrow>
     p \<le> length drcs \<and> run_all run (take p drcs) s = (Return es, s')
     \<and> (\<forall>q < p. \<not> stops n cancelled k es q) \<and> (p = length drcs \<or> stops n cancelled k es p)
     \<and> (res = None \<longleftrightarrow> res0 = None \<and> (\<forall>e \<in> set es. e = None))
     \<and> (five_fail (replicate n True @ failed es) \<longrightarrow> opt_is res ErrTooManyErrors)"

lemma five_fail_short: "length bs < 5 \<Longrightarrow> \<not> five_fail bs"
  by (simp add: five_fail_def)

lemma loop_spec_stop:
  assumes "run drc s = (Return e, s1)" and "stops n cancelled k [e] (Suc 0)"
    and "res = None \<longleftrightarrow> res0 = None \<and> e = None"
    and "five_fail (replicate n True @ [e \<noteq> None]) \<longrightarrow> opt_is res ErrTooManyErrors"
  shows "loop_spec run cancelled (drc # drcs) k n res0 res s (if e = None then s1 else count_errors 1 s1) 1 [e]"
  using assms by (cases e) (simp_all add: loop_spec_def gbind_def gseq_def)

lemma loop_spec_next:
  assumes "run drc s = (Return e, s1)" and "\<not> stops n cancelled k [e] (Suc 0)"
    and "loop_spec run cancelled drcs (Suc k) (if e = None then 0 else Suc n) res1 res
           (if e = None then s1 else count_errors 1 s1) s' p es"
    and "res1 = None \<longleftrightarrow> res0 = None \<and> e = None"
  shows "loop_spec run cancelled (drc # drcs) k n res0 res s s' (Suc p) (e # es)"
proof (cases e)
  case None
  with assms show ?thesis
    by (auto simp: loop_spec_def gbind_def gseq_def all_less_Suc stops_Suc five_fail_reset stops_one)
next
  case (Some err)
  with assms show ?thesis
    by (auto simp: loop_spec_def gbind_def gseq_def all_less_Suc stops_Suc replicate_app_Cons_same stops_one)
qed

lemma gather_loop_stops:
  assumes "gather_loop run cancelled drcs k (int n) res0 s = (Return res, s')" and "n < 5"
  shows "\<exists>p es. loop_spec run cancelled drcs k n res0 res s s' p es"
  using assms
proof (induction drcs arbitrary: k n res0 s)
  case Nil
  then show ?case
    by (intro exI [of _ 0] exI [of _ "[]"]) (simp add: loop_spec_def five_fail_short)
next
  case (Cons drc drcs)
  from Cons.prems(1) obtain e s1 where r: "run drc s = (Return e, s1)"
    unfolding gather_loop.simps by (rule gbind_ReturnE)
  let ?r = "case e of None \<Rightarrow> res0
     | Some err \<Rightarrow> errors_join [res0, Some (Wrapf ''collect %s error: %w'' [rc_name drc] err)]"
  let ?s = "if e = None then s1 else count_errors 1 s1" let ?n = "if e = None then 0 else Suc n"
  have res: "?r = None \<longleftrightarrow> res0 = None \<and> e = None" by (simp add: errors_join_None_iff split: option.split)
  show ?case
  proof (cases "stops n cancelled k [e] (Suc 0)")
    case True
    then have s': "s' = ?s" and r': "res = (if ?n = 5 then errors_join [?r, Some ErrTooManyErrors] else ?r)"
      using Cons.prems r by (auto simp: gbind_def gseq_def Let_def stops_one stopAfterErrors_def split: option.splits if_splits)
    have five: "five_fail (replicate n True @ [e \<noteq> None]) \<longrightarrow> ?n = 5"
      using Cons.prems(2) five_fail_replicate [of "Suc n"] by (auto simp: replicate_append_same five_fail_reset five_fail_short)
    have "res = None \<longleftrightarrow> res0 = None \<and> e = None"
      using r' res by (cases "?n = 5") (auto simp: errors_join_None_iff split: if_splits)
    moreover have "five_fail (replicate n True @ [e \<noteq> None]) \<longrightarrow> opt_is res ErrTooManyErrors"
      using five r' by (auto simp: opt_is_errors_join)
    ultimately show ?thesis
      using loop_spec_stop [of run drc s e s1 n cancelled k res res0 drcs] r True s' by blast
  next
    case False
    then have "gather_loop run cancelled drcs (Suc k) (int ?n) ?r ?s = (Return res, s')" and "?n < 5"
      using Cons.prems r by (auto simp: gbind_def gseq_def Let_def stops_one stopAfterErrors_def add.commute split: option.splits)
    from Cons.IH [OF this] obtain p es where "loop_spec run cancelled drcs (Suc k) ?n ?r res ?s s' p es" by blast
    with loop_spec_next [of run drc s e s1 n cancelled k drcs ?r res s' p es res0] r False res show ?thesis by blast
  qed
qed


text \<open>Collectors do not touch the counter of errors.\<close>

lemma run_collector_errors:
  "run_collector decode accepts drc s = (r, s') \<Longrightarrow> dc_errors (ds_dc s') = dc_errors (ds_dc s)"
  by (auto simp: run_collector_def Let_def set_dc_def split: option.splits prod.splits)

lemma run_all_counts:
  "run_all (run_collector decode accepts) drcs s = (Return es, s') \<Longrightarrow>
     length es = length drcs
     \<and> dc_errors (ds_dc s') = dc_errors (ds_dc s) + of_nat (length (filter (\<lambda>e. e \<noteq> None) es))"
proof (induction drcs arbitrary: s es)
  case (Cons drc drcs)
  from Cons.prems obtain e s1 where r: "run_collector decode accepts drc s = (Return e, s1)"
    and k: "gseq (if e = None then gret () else gupdate (count_errors 1))
         (gbind (run_all (run_collector decode accepts) drcs) (\<lambda>es. gret (e # es))) s1 = (Return es, s')"
    unfolding run_all.simps by (rule gbind_ReturnE)
  let ?s2 = "if e = None then s1 else count_errors 1 s1"
  have "gbind (run_all (run_collector decode accepts) drcs) (\<lambda>es. gret (e # es)) ?s2 = (Return es, s')"
    using k by (cases e) (simp_all add: gseq_def)
  then obtain es' where r2: "run_all (run_collector decode accepts) drcs ?s2 = (Return es', s')" and es: "es = e # es'"
    by (rule gbind_ReturnE) simp
  with Cons.IH [OF r2] run_collector_errors [OF r] show ?case
    by (auto simp: count_errors_def set_dc_def)
qed simp

text \<open>
  Property C7: when the collectors of a device are given up.  The collectors run in order; the
  loop ends after the last one, or at the first that completes five failures in a row, or at the
  first after which the context is done.  The result is nil exactly when none of those that ran
  failed, it is \<^verbatim>\<open>too many errors\<close> when the last five failed, and the counter of errors has grown
  by the number of failures.
\<close>

theorem gatherMetrics_stops:
  assumes "gatherMetrics decode accepts cancelled s = (Return res, s')"
  shows "\<exists>p es. p \<le> length (dc_collectors (ds_dc s))
     \<and> run_all (run_collector decode accepts) (take p (dc_collectors (ds_dc s))) s = (Return es, s')
     \<and> (\<forall>q < p. 0 < q \<longrightarrow> \<not> five_fail (take q (failed es)) \<and> \<not> cancelled (q - 1))
     \<and> (p = length (dc_collectors (ds_dc s)) \<or> 0 < p \<and> (five_fail (failed es) \<or> cancelled (p - 1)))
     \<and> (res = None \<longleftrightarrow> (\<forall>e \<in> set es. e = None))
     \<and> (five_fail (failed es) \<longrightarrow> opt_is res ErrTooManyErrors)
     \<and> dc_errors (ds_dc s') = dc_errors (ds_dc s) + of_nat (length (filter (\<lambda>e. e \<noteq> None) es))"
proof -
  let ?drcs = "dc_collectors (ds_dc s)" let ?run = "run_collector decode accepts"
  have "gather_loop ?run cancelled ?drcs 0 (int 0) None s = (Return res, s')"
    using assms by (simp add: gatherMetrics_def)
  from gather_loop_stops [OF this] obtain p es where l: "loop_spec ?run cancelled ?drcs 0 0 None res s s' p es"
    by auto
  then have "length es = p"
    and "dc_errors (ds_dc s') = dc_errors (ds_dc s) + of_nat (length (filter (\<lambda>e. e \<noteq> None) es))"
    using run_all_counts [of decode accepts "take p ?drcs" s es s'] by (simp_all add: loop_spec_def)
  with l show ?thesis
    by (intro exI [of _ p] exI [of _ es]) (auto simp: loop_spec_def stops_def)
qed

definition failing_rc :: deviceCollectorRC where
  "failing_rc = \<lparr>rc_collector = Some \<lparr>rc_Describe = [], rc_Collect = (\<lambda>c. gret (Some (NotSupportedError ''x'')))\<rparr>,
     rc_name = ''x'', rc_featureConf = None\<rparr>"

definition failing_state :: dstate where
  "failing_state = \<lparr>ds_dc = (newDeviceCollector zero_device (replicate 6 failing_rc))
       \<lparr>dc_cl := Some (NewClient (test_conn []))\<rparr>, ds_ch = [], ds_gone = []\<rparr>"

theorem gatherMetrics_stops_witness:
  "\<exists>res s' p es. gatherMetrics ascii_only (\<lambda>_ _. True) (\<lambda>_. False) failing_state = (Return res, s')
     \<and> p \<le> (6 :: nat) \<and> (p = 6 \<or> five_fail (failed es))
     \<and> dc_errors (ds_dc s') = dc_errors (ds_dc failing_state) + of_nat (length (filter (\<lambda>e. e \<noteq> None) es))"
proof -
  have n: "length (dc_collectors (ds_dc failing_state)) = 6"
    by (simp add: failing_state_def newDeviceCollector_def Let_def)
  have "\<exists>res s'. gatherMetrics ascii_only (\<lambda>_ _. True) (\<lambda>_. False) failing_state = (Return res, s')"
    by (simp add: gatherMetrics_def failing_state_def newDeviceCollector_def Let_def eval_nat_numeral
        run_collector_def failing_rc_def gbind_def gseq_def stopAfterErrors_def count_errors_def set_dc_def)
  then obtain res s' where r: "gatherMetrics ascii_only (\<lambda>_ _. True) (\<lambda>_. False) failing_state = (Return res, s')"
    by blast
  from gatherMetrics_stops [OF r, unfolded n] r show ?thesis by blast
qed

text \<open>
  The defaults of a device.  A new device collector has a port, a connection timeout
  and a collection timeout, keeps the ones that are configured, and applying the defaults again
  changes nothing.
\<close>

lemma newDeviceCollector_defaults:
  "(let d' = dc_device (newDeviceCollector d cs)
    in dev_Port d' = (if dev_Port d \<noteq> '''' then dev_Port d else if dev_TLS d then ''8729'' else ''8728'')
     \<and> dev_Timeout d' = (if dev_Timeout d \<noteq> 0 then dev_Timeout d else 5)
     \<and> dev_CollectTimeout d' = (if dev_CollectTimeout d \<noteq> 0 then dev_CollectTimeout d else 10 * dev_Timeout d')
     \<and> dev_CollectTimeout d' \<noteq> 0 \<and> newDeviceCollector d' cs = newDeviceCollector d cs)"
  by (auto simp: newDeviceCollector_def Let_def APIPort_def APIPortTLS_def DefaultTimeout_def)

text \<open>Versions in the form \<^verbatim>\<open>7.19\<close> and \<^verbatim>\<open>7.19.2\<close>.\<close>

definition version_text :: "int \<Rightarrow> int \<Rightarrow> int option \<Rightarrow> string" where
  "version_text a b pc = Itoa a @ ''.'' @ Itoa b @ (case pc of None \<Rightarrow> '''' | Some c \<Rightarrow> ''.'' @ Itoa c)"

lemma Itoa_chars: "0 \<le> n \<Longrightarrow> \<not> is_digit c \<Longrightarrow> c \<notin> set (Itoa n)"
  using show_digits_all [of n] by (auto simp: Itoa_def all_digits_def)

lemma not_digits [simp]: "\<not> is_digit CHR ''.''" "\<not> is_digit CHR '' ''"
  by (simp_all add: is_digit_def char_code_def)

lemma cut_at_blank:
  assumes "CHR '' '' \<notin> set v" and "suffix = '''' \<or> hd suffix = CHR '' ''"
  shows "(case cut (v @ suffix) '' '' of Some (a, _) \<Rightarrow> a | None \<Rightarrow> v @ suffix) = v"
proof (cases suffix)
  case Nil
  with assms show ?thesis by (simp add: cut_char_None_iff [THEN iffD2])
next
  case (Cons c cs)
  with assms show ?thesis by (simp add: cut_char_append)
qed

lemma Atoi_small: "0 \<le> n \<Longrightarrow> n < 2 ^ 63 \<Longrightarrow> Atoi (Itoa n) = Inr n"
  by (rule Atoi_Itoa) (simp_all add: MaxInt64_def)

text \<open>
  Property C37: the version of a release is read back.  A version printed as major, minor and
  optional patch number, whatever follows a blank, gives these numbers (a missing patch is 0) and
  the architecture the device reports.
\<close>

theorem parseFirmwareVersion_release:
  assumes "0 \<le> a" "a < 2 ^ 63" "0 \<le> b" "b < 2 ^ 63" "\<forall>c. pc = Some c \<longrightarrow> 0 \<le> c \<and> c < 2 ^ 63"
    and "mlookup (sen_map re) ''version'' = version_text a b pc @ suffix"
    and "suffix = '''' \<or> hd suffix = CHR '' ''"
  shows "parseFirmwareVersion re = Inr \<lparr>fv_Major = a, fv_Minor = b,
     fv_Patch = (case pc of None \<Rightarrow> 0 | Some c \<Rightarrow> c), fv_Architecture = mlookup (sen_map re) ''architecture-name''\<rparr>"
proof -
  have b: "CHR '' '' \<notin> set (version_text a b pc)"
    using assms(1-5) by (auto simp: version_text_def Itoa_chars split: option.split)
  have d: "CHR ''.'' \<notin> set (Itoa a)" "CHR ''.'' \<notin> set (Itoa b)" using assms(1-5) by (simp_all add: Itoa_chars)
  have parts: "split_on (version_text a b pc) ''.'' = Itoa a # Itoa b # (case pc of None \<Rightarrow> [] | Some c \<Rightarrow> [Itoa c])"
    using d assms(5) by (auto simp: version_text_def split_on_append split_on_none Itoa_chars split: option.split)
  have ne: "version_text a b pc \<noteq> ''''" by (simp add: version_text_def)
  show ?thesis
    unfolding parseFirmwareVersion_def assms(6) cut_at_blank [OF b assms(7)] parts Let_def
    using assms(1-5) ne by (auto simp: Atoi_small split: option.split)
qed

theorem parseFirmwareVersion_release_witness:
  "parseFirmwareVersion (NewSentence\<lparr>sen_map := [(''version'', ''7.19.2 (stable)''), (''architecture-name'', ''arm64'')]\<rparr>)
     = Inr \<lparr>fv_Major = 7, fv_Minor = 19, fv_Patch = 2, fv_Architecture = ''arm64''\<rparr>"
proof -
  let ?re = "NewSentence\<lparr>sen_map := [(''version'', ''7.19.2 (stable)''), (''architecture-name'', ''arm64'')]\<rparr>"
  have "mlookup (sen_map ?re) ''version'' = version_text 7 19 (Some 2) @ '' (stable)''" by code_simp
  from parseFirmwareVersion_release [OF _ _ _ _ _ this] show ?thesis by (simp add: mlookup_def mget_def)
qed

lemma ParseInt_not_digits:
  assumes "is_digit (hd ds)" and "\<not> all_digits ds"
  shows "\<exists>e. Atoi ds = Inl e"
proof -
  obtain c cs where ds: "ds = c # cs" and "is_digit c"
    using assms by (cases ds) simp_all
  then have "split_sign ds = (False, ds)" by (auto simp: split_sign_def dest: digit_not_sign)
  moreover have "\<exists>e. parse_uint ds ds 0 = Inl e"
    using parse_uint_Inr [of ds ds 0] assms(2) by (cases "parse_uint ds ds 0") auto
  ultimately show ?thesis using ds by (auto simp: Atoi_def ParseInt_def)
qed

text \<open>
  The version of a test build is refused.  A version whose minor number is followed
  by anything else, such as \<^verbatim>\<open>7.20rc1\<close> or \<^verbatim>\<open>7.20beta3\<close>, is an error, so nothing is collected from
  a device that runs one.
\<close>

lemma parseFirmwareVersion_prerelease:
  assumes "0 \<le> a" "a < 2 ^ 63" "0 \<le> b"
    and "mlookup (sen_map re) ''version'' = Itoa a @ ''.'' @ Itoa b @ w @ suffix"
    and "CHR ''.'' \<notin> set w" "CHR '' '' \<notin> set w" "\<not> all_digits w"
    and "suffix = '''' \<or> hd suffix = CHR '' ''"
  shows "\<exists>err. parseFirmwareVersion re = Inl (Wrapf ''parse error: %w'' [] err)"
proof -
  let ?v = "Itoa a @ ''.'' @ Itoa b @ w"
  have b: "CHR '' '' \<notin> set ?v" using assms by (simp add: Itoa_chars)
  have parts: "split_on ?v ''.'' = [Itoa a, Itoa b @ w]"
    using assms by (simp add: split_on_append split_on_none Itoa_chars)
  have v: "mlookup (sen_map re) ''version'' = ?v @ suffix" using assms(4) by simp
  have "is_digit (hd (Itoa b))" using show_digits_props [OF assms(3)] assms(3)
    by (cases "show_digits b") (simp_all add: Itoa_def)
  then have "is_digit (hd (Itoa b @ w))" using assms(3) by (simp add: Itoa_def hd_append)
  moreover have "\<not> all_digits (Itoa b @ w)" using assms(7) by simp
  ultimately obtain e where "Atoi (Itoa b @ w) = Inl e" using ParseInt_not_digits by blast
  then show ?thesis
    unfolding parseFirmwareVersion_def v cut_at_blank [OF b assms(8)] parts Let_def
    using assms(1,2) by (simp add: Atoi_small)
qed

text \<open>
  Property C31: a connection that leaks.  For a device from an SRV record, when the login succeeds
  and the question for its identity fails or is answered with nothing or an empty name,
  \<open>connect\<close> reports the error and lets go of the new connection without closing it.
\<close>

theorem connect_leaks:
  assumes "dc_cl (ds_dc s) = None" and "dev_Srv (dc_device (ds_dc s)) \<noteq> None"
    and "dial dialer (dc_device (ds_dc s)) = Inr con"
    and "Login decode (dev_User (dc_device (ds_dc s))) (dev_Password (dc_device (ds_dc s))) (NewClient con)
           = (Return None, cl)"
    and "updateIdentity decode (cl, dc_device (ds_dc s)) = (Return (Some err), cl', d')"
  shows "\<exists>s'. connect decode dialer s = (Return (Inl (Wrapf ''get identity error: %w'' [] err)), s')
     \<and> dc_cl (ds_dc s') = None \<and> ds_gone s' = ds_gone s @ [cl'] \<and> \<not> cl_closing cl'"
proof -
  have "on_peer (silent con) (NewClient con)" by simp
  from Login_on_peer [OF this, of decode "dev_User (dc_device (ds_dc s))" "dev_Password (dc_device (ds_dc s))"] assms(4)
  have "on_peer (silent con) cl" by auto
  from updateIdentity_ends [OF this, of decode "dc_device (ds_dc s)"] assms(5) have "healthy cl'" by (auto simp: on_peer_def)
  with assms show ?thesis
    by (simp add: connect_def reconnect_def identify_def set_dc_def let_go_def healthy_def Let_def)
qed


definition srv_state :: dstate where
  "srv_state = \<lparr>ds_dc = newDeviceCollector (zero_device\<lparr>dev_Srv := Some \<lparr>srv_DNS = None, srv_Record = ''r''\<rparr>,
       dev_User := ''u'', dev_Password := ''p'', dev_Address := ''10.0.0.1''\<rparr>) [], ds_ch = [], ds_gone = []\<rparr>"

theorem connect_leaks_witness:
  "\<exists>s' cl. connect ascii_only (\<lambda>_ _ _ _. Inr (test_conn (encodeSentences [[''!done'']] @ encodeSentences [[''!done'']])))
       srv_state = (Return (Inl (Wrapf ''get identity error: %w'' [] ErrInvalidResponse)), s')
     \<and> ds_gone s' = [cl] \<and> \<not> cl_closing cl"
proof -
  let ?con = "test_conn (encodeSentences [[''!done'']] @ encodeSentences [[''!done'']] @ [])"
  let ?d = "dc_device (ds_dc srv_state)"
  have g: "good_reply [[''!done'']]" and v: "reply_val [[''!done'']]
      = \<lparr>rep_done = Some (NewSentence\<lparr>sen_word := ''!done''\<rparr>), rep_re = []\<rparr>"
    by (simp_all add: good_reply_def good_sentence_def char_code_def sentence_val_def NewSentence_def
        add_word_def has_prefix_def reply_val_def)
  have r: "ready (NewClient ?con)"
    by (simp add: ready_def idle_def stuck_writer_def NewClient_def NewWriter_def writable_def test_conn_def)
  have d: "dc_cl (ds_dc srv_state) = None" "dev_Srv ?d \<noteq> None" "dev_User ?d = ''u''" "dev_Password ?d = ''p''"
    "ds_gone srv_state = []"
    by (simp_all add: srv_state_def newDeviceCollector_def zero_device_def DefaultTimeout_def APIPort_def Let_def)
  have i: "rs_in (cn_rx (cl_rwc (NewClient ?con))) = encodeSentences [[''!done'']] @ encodeSentences [[''!done'']] @ []"
    by (simp only: NewClient_def test_conn_def client.simps conn.simps rstream.simps)
  from Run_reply_ok [OF r ascii_only g i] obtain c1
    where 1: "Run ascii_only [''/login'', ''=name='' @ ''u'', ''=password='' @ ''p''] (NewClient ?con)
        = (Return (Inr (reply_val [[''!done'']])), c1)" "ready c1"
      "rs_in (cn_rx (cl_rwc c1)) = encodeSentences [[''!done'']] @ []" by metis
  from Run_reply_ok [OF 1(2) ascii_only g 1(3)] obtain c2
    where 2: "Run ascii_only [''/system/identity/print''] c1 = (Return (Inr (reply_val [[''!done'']])), c2)" by metis
  have l: "Login ascii_only (dev_User ?d) (dev_Password ?d) (NewClient ?con) = (Return None, c1)"
    unfolding d Login_def using 1(1) by (simp add: gbind_def v NewSentence_def)
  have u: "updateIdentity ascii_only (c1, ?d) = (Return (Some ErrInvalidResponse), (c2, ?d))"
    using 2 by (simp add: updateIdentity_def gbind_def on_client_def v)
  have dl: "dial (\<lambda>_ _ _ _. Inr ?con) ?d = Inr ?con" by (simp add: dial_def)
  from connect_leaks [OF d(1,2) dl l u] d(5) show ?thesis by auto
qed


text \<open>
  Property C30: a connection is used again.  When the cached connection answers the question for the
  identity with data, \<open>connect\<close> keeps it: exactly this command was sent, the answer is consumed, and
  nobody dials.  When the answer is an error, the connection is closed, and \<open>connect\<close> does what it
  does without a cached connection.
\<close>

theorem connect_reuses:
  assumes "dc_cl (ds_dc s) = Some cl" and "ready cl" and "ascii_decoder decode"
  shows "(\<forall>wss rest. good_reply wss \<longrightarrow> 2 \<le> length wss \<longrightarrow> rs_in (cn_rx (cl_rwc cl)) = encodeSentences wss @ rest \<longrightarrow>
       (\<exists>cl'. connect decode dialer s = (Return (Inr ()), s\<lparr>ds_dc := (ds_dc s)\<lparr>dc_cl := Some cl'\<rparr>\<rparr>) \<and> ready cl'
          \<and> cn_tx (cl_rwc cl') = cn_tx (cl_rwc cl) @ encodeSentence [''/system/identity/print'']
          \<and> rs_in (cn_rx (cl_rwc cl')) = rest))
     \<and> (\<forall>err cl'. Run decode [''/system/identity/print''] cl = (Return (Inl err), cl') \<longrightarrow>
          connect decode dialer s = connect decode dialer
            (s\<lparr>ds_dc := (ds_dc s)\<lparr>dc_cl := None\<rparr>, ds_gone := ds_gone s @ [Close cl']\<rparr>))"
proof (intro conjI allI impI)
  fix wss rest
  assume g: "good_reply wss" "2 \<le> length wss" and i: "rs_in (cn_rx (cl_rwc cl)) = encodeSentences wss @ rest"
  obtain cl' where r: "Run decode [''/system/identity/print''] cl = (Return (Inr (reply_val wss)), cl')"
    and c: "ready cl'" "cn_tx (cl_rwc cl') = cn_tx (cl_rwc cl) @ encodeSentence [''/system/identity/print'']"
      "rs_in (cn_rx (cl_rwc cl')) = rest"
    using Run_reply_ok [OF assms(2,3) g(1) i] by blast
  have "butlast wss \<noteq> []" using g(2) by (cases wss) auto
  then have "is_alive (Inr (reply_val wss))" by (simp add: is_alive_def reply_val_def)
  with assms(1) r c show "\<exists>cl'. connect decode dialer s = (Return (Inr ()), s\<lparr>ds_dc := (ds_dc s)\<lparr>dc_cl := Some cl'\<rparr>\<rparr>)
      \<and> ready cl' \<and> cn_tx (cl_rwc cl') = cn_tx (cl_rwc cl) @ encodeSentence [''/system/identity/print'']
      \<and> rs_in (cn_rx (cl_rwc cl')) = rest"
    by (intro exI [of _ cl']) (simp add: connect_def gbind_def on_cached_def on_client_def set_dc_def)
next
  fix err cl' assume "Run decode [''/system/identity/print''] cl = (Return (Inl err), cl')"
  then show "connect decode dialer s = connect decode dialer
            (s\<lparr>ds_dc := (ds_dc s)\<lparr>dc_cl := None\<rparr>, ds_gone := ds_gone s @ [Close cl']\<rparr>)"
    using assms(1)
    by (simp add: connect_def gbind_def gseq_def on_cached_def on_client_def set_dc_def is_alive_def close_cached_def let_go_def)
qed

definition reuse_reply :: "string list list" where
  "reuse_reply = [[''!re'', ''=name=r1''], [''!done'']]"

definition reuse_state :: dstate where
  "reuse_state = \<lparr>ds_dc = (newDeviceCollector zero_device [])\<lparr>dc_cl := Some (NewClient (test_conn (encodeSentences reuse_reply)))\<rparr>,
     ds_ch = [], ds_gone = []\<rparr>"

theorem connect_reuses_witness:
  "\<exists>s'. connect ascii_only (\<lambda>_ _ _ _. Inl EOF) reuse_state = (Return (Inr ()), s') \<and> ds_gone s' = []"
proof -
  let ?cl = "NewClient (test_conn (encodeSentences reuse_reply))"
  have 1: "dc_cl (ds_dc reuse_state) = Some ?cl" by (simp add: reuse_state_def)
  have 2: "ready ?cl"
    by (simp add: ready_def idle_def stuck_writer_def NewClient_def NewWriter_def writable_def test_conn_def)
  have g: "good_reply reuse_reply" using good_reply_example by (simp add: reuse_reply_def)
  have i: "rs_in (cn_rx (cl_rwc ?cl)) = encodeSentences reuse_reply @ []" by (simp add: NewClient_def test_conn_def)
  have l: "2 \<le> length reuse_reply" by (simp add: reuse_reply_def)
  obtain cl' where "connect ascii_only (\<lambda>_ _ _ _. Inl EOF) reuse_state
      = (Return (Inr ()), reuse_state\<lparr>ds_dc := (ds_dc reuse_state)\<lparr>dc_cl := Some cl'\<rparr>\<rparr>)"
    using connect_reuses [OF 1 2 ascii_only, of "\<lambda>_ _ _ _. Inl EOF"] g l i by blast
  then show ?thesis by (simp add: reuse_state_def)
qed

end
