(* ===== verification/Exporter.thy ===== *)
theory Exporter
  imports Registry Device "HOL-Library.Sublist"
begin

text \<open>
  Package \<^verbatim>\<open>internal/collector\<close>, \<^verbatim>\<open>mikrotik_collector.go\<close> and \<^verbatim>\<open>mod.go\<close>: the collector of the
  exporter.  It builds one device collector for every configured device and, on every scrape,
  collects from all devices at the same time.  What the network answers is a parameter: \<open>clientConfig\<close> is what
  \<^verbatim>\<open>dns.ClientConfigFromFile\<close> gives (\<open>None\<close> for a nil configuration, else its servers), \<open>exchange\<close>
  what a DNS server answers to the SRV question for a record (\<open>None\<close> for an answer of another
  type); dialing, the metric library and the context of a device are those of \<open>Device\<close>.
\<close>

section \<open>Resolving SRV records\<close>

definition DNSPort :: int where "DNSPort = 53"

definition JoinHostPort :: "string \<Rightarrow> string \<Rightarrow> string" where
  \<comment> \<open>\<^verbatim>\<open>net.JoinHostPort\<close>\<close>
  "JoinHostPort host port =
     (if CHR '':'' \<in> set host then ''['' @ host @ '']:'' @ port else host @ '':'' @ port)"

definition trim_right_dots :: "string \<Rightarrow> string" where
  \<comment> \<open>\<^verbatim>\<open>strings.TrimRight(s, ".")\<close>\<close>
  "trim_right_dots s = rev (dropWhile (\<lambda>c. c = CHR ''.'') (rev s))"

definition srv_targets :: "string option list \<Rightarrow> string list" where
  "srv_targets answers = map trim_right_dots (somes answers)"

definition resolveServices :: "goerror + string list option \<Rightarrow> (string \<Rightarrow> string \<Rightarrow> goerror + string option list)
    \<Rightarrow> DNSServer option \<Rightarrow> string \<Rightarrow> goerror + string list" where
  "resolveServices clientConfig exchange srvDNS record =
     (case (case srvDNS of
              None \<Rightarrow> (case clientConfig of
                 Inl err \<Rightarrow> Inl (Wrapf ''load resolv.conf file error: %w'' [] err)
               | Inr conf \<Rightarrow>
                   (case conf of
                      Some (server # _) \<Rightarrow> Inr (JoinHostPort server (Itoa DNSPort))
                    | _ \<Rightarrow> Inl ErrNoServersDefined))
            | Some dns \<Rightarrow> Inr (JoinHostPort (dns_Address dns) (Itoa (dns_Port dns)))) of
        Inl err \<Rightarrow> Inl err
      | Inr dnsServer \<Rightarrow>
          (case exchange dnsServer record of
             Inl err \<Rightarrow> Inl (Wrapf ''dns query for %s error: %w'' [record] err)
           | Inr answers \<Rightarrow> Inr (srv_targets answers)))"


section \<open>Building the collectors\<close>

type_synonym collectorInstances = "client RouterOSCollector gomap"

fun create_loop :: "client RegisteredCollector gomap \<Rightarrow> string list \<Rightarrow> collectorInstances
    \<Rightarrow> collectorInstances outcome" where
  "create_loop reg [] colls = Return colls"
| "create_loop reg (k # ks) colls =
     obind (InstanateCollector reg k) (\<lambda>col.
     create_loop reg ks (case col of Some c \<Rightarrow> mput k c colls | None \<Rightarrow> colls))"

definition createCollectors :: "client RegisteredCollector gomap \<Rightarrow> Config \<Rightarrow> collectorInstances outcome" where
  "createCollectors reg cfg =
     obind (AllEnabledFeatures cfg) (\<lambda>ks. create_loop reg ks [])"

definition get :: "collectorInstances \<Rightarrow> string list \<Rightarrow> Features \<Rightarrow> deviceCollectorRC list" where
  "get ci names features =
     map (\<lambda>n. \<lparr>rc_collector = mget ci n, rc_name = n, rc_featureConf = ConfigFor features n\<rparr>) names"

definition instances :: "collectorInstances \<Rightarrow> client RouterOSCollector list" where
  "instances ci = map snd ci"

record mikrotikCollector =
  mk_devices :: "deviceCollector list"
  mk_collectors :: "client RouterOSCollector list"

fun new_devices :: "Config \<Rightarrow> collectorInstances \<Rightarrow> Device list \<Rightarrow> deviceCollector list outcome" where
  "new_devices cfg ci [] = Return []"
| "new_devices cfg ci (dev # devs) =
     obind (DeviceFeatures cfg (dev_Name dev)) (\<lambda>feat.
     (let featNames = FeatureNames feat;
          dcols = get ci featNames feat
      in obind (new_devices cfg ci devs) (\<lambda>dcs. Return (newDeviceCollector dev dcols # dcs))))"

definition NewCollector :: "client RegisteredCollector gomap \<Rightarrow> Config \<Rightarrow> mikrotikCollector outcome" where
  "NewCollector reg cfg =
     obind (createCollectors reg cfg) (\<lambda>collectorInstances.
     obind (new_devices cfg collectorInstances (cfg_Devices cfg)) (\<lambda>dcs.
     Return \<lparr>mk_devices = dcs, mk_collectors = instances collectorInstances\<rparr>))"


section \<open>The metrics of a scrape\<close>

definition scrapeDeviceDurationDesc :: desc where
  "scrapeDeviceDurationDesc = \<lparr>dc_subsystem = ''scrape'', dc_name = ''device_duration_seconds'',
     dc_help = ''mikrotik_exporter: duration of a device collector scrape'', dc_labels = [''dev_name'', ''dev_address'']\<rparr>"

definition scrapeDeviceSuccessDesc :: desc where
  "scrapeDeviceSuccessDesc = \<lparr>dc_subsystem = ''scrape'', dc_name = ''device_success'',
     dc_help = ''mikrotik_exporter: whether a device collector succeeded'', dc_labels = [''dev_name'', ''dev_address'']\<rparr>"

definition scrapeCollectorErrorsDesc :: desc where
  "scrapeCollectorErrorsDesc = \<lparr>dc_subsystem = ''scrape'', dc_name = ''device_errors_total'',
     dc_help = ''mikrotik_exporter: number of failed collection per device'', dc_labels = [''dev_name'', ''dev_address'']\<rparr>"

definition mikrotik_Describe :: "mikrotikCollector \<Rightarrow> desc list" where
  "mikrotik_Describe c =
     [scrapeDeviceDurationDesc, scrapeDeviceSuccessDesc, scrapeCollectorErrorsDesc]
     @ concat (map rc_Describe (mk_collectors c))"

definition send :: "(desc \<Rightarrow> string list \<Rightarrow> bool) \<Rightarrow> desc \<Rightarrow> ValueType \<Rightarrow> f64 \<Rightarrow> string list \<Rightarrow> (dstate, unit) gom" where
  \<comment> \<open>\<^verbatim>\<open>ch <- prometheus.MustNewConstMetric(desc, valueType, value, labels...)\<close>\<close>
  "send accepts d t v labels =
     (if accepts d labels
      then gupdate (\<lambda>s. s\<lparr>ds_ch := ds_ch s @ [\<lparr>mt_desc = d, mt_type = t, mt_value = v, mt_labels = labels\<rparr>]\<rparr>)
      else gpanic BadMetric)"

definition recovered :: "('s, unit) gom \<Rightarrow> ('s, unit) gom" where
  \<comment> \<open>\<^verbatim>\<open>defer func() { if r := recover(); r != nil { ... } }()\<close>\<close>
  "recovered m = (\<lambda>s. case m s of (Panicked p, s') \<Rightarrow> (Return (), s') | r \<Rightarrow> r)"

definition report :: "(desc \<Rightarrow> string list \<Rightarrow> bool) \<Rightarrow> f64 \<Rightarrow> string \<Rightarrow> string \<Rightarrow> goerror option
    \<Rightarrow> (dstate, unit) gom" where
  \<comment> \<open>the three metrics after \<open>collect\<close> has returned; the number of errors has the labels the device
     has by then\<close>
  "report accepts duration name address err =
     gseq (send accepts scrapeDeviceSuccessDesc GaugeValue (if err = None then f64_one else f64_zero) [name, address])
     (gseq (\<lambda>s. send accepts scrapeCollectorErrorsDesc CounterValue (f64_of_int (sint (dc_errors (ds_dc s))))
              [dev_Name (dc_device (ds_dc s)), dev_Address (dc_device (ds_dc s))] s)
     (send accepts scrapeDeviceDurationDesc GaugeValue duration [name, address]))"

definition collectFromDevice :: "(byte list \<Rightarrow> goerror + string) \<Rightarrow> (string \<Rightarrow> bool \<Rightarrow> bool \<Rightarrow> int \<Rightarrow> goerror + conn)
    \<Rightarrow> (desc \<Rightarrow> string list \<Rightarrow> bool) \<Rightarrow> (nat \<Rightarrow> bool) \<Rightarrow> f64 \<Rightarrow> (dstate, unit) gom" where
  \<comment> \<open>\<open>duration\<close> is the measured time\<close>
  "collectFromDevice decode dialer accepts cancelled duration = (\<lambda>s.
     let address = dev_Address (dc_device (ds_dc s)); name = dev_Name (dc_device (ds_dc s))
     in recovered (gbind (collect decode dialer accepts cancelled) (report accepts duration name address)) s)"

definition devicesFromSrv :: "(DNSServer option \<Rightarrow> string \<Rightarrow> goerror + string list) \<Rightarrow> deviceCollector
    \<Rightarrow> (goerror + deviceCollector list) outcome" where
  "devicesFromSrv resolve devCol =
     (let dev = dc_device devCol
      in case dev_Srv dev of
           None \<Rightarrow> Panicked NilDereference
         | Some srv \<Rightarrow>
             (case resolve (srv_DNS srv) (srv_Record srv) of
                Inl err \<Rightarrow> Return (Inl (Wrapf ''dns query for %s error: %w'' [srv_Record srv] err))
              | Inr r \<Rightarrow> Return (Inr (map (\<lambda>target. newDeviceCollector
                  (zero_device\<lparr>dev_Name := target, dev_Address := target, dev_User := dev_User dev,
                               dev_Password := dev_Password dev, dev_Srv := dev_Srv dev\<rparr>)
                  (dc_collectors devCol)) r))))"

definition devices_of :: "(DNSServer option \<Rightarrow> string \<Rightarrow> goerror + string list) \<Rightarrow> deviceCollector
    \<Rightarrow> deviceCollector list outcome" where
  \<comment> \<open>what an entry of the configuration stands for; a record that cannot be resolved is skipped\<close>
  "devices_of resolve dc =
     (if dc_isSrv dc
      then obind (devicesFromSrv resolve dc) (\<lambda>r. Return (case r of Inr devs \<Rightarrow> devs | Inl err \<Rightarrow> []))
      else Return [dc])"

fun real_devices :: "(DNSServer option \<Rightarrow> string \<Rightarrow> goerror + string list) \<Rightarrow> deviceCollector list
    \<Rightarrow> deviceCollector list outcome" where
  \<comment> \<open>the loop of \<open>Collect\<close> over its devices\<close>
  "real_devices resolve [] = Return []"
| "real_devices resolve (dc # dcs) =
     obind (devices_of resolve dc) (\<lambda>devs.
     obind (real_devices resolve dcs) (\<lambda>rest. Return (devs @ rest)))"

section \<open>One device of a scrape\<close>

definition scrape_metrics :: "string \<Rightarrow> string \<Rightarrow> goerror option \<Rightarrow> deviceCollector \<Rightarrow> f64 \<Rightarrow> metric list" where
  \<comment> \<open>what is sent about the scrape of a device\<close>
  "scrape_metrics name address err dc duration =
     [\<lparr>mt_desc = scrapeDeviceSuccessDesc, mt_type = GaugeValue,
       mt_value = (if err = None then f64_one else f64_zero), mt_labels = [name, address]\<rparr>,
      \<lparr>mt_desc = scrapeCollectorErrorsDesc, mt_type = CounterValue, mt_value = f64_of_int (sint (dc_errors dc)),
       mt_labels = [dev_Name (dc_device dc), dev_Address (dc_device dc)]\<rparr>,
      \<lparr>mt_desc = scrapeDeviceDurationDesc, mt_type = GaugeValue, mt_value = duration, mt_labels = [name, address]\<rparr>]"

definition taken :: "(desc \<Rightarrow> string list \<Rightarrow> bool) \<Rightarrow> metric list \<Rightarrow> metric list" where
  \<comment> \<open>what gets to the channel: the first metric the library refuses is a panic\<close>
  "taken accepts ms = takeWhile (\<lambda>m. accepts (mt_desc m) (mt_labels m)) ms"

lemma taken_all: "accepts_all accepts \<Longrightarrow> taken accepts (scrape_metrics name address err dc duration)
    = scrape_metrics name address err dc duration"
  by (simp add: taken_def scrape_metrics_def accepts_all_def scrapeDeviceSuccessDesc_def scrapeCollectorErrorsDesc_def
      scrapeDeviceDurationDesc_def)

definition about_scrape :: "(desc \<Rightarrow> string list \<Rightarrow> bool) \<Rightarrow> f64 \<Rightarrow> Device \<Rightarrow> deviceCollector
    \<Rightarrow> goerror option outcome \<Rightarrow> metric list" where
  \<comment> \<open>what is sent about the scrape, when \<open>collect\<close> has ended like this\<close>
  "about_scrape accepts duration dev dc r = (case r of
       Return err \<Rightarrow> taken accepts (scrape_metrics (dev_Name dev) (dev_Address dev) err dc duration)
     | _ \<Rightarrow> [])"

lemma report_sends:
  "\<exists>r. report accepts duration name address err s
     = (r, s\<lparr>ds_ch := ds_ch s @ taken accepts (scrape_metrics name address err (ds_dc s) duration)\<rparr>)
     \<and> (r = Return () \<or> r = Panicked BadMetric)"
  by (simp add: report_def send_def gseq_def gbind_def scrape_metrics_def taken_def)

lemma recovered_cases:
  "m s = (Return (), s') \<Longrightarrow> recovered m s = (Return (), s')"
  "m s = (Panicked p, s') \<Longrightarrow> recovered m s = (Return (), s')"
  by (simp_all add: recovered_def)

text \<open>What a device collector needs, to be collected from.\<close>

definition sound_dc :: "deviceCollector \<Rightarrow> bool" where
  "sound_dc dc \<longleftrightarrow> (\<forall>c. dc_cl dc = Some c \<longrightarrow> healthy c) \<and> dc_isSrv dc = (dev_Srv (dc_device dc) \<noteq> None)
     \<and> (\<forall>drc \<in> set (dc_collectors dc). sound_rc drc)"

text \<open>The collectors of a device never change.\<close>

lemma run_collector_static:
  "run_collector decode accepts drc s = (r, s') \<Longrightarrow> dc_collectors (ds_dc s') = dc_collectors (ds_dc s)"
  by (auto simp: run_collector_def Let_def set_dc_def split: option.splits prod.splits)

lemma keeps_gather:
  assumes "\<And>drc. drc \<in> set drcs \<Longrightarrow> keeps P (run_collector decode accepts drc)" and "\<And>s. P s \<Longrightarrow> P (count_errors 1 s)"
  shows "keeps (\<lambda>s. P s \<and> dc_collectors (ds_dc s) = drcs) (gatherMetrics decode accepts cancelled)"
proof (rule keepsI)
  let ?P = "\<lambda>s. P s \<and> dc_collectors (ds_dc s) = drcs"
  fix s assume s: "?P s"
  have "keeps ?P (gather_loop (run_collector decode accepts) cancelled drcs 0 0 None)"
  proof (rule keeps_gather_loop)
    fix drc assume d: "drc \<in> set drcs"
    show "keeps ?P (run_collector decode accepts drc)"
    proof (rule keepsI)
      fix t assume t: "?P t"
      obtain r t' where "run_collector decode accepts drc t = (r, t')" by fastforce
      with t keepsD [OF assms(1) [OF d]] run_collector_static show "?P (snd (run_collector decode accepts drc t))"
        by fastforce
    qed
  next
    fix t assume "?P t"
    with assms(2) show "?P (count_errors 1 t)" by (simp add: count_errors_def set_dc_def)
  qed
  with s show "?P (snd (gatherMetrics decode accepts cancelled s))" by (simp add: gatherMetrics_def keeps_def)
qed

lemma load_version_static:
  "load_version decode s = (r, s') \<Longrightarrow> ds_ch s' = ds_ch s \<and> dc_collectors (ds_dc s') = dc_collectors (ds_dc s)"
  by (auto simp: load_version_def on_cached_def set_dc_def split: if_splits option.splits prod.splits)

lemma small_static [simp]:
  "ds_ch (disconnect s) = ds_ch s" "dc_collectors (ds_dc (disconnect s)) = dc_collectors (ds_dc s)"
  "ds_ch (count_errors n s) = ds_ch s" "dc_collectors (ds_dc (count_errors n s)) = dc_collectors (ds_dc s)"
  "ds_ch (count_all s) = ds_ch s" "dc_collectors (ds_dc (count_all s)) = dc_collectors (ds_dc s)"
  "ds_ch (forget_version s) = ds_ch s" "dc_collectors (ds_dc (forget_version s)) = dc_collectors (ds_dc s)"
  by (auto simp: disconnect_def close_cached_def set_dc_def let_go_def count_all_def count_errors_def forget_version_def
      split: option.splits)

text \<open>What holds of the channel after every collector holds after \<open>collect\<close>.\<close>

lemma collect_keeps:
  assumes "\<And>drc. drc \<in> set (dc_collectors (ds_dc s)) \<Longrightarrow>
      keeps (\<lambda>s. R (ds_ch s)) (run_collector decode accepts drc)" and "R (ds_ch s)"
    and "collect decode dialer accepts cancelled s = (r, s')"
  shows "dc_collectors (ds_dc s') = dc_collectors (ds_dc s) \<and> R (ds_ch s')"
proof -
  let ?drcs = "dc_collectors (ds_dc s)"
  let ?P = "\<lambda>s. R (ds_ch s) \<and> dc_collectors (ds_dc s) = ?drcs"
  obtain q s1 where c: "connect decode dialer s = (q, s1)" by fastforce
  have 1: "?P s1" using connect_still [OF c] assms(2) by simp
  have g: "keeps ?P (gatherMetrics decode accepts cancelled)"
    by (rule keeps_gather) (use assms(1) in simp_all)
  have "keeps ?P (load_version decode)"
    by (rule keepsI) (metis load_version_static prod.collapse)
  then have "keeps ?P (collect_connected decode accepts cancelled)"
    unfolding collect_connected_def wrapped_def
    by (intro keeps_gbind keeps_case_option keeps_gseq keeps_gupdate keeps_gret g) simp_all
  then have "?P (snd (collect_connected decode accepts cancelled s1))" using 1 by (simp add: keeps_def)
  then have "?P (snd (deferred disconnect (collect_connected decode accepts cancelled) s1))"
    by (auto simp: deferred_def split: prod.splits outcome.splits)
  with 1 c assms(3) show ?thesis
    by (cases q) (auto simp: collect_def gbind_def gseq_def split: sum.splits)
qed

text \<open>
  One device of a scrape: \<open>collect\<close>, then the metrics about the scrape.  While \<open>collect\<close> waits, nothing
  comes after it.
\<close>

definition scraped_from :: "(desc \<Rightarrow> string list \<Rightarrow> bool) \<Rightarrow> f64 \<Rightarrow> dstate \<Rightarrow> goerror option outcome \<Rightarrow> dstate
    \<Rightarrow> metric list \<Rightarrow> unit outcome \<times> dstate \<Rightarrow> bool" where
  "scraped_from accepts duration s r s1 sent result \<longleftrightarrow>
     (if r = Blocked then result = (Blocked, s1)
      else \<exists>s'. result = (Return (), s') \<and> sound_dc (ds_dc s') \<and> ds_dc s' = ds_dc s1 \<and> ds_gone s' = ds_gone s1
        \<and> ds_ch s' = ds_ch s @ sent @ about_scrape accepts duration (dc_device (ds_dc s)) (ds_dc s') r)"

lemma collectFromDevice_result:
  assumes "sound_dc (ds_dc s)" and c: "collect decode dialer accepts cancelled s = (r, s1)"
  shows "\<exists>sent. collected_from s (quiet dialer (ds_dc s)) (reliable accepts (dc_collectors (ds_dc s))) r s1 sent
     \<and> scraped_from accepts duration s r s1 sent (collectFromDevice decode dialer accepts cancelled duration s)"
proof -
  have i: "dinv s" and g: "\<forall>drc \<in> set (dc_collectors (ds_dc s)). sound_rc drc"
    using assms(1) by (simp_all add: sound_dc_def dinv_def)
  obtain sent where col: "collected_from s (quiet dialer (ds_dc s)) (reliable accepts (dc_collectors (ds_dc s))) r s1 sent"
    using collect_outcome [OF i g c] by blast
  then have ch: "ds_ch s1 = ds_ch s @ sent" by (simp add: collected_from_def)
  have s1: "sound_dc (ds_dc s1)" if "r \<noteq> Blocked"
    using col that collect_keeps [OF _ _ c, where R = "\<lambda>_. True"] g
    by (simp add: collected_from_def keeps_def sound_dc_def dinv_def)
  let ?cfd = "collectFromDevice decode dialer accepts cancelled duration s"
  let ?n = "dev_Name (dc_device (ds_dc s))" and ?a = "dev_Address (dc_device (ds_dc s))"
  have "scraped_from accepts duration s r s1 sent ?cfd"
  proof (cases r)
    case (Return err)
    let ?s' = "s1\<lparr>ds_ch := ds_ch s1 @ taken accepts (scrape_metrics ?n ?a err (ds_dc s1) duration)\<rparr>"
    obtain q where q: "report accepts duration ?n ?a err s1 = (q, ?s')" "q = Return () \<or> q = Panicked BadMetric"
      using report_sends by blast
    then have "gbind (collect decode dialer accepts cancelled) (report accepts duration ?n ?a) s = (q, ?s')"
      using c Return by (simp add: gbind_def)
    with q(2) have "?cfd = (Return (), ?s')"
      unfolding collectFromDevice_def Let_def by (auto intro: recovered_cases)
    with s1 ch Return show ?thesis by (simp add: scraped_from_def about_scrape_def)
  next
    case (Panicked p)
    with c have "?cfd = (Return (), s1)"
      unfolding collectFromDevice_def Let_def by (intro recovered_cases(2)) (simp add: gbind_def)
    with s1 ch Panicked show ?thesis by (simp add: scraped_from_def about_scrape_def)
  next
    case Blocked
    with c show ?thesis by (simp add: scraped_from_def collectFromDevice_def Let_def recovered_def gbind_def)
  qed
  with col show ?thesis by blast
qed

text \<open>
  Property C12: one device of a scrape.  What is sent carries the name and address the device has at the end.  No panic
  and no lock stops \<open>collectFromDevice\<close>, whatever the network, the device, its collectors and the metric library do:
  either it returns, or \<open>collect\<close> waits for ever, which needs a silent peer, and then nothing more is sent.
  When it returns, the device collector is fit for the next scrape, and what its collectors sent is followed by three
  metrics, as far as the library takes them: 1 or 0 for success or error, the
  number of errors so far, and the duration.  When \<open>collect\<close> has panicked, nothing is sent about the
  scrape; with collectors that keep their contract this happens only while the version of
  the device is not known.
\<close>

theorem collectFromDevice_outcome:
  assumes "sound_dc (ds_dc s)"
  shows "\<exists>r s1 sent. collect decode dialer accepts cancelled s = (r, s1) \<and> ds_ch s1 = ds_ch s @ sent
     \<and> (\<forall>x \<in> set sent. \<exists>ls. mt_labels x = [dev_Name (dc_device (ds_dc s1)), dev_Address (dc_device (ds_dc s1))] @ ls)
     \<and> (if r = Blocked
        then collectFromDevice decode dialer accepts cancelled duration s = (Blocked, s1) \<and> quiet dialer (ds_dc s)
        else (\<exists>s'. collectFromDevice decode dialer accepts cancelled duration s = (Return (), s')
            \<and> sound_dc (ds_dc s') \<and> ds_dc s' = ds_dc s1 \<and> ds_gone s' = ds_gone s1
            \<and> ds_ch s' = ds_ch s @ sent @ about_scrape accepts duration (dc_device (ds_dc s)) (ds_dc s') r)
          \<and> (reliable accepts (dc_collectors (ds_dc s)) \<longrightarrow> (\<exists>err. r = Return err)
              \<or> r = Panicked IndexOutOfRange \<and> fv_Major (dev_FirmwareVersion (dc_device (ds_dc s))) = 0))"
proof -
  obtain r s1 where c: "collect decode dialer accepts cancelled s = (r, s1)" by fastforce
  obtain sent where "collected_from s (quiet dialer (ds_dc s)) (reliable accepts (dc_collectors (ds_dc s))) r s1 sent"
    and "scraped_from accepts duration s r s1 sent (collectFromDevice decode dialer accepts cancelled duration s)"
    using collectFromDevice_result [OF assms c] by blast
  with c show ?thesis unfolding collected_from_def scraped_from_def
    by (intro exI [of _ r] exI [of _ s1] exI [of _ sent]) (cases "r = Blocked"; simp)
qed

definition dns_rc :: deviceCollectorRC where
  \<comment> \<open>the registered collector \<^verbatim>\<open>dns\<close> of a device\<close>
  "dns_rc = \<lparr>rc_collector = (case InstanateCollector (registry 0) ''dns'' of Return k \<Rightarrow> k | _ \<Rightarrow> None),
             rc_name = ''dns'', rc_featureConf = NewFeatureConf\<rparr>"

lemma instanate_good:
  assumes "n \<in> set (AvailableCollectorsNames (registry now))" and "n \<notin> set no_contract"
  shows "\<exists>k. InstanateCollector (registry now) n = Return (Some k) \<and> device_collector (Return k)"
  using instanate_registered [OF assms(1)] assms(2) by (auto simp: contract_def)

lemma dns_rc_good: "good_rc dns_rc"
proof -
  have "''dns'' \<in> set (AvailableCollectorsNames (registry 0))" unfolding names_table table_names by simp
  moreover have "''dns'' \<notin> set no_contract" by (simp add: no_contract_def)
  ultimately obtain k where "InstanateCollector (registry 0) ''dns'' = Return (Some k)" "device_collector (Return k)"
    using instanate_good by blast
  then show ?thesis by (simp add: good_rc_def dns_rc_def)
qed

lemma sound_new: "\<forall>drc \<in> set drcs. sound_rc drc \<Longrightarrow> sound_dc (newDeviceCollector d drcs)"
  by (simp add: sound_dc_def newDeviceCollector_def Let_def)

definition dns_state :: dstate where
  "dns_state = \<lparr>ds_dc = newDeviceCollector zero_device [dns_rc], ds_ch = [], ds_gone = []\<rparr>"

lemma dns_state_sound: "sound_dc (ds_dc dns_state)"
  by (simp add: dns_state_def sound_new dns_rc_good good_rc_sound)

lemma not_quiet: "dc_cl dc = None \<Longrightarrow> (\<And>a t i n. case dialer a t i n of Inl err \<Rightarrow> True | Inr con \<Rightarrow> \<not> silent con)
    \<Longrightarrow> \<not> quiet dialer dc"
  by (auto simp: quiet_def dial_def split: sum.splits) (metis sum.case(2))

theorem collectFromDevice_outcome_witness:
  "\<exists>s'. collectFromDevice ascii_only (\<lambda>_ _ _ _. Inr (test_conn [])) (\<lambda>_ _. True) (\<lambda>_. False) f64_zero dns_state = (Return (), s')
     \<and> sound_dc (ds_dc s')"
proof -
  have "\<not> quiet (\<lambda>_ _ _ _. Inr (test_conn [])) (ds_dc dns_state)"
    by (rule not_quiet) (simp_all add: dns_state_def newDeviceCollector_def Let_def)
  with collectFromDevice_outcome [OF dns_state_sound, of ascii_only "\<lambda>_ _ _ _. Inr (test_conn [])" "\<lambda>_ _. True" "\<lambda>_. False" f64_zero]
  show ?thesis by (auto split: if_splits)
qed

text \<open>
  Property C3: what \<open>collect\<close> guarantees of one device, whatever the network, the device, its
  collectors and the metric library do.  Whatever was sent carries the name and address the device has at the end.
  It waits for ever only when a connection it uses is silent.  In all other cases
  the connection it leaves behind is usable, a
  device from an SRV record is left without one, and for every other device all connections given
  up have been closed; and
  with collectors that keep their contract it returns, or panics on an empty answer while the
  version of the device is not known.
\<close>

theorem collect_contract:
  assumes "dinv s" and "\<forall>drc \<in> set (dc_collectors (ds_dc s)). sound_rc drc"
  shows "\<exists>r s' sent. collect decode dialer accepts cancelled s = (r, s') \<and> ds_ch s' = ds_ch s @ sent
     \<and> (\<forall>x \<in> set sent. \<exists>ls. mt_labels x = [dev_Name (dc_device (ds_dc s')), dev_Address (dc_device (ds_dc s'))] @ ls)
     \<and> (if r = Blocked then quiet dialer (ds_dc s)
        else dinv s'
          \<and> (dc_isSrv (ds_dc s) \<longrightarrow> dc_cl (ds_dc s') = None)
          \<and> (\<not> dc_isSrv (ds_dc s) \<longrightarrow> all_closed s \<longrightarrow> all_closed s')
          \<and> (reliable accepts (dc_collectors (ds_dc s)) \<longrightarrow> (\<exists>err. r = Return err)
              \<or> r = Panicked IndexOutOfRange \<and> fv_Major (dev_FirmwareVersion (dc_device (ds_dc s))) = 0))"
proof -
  obtain r s' where c: "collect decode dialer accepts cancelled s = (r, s')" by fastforce
  with collect_outcome [OF assms c] show ?thesis unfolding collected_from_def by auto
qed

theorem collect_contract_witness:
  "\<exists>r s' sent. collect ascii_only (\<lambda>_ _ _ _. Inr (test_conn [])) (\<lambda>_ _. True) (\<lambda>_. False) dns_state = (r, s')
     \<and> ds_ch s' = sent \<and> dinv s' \<and> all_closed s' \<and> ((\<exists>err. r = Return err) \<or> r = Panicked IndexOutOfRange)"
proof -
  have d: "dinv dns_state" "\<forall>drc \<in> set (dc_collectors (ds_dc dns_state)). sound_rc drc"
    using dns_state_sound by (simp_all add: sound_dc_def dinv_def)
  have n: "\<not> dc_isSrv (ds_dc dns_state)" "all_closed dns_state" "ds_ch dns_state = []"
    by (simp_all add: dns_state_def newDeviceCollector_def zero_device_def all_closed_def Let_def)
  have a: "reliable (\<lambda>_ _. True) (dc_collectors (ds_dc dns_state))"
    by (simp add: reliable_def accepts_all_def dns_state_def dns_rc_good newDeviceCollector_def Let_def)
  have q: "\<not> quiet (\<lambda>_ _ _ _. Inr (test_conn [])) (ds_dc dns_state)"
    by (rule not_quiet) (simp_all add: dns_state_def newDeviceCollector_def Let_def)
  from collect_contract [OF d, of ascii_only "\<lambda>_ _ _ _. Inr (test_conn [])" "\<lambda>_ _. True" "\<lambda>_. False"] n a q
  show ?thesis by (auto split: if_splits)
qed


section \<open>The goroutines of a scrape\<close>

text \<open>
  \<open>Collect\<close> starts one goroutine per device and waits for all of them.  What a goroutine does
  between two sends is invisible to the others, as every one has a device collector of its own, so a
  goroutine is the list of the metrics it will send, and whether it then gets to \<^verbatim>\<open>wg.Done()\<close>.  One
  that does not, because \<open>collectFromDevice\<close> waits for ever on a silent peer, sends what it sends before
  that and then has no step (\<open>Running [] False\<close>).
  A step of the scrape is a send of one goroutine, or its end.
\<close>

datatype goroutine = Running "metric list" bool | Finished

record scrape =
  sc_threads :: "goroutine list"
  sc_wg :: nat
  sc_ch :: "metric list"

inductive step :: "scrape \<Rightarrow> scrape \<Rightarrow> bool" where
  sends: "i < length (sc_threads s) \<Longrightarrow> sc_threads s ! i = Running (m # ms) r \<Longrightarrow>
     step s (s\<lparr>sc_threads := (sc_threads s)[i := Running ms r], sc_ch := sc_ch s @ [m]\<rparr>)"
| finishes: "i < length (sc_threads s) \<Longrightarrow> sc_threads s ! i = Running [] True \<Longrightarrow>
     step s (s\<lparr>sc_threads := (sc_threads s)[i := Finished], sc_wg := sc_wg s - 1\<rparr>)"

inductive_cases stepE: "step s s'"

definition started :: "goroutine list \<Rightarrow> scrape" where
  "started gs = \<lparr>sc_threads = gs, sc_wg = length gs, sc_ch = []\<rparr>"

definition goroutine_of :: "(dstate, unit) gom \<Rightarrow> deviceCollector \<Rightarrow> goroutine" where
  "goroutine_of run dc = (case run \<lparr>ds_dc = dc, ds_ch = [], ds_gone = []\<rparr> of
     (r, s') \<Rightarrow> Running (ds_ch s') (r = Return ()))"

definition mikrotik_Collect :: "(DNSServer option \<Rightarrow> string \<Rightarrow> goerror + string list)
    \<Rightarrow> (nat \<Rightarrow> (dstate, unit) gom) \<Rightarrow> mikrotikCollector \<Rightarrow> scrape outcome" where
  \<comment> \<open>\<open>Collect\<close> up to \<^verbatim>\<open>wg.Wait()\<close>, which lets it return when the counter is 0; \<open>from_device i\<close> is
     \<open>collectFromDevice\<close> with what the \<open>i\<close>-th device meets on the network\<close>
  "mikrotik_Collect resolve from_device c =
     obind (real_devices resolve (mk_devices c)) (\<lambda>realDevices.
     Return (started (map (\<lambda>(i, d). goroutine_of (from_device i) d) (enumerate 0 realDevices))))"

fun to_send :: "goroutine \<Rightarrow> metric list" where
  "to_send (Running ms r) = ms"
| "to_send Finished = []"

fun gets_done :: "goroutine \<Rightarrow> bool" where
  "gets_done (Running ms r) = r"
| "gets_done Finished = True"

definition sent_by :: "nat \<Rightarrow> (nat \<times> metric) list \<Rightarrow> metric list" where
  "sent_by i trace = map snd (filter (\<lambda>p. fst p = i) trace)"

lemma sent_by_simps [simp]: "sent_by i [] = []" "sent_by i (trace @ [(j, m)]) = sent_by i trace @ (if j = i then [m] else [])"
  by (simp_all add: sent_by_def)

definition unfinished :: "goroutine list \<Rightarrow> nat" where
  "unfinished gs = sum_list (map (\<lambda>g. if g = Finished then 0 else 1) gs)"

definition interleaves :: "goroutine list \<Rightarrow> scrape \<Rightarrow> bool" where
  \<comment> \<open>the channel is an interleaving of what the goroutines have sent; the counter is right\<close>
  "interleaves gs s \<longleftrightarrow> length (sc_threads s) = length gs \<and> sc_wg s = unfinished (sc_threads s)
     \<and> (\<forall>i < length gs. gets_done (sc_threads s ! i) = gets_done (gs ! i))
     \<and> (\<exists>trace. map snd trace = sc_ch s \<and> (\<forall>(i, m) \<in> set trace. i < length gs)
          \<and> (\<forall>i < length gs. sent_by i trace @ to_send (sc_threads s ! i) = to_send (gs ! i)))"

lemma sum_update:
  fixes f :: "'a \<Rightarrow> nat"
  shows "i < length xs \<Longrightarrow> sum_list (map f (xs[i := x])) + f (xs ! i) = sum_list (map f xs) + f x"
proof (induction xs arbitrary: i)
  case (Cons y ys)
  show ?case
  proof (cases i)
    case (Suc j)
    with Cons.prems Cons.IH [of j] show ?thesis by simp
  qed simp
qed simp

lemma unfinished_0: "unfinished gs = 0 \<longleftrightarrow> (\<forall>g \<in> set gs. g = Finished)"
  by (auto simp: unfinished_def)

lemma interleaves_started: "\<forall>g \<in> set gs. g \<noteq> Finished \<Longrightarrow> interleaves gs (started gs)"
proof -
  assume "\<forall>g \<in> set gs. g \<noteq> Finished"
  then have "unfinished gs = length gs" by (induction gs) (simp_all add: unfinished_def)
  then show ?thesis by (auto simp: interleaves_def started_def intro!: exI [of _ "[]"])
qed

lemma interleaves_step:
  assumes "step s s'" and "interleaves gs s"
  shows "interleaves gs s'"
proof -
  from assms(2) obtain trace where l: "length (sc_threads s) = length gs" and wg: "sc_wg s = unfinished (sc_threads s)"
    and gd: "\<forall>i < length gs. gets_done (sc_threads s ! i) = gets_done (gs ! i)"
    and ch: "map snd trace = sc_ch s" and own: "\<forall>(i, m) \<in> set trace. i < length gs"
    and out: "\<forall>i < length gs. sent_by i trace @ to_send (sc_threads s ! i) = to_send (gs ! i)"
    by (auto simp: interleaves_def)
  from assms(1) show ?thesis
  proof (cases rule: step.cases)
    case (sends i m ms r)
    have "unfinished ((sc_threads s)[i := Running ms r]) = unfinished (sc_threads s)"
      using sum_update [OF sends(2), of "\<lambda>g. if g = Finished then 0 else 1" "Running ms r"] sends(3)
      by (simp add: unfinished_def)
    moreover have "\<forall>j < length gs. sent_by j (trace @ [(i, m)]) @ to_send ((sc_threads s)[i := Running ms r] ! j) = to_send (gs ! j)"
      using out sends(3) l by (auto simp: nth_list_update)
    moreover have "gets_done ((sc_threads s)[i := Running ms r] ! j) = gets_done (sc_threads s ! j)" for j
      using sends(2,3) by (cases "i = j") simp_all
    then have "\<forall>j < length gs. gets_done ((sc_threads s)[i := Running ms r] ! j) = gets_done (gs ! j)"
      using gd by simp
    ultimately show ?thesis
      using sends l wg ch own by (auto simp: interleaves_def intro!: exI [of _ "trace @ [(i, m)]"])
  next
    case (finishes i)
    have "unfinished ((sc_threads s)[i := Finished]) = unfinished (sc_threads s) - 1"
      using sum_update [OF finishes(2), of "\<lambda>g. if g = Finished then 0 else 1" Finished] finishes(3)
      by (simp add: unfinished_def)
    moreover have "to_send ((sc_threads s)[i := Finished] ! j) = to_send (sc_threads s ! j)" for j
      using finishes(2,3) by (cases "i = j") simp_all
    then have "\<forall>j < length gs. sent_by j trace @ to_send ((sc_threads s)[i := Finished] ! j) = to_send (gs ! j)"
      using out by simp
    moreover have "gets_done ((sc_threads s)[i := Finished] ! j) = gets_done (sc_threads s ! j)" for j
      using finishes(2,3) by (cases "i = j") simp_all
    then have "\<forall>j < length gs. gets_done ((sc_threads s)[i := Finished] ! j) = gets_done (gs ! j)"
      using gd by simp
    ultimately show ?thesis
      using finishes l wg ch own by (auto simp: interleaves_def intro!: exI [of _ trace])
  qed
qed

lemma interleaves_reachable:
  "step\<^sup>*\<^sup>* (started gs) s \<Longrightarrow> \<forall>g \<in> set gs. g \<noteq> Finished \<Longrightarrow> interleaves gs s"
  by (induction rule: rtranclp_induct) (auto intro: interleaves_started interleaves_step)

fun work :: "goroutine \<Rightarrow> nat" where
  "work (Running ms r) = Suc (length ms)"
| "work Finished = 0"

lemma step_work:
  assumes "step s s'"
  shows "sum_list (map work (sc_threads s)) = Suc (sum_list (map work (sc_threads s')))"
  using assms
proof (elim stepE)
  fix i m ms r
  assume "s' = s\<lparr>sc_threads := (sc_threads s)[i := Running ms r], sc_ch := sc_ch s @ [m]\<rparr>"
    and "i < length (sc_threads s)" and "sc_threads s ! i = Running (m # ms) r"
  then show ?thesis using sum_update [of i "sc_threads s" work "Running ms r"] by simp
next
  fix i
  assume "s' = s\<lparr>sc_threads := (sc_threads s)[i := Finished], sc_wg := sc_wg s - Suc 0\<rparr>"
    and "i < length (sc_threads s)" and "sc_threads s ! i = Running [] True"
  then show ?thesis using sum_update [of i "sc_threads s" work Finished] by simp
qed

lemma steps_work:
  "(step ^^ n) s s' \<Longrightarrow> sum_list (map work (sc_threads s)) = n + sum_list (map work (sc_threads s'))"
  by (induction n arbitrary: s') (auto dest: step_work)

lemma work_0: "sum_list (map work gs) = 0 \<longleftrightarrow> unfinished gs = 0"
proof -
  have "work g = 0 \<longleftrightarrow> g = Finished" for g by (cases g) simp_all
  then show ?thesis by (auto simp: unfinished_0)
qed

text \<open>A goroutine without a step has finished, or it has sent all it sends and waits for ever.\<close>

lemma no_step:
  assumes "\<not> (\<exists>s'. step s s')" and "i < length (sc_threads s)"
  shows "sc_threads s ! i = Finished \<or> sc_threads s ! i = Running [] False"
proof (cases "sc_threads s ! i")
  case (Running ms r)
  show ?thesis
  proof (cases ms)
    case Nil
    with Running assms finishes [of i s] show ?thesis by (cases r) auto
  next
    case (Cons m ms')
    with Running assms sends [of i s m ms' r] show ?thesis by auto
  qed
qed simp

lemma wg_0_done:
  assumes "interleaves gs s" and "sc_wg s = 0" and "g \<in> set gs"
  shows "gets_done g"
proof -
  obtain i where i: "i < length gs" "g = gs ! i" using assms(3) by (auto simp: in_set_conv_nth)
  have "\<forall>g \<in> set (sc_threads s). g = Finished"
    using assms(1,2) unfinished_0 [of "sc_threads s"] by (simp add: interleaves_def)
  with i assms(1) have "sc_threads s ! i = Finished" by (simp add: interleaves_def)
  moreover have "gets_done (sc_threads s ! i) = gets_done (gs ! i)" using assms(1) i by (simp add: interleaves_def)
  ultimately show ?thesis using i by simp
qed

lemma no_step_complete:
  assumes i: "interleaves gs s" and n: "\<not> (\<exists>s'. step s s')"
  shows "\<exists>trace. map snd trace = sc_ch s \<and> (\<forall>i < length gs. sent_by i trace = to_send (gs ! i))"
    and "sc_wg s = 0 \<or> (\<exists>g \<in> set gs. \<not> gets_done g)"
proof -
  have l: "length (sc_threads s) = length gs" using i by (simp add: interleaves_def)
  have "to_send (sc_threads s ! j) = []" if "j < length gs" for j
    using no_step [OF n, of j] that l by auto
  with i show "\<exists>trace. map snd trace = sc_ch s \<and> (\<forall>i < length gs. sent_by i trace = to_send (gs ! i))"
    by (auto simp: interleaves_def)
  show "sc_wg s = 0 \<or> (\<exists>g \<in> set gs. \<not> gets_done g)"
  proof (cases "\<forall>j < length gs. sc_threads s ! j = Finished")
    case True
    then have "unfinished (sc_threads s) = 0" using l by (auto simp: unfinished_0 in_set_conv_nth)
    with i show ?thesis by (simp add: interleaves_def)
  next
    case False
    then obtain j where j: "j < length gs" "sc_threads s ! j = Running [] False" using no_step [OF n] l by metis
    moreover have "gets_done (sc_threads s ! j) = gets_done (gs ! j)" using i j(1) by (simp add: interleaves_def)
    ultimately show ?thesis by auto
  qed
qed

lemma step_exists:
  assumes "interleaves gs s" and "\<forall>g \<in> set gs. gets_done g" and "sc_wg s \<noteq> 0"
  shows "\<exists>s'. step s s'"
  using no_step_complete(2) [OF assms(1)] assms(2,3) by blast

lemma complete_trace:
  assumes "step\<^sup>*\<^sup>* (started gs) s" and "\<forall>g \<in> set gs. g \<noteq> Finished" and "sc_wg s = 0"
  shows "(\<forall>g \<in> set (sc_threads s). g = Finished)
     \<and> (\<exists>trace. map snd trace = sc_ch s \<and> (\<forall>(i, m) \<in> set trace. i < length gs)
          \<and> (\<forall>i < length gs. sent_by i trace = to_send (gs ! i)))"
proof -
  note i = interleaves_reachable [OF assms(1,2)]
  then have "\<forall>g \<in> set (sc_threads s). g = Finished"
    using assms(3) unfinished_0 [of "sc_threads s"] by (simp add: interleaves_def)
  moreover from this i have "\<forall>i < length gs. to_send (sc_threads s ! i) = []"
    by (auto simp: interleaves_def all_set_conv_all_nth)
  ultimately show ?thesis using i by (auto simp: interleaves_def)
qed

text \<open>
  Property C16: nothing is lost or mixed up in a scrape.  In whatever order the goroutines run, when
  the counter of the wait group is 0, which is when \<open>Collect\<close> returns, every goroutine has
  finished, and the metrics on the channel are an interleaving of the outputs of the
  goroutines: each metric was sent by one of them, and what one has sent is its whole output in
  order.
\<close>

theorem scrape_complete:
  assumes "step\<^sup>*\<^sup>* (started gs) s" and "\<forall>g \<in> set gs. g \<noteq> Finished" and "sc_wg s = 0"
  shows "(\<forall>g \<in> set (sc_threads s). g = Finished)
     \<and> (\<exists>trace. map snd trace = sc_ch s \<and> (\<forall>(i, m) \<in> set trace. i < length gs)
          \<and> (\<forall>i < length gs. sent_by i trace = to_send (gs ! i)))"
  by (rule complete_trace [OF assms])

definition a_metric :: "string \<Rightarrow> metric" where
  "a_metric n = \<lparr>mt_desc = scrapeDeviceSuccessDesc, mt_type = GaugeValue, mt_value = f64_one, mt_labels = [n, n]\<rparr>"

lemma a_run:
  "step\<^sup>*\<^sup>* (started [Running [a_metric ''a''] True, Running [a_metric ''b''] True])
     \<lparr>sc_threads = [Finished, Finished], sc_wg = 0, sc_ch = [a_metric ''b'', a_metric ''a'']\<rparr>"
proof -
  let ?a = "a_metric ''a''" and ?b = "a_metric ''b''"
  let ?s0 = "started [Running [?a] True, Running [?b] True]"
  let ?s1 = "\<lparr>sc_threads = [Running [?a] True, Running [] True], sc_wg = 2, sc_ch = [?b]\<rparr>"
  let ?s2 = "\<lparr>sc_threads = [Running [?a] True, Finished], sc_wg = 1, sc_ch = [?b]\<rparr>"
  let ?s3 = "\<lparr>sc_threads = [Running [] True, Finished], sc_wg = 1, sc_ch = [?b, ?a]\<rparr>"
  let ?s4 = "\<lparr>sc_threads = [Finished, Finished], sc_wg = 0, sc_ch = [?b, ?a]\<rparr>"
  have "step ?s0 ?s1" using sends [of 1 ?s0 ?b "[]" True] by (simp add: started_def eval_nat_numeral)
  moreover have "step ?s1 ?s2" using finishes [of 1 ?s1] by simp
  moreover have "step ?s2 ?s3" using sends [of 0 ?s2 ?a "[]" True] by simp
  moreover have "step ?s3 ?s4" using finishes [of 0 ?s3] by simp
  ultimately show ?thesis by (meson r_into_rtranclp rtranclp_trans)
qed

theorem scrape_complete_witness:
  "\<exists>trace. map snd trace = [a_metric ''b'', a_metric ''a''] \<and> sent_by 0 trace = [a_metric ''a'']"
  using scrape_complete [OF a_run] by force

text \<open>
  Property C19: a scrape ends.  When every goroutine gets to \<^verbatim>\<open>wg.Done()\<close>, no schedule is longer than
  the number of metrics plus the number of goroutines, and as long as the counter is not 0 some
  goroutine can go on, so every schedule brings \<open>Collect\<close> to its return.
\<close>

theorem scrape_terminates:
  assumes "(step ^^ n) (started gs) s" and "\<forall>g \<in> set gs. g \<noteq> Finished \<and> gets_done g"
  shows "n \<le> sum_list (map (\<lambda>g. Suc (length (to_send g))) gs) \<and> (sc_wg s = 0 \<or> (\<exists>s'. step s s'))
     \<and> (sc_wg s = 0 \<longleftrightarrow> n = sum_list (map (\<lambda>g. Suc (length (to_send g))) gs))"
proof -
  have f: "\<forall>g \<in> set gs. g \<noteq> Finished" using assms(2) by blast
  have i: "interleaves gs s" using interleaves_reachable [OF relpowp_imp_rtranclp [OF assms(1)] f] .
  have "work g = Suc (length (to_send g))" if "g \<in> set gs" for g using f that by (cases g) auto
  then have w: "map work gs = map (\<lambda>g. Suc (length (to_send g))) gs" by simp
  have "sum_list (map work gs) = n + sum_list (map work (sc_threads s))"
    using steps_work [OF assms(1)] by (simp add: started_def)
  moreover have "sc_wg s = 0 \<longleftrightarrow> sum_list (map work (sc_threads s)) = 0"
    using i by (simp only: interleaves_def work_0)
  ultimately show ?thesis using step_exists [OF i] assms(2) by (auto simp: w)
qed

theorem scrape_terminates_witness:
  "\<exists>n s. (step ^^ n) (started [Running [a_metric ''a''] True, Running [a_metric ''b''] True]) s \<and> sc_wg s = 0 \<and> n = 4"
proof -
  let ?gs = "[Running [a_metric ''a''] True, Running [a_metric ''b''] True]"
  let ?s = "\<lparr>sc_threads = [Finished, Finished], sc_wg = 0, sc_ch = [a_metric ''b'', a_metric ''a'']\<rparr>"
  obtain n where n: "(step ^^ n) (started ?gs) ?s" using a_run rtranclp_imp_relpowp by metis
  have "\<forall>g \<in> set ?gs. g \<noteq> Finished \<and> gets_done g" by simp
  from scrape_terminates [OF n this] have "n = 4" by simp
  with n show ?thesis by (intro exI [of _ n] exI [of _ ?s]) simp
qed


section \<open>The whole scrape\<close>

definition from_device :: "(byte list \<Rightarrow> goerror + string) \<Rightarrow> (desc \<Rightarrow> string list \<Rightarrow> bool)
    \<Rightarrow> (nat \<Rightarrow> string \<Rightarrow> bool \<Rightarrow> bool \<Rightarrow> int \<Rightarrow> goerror + conn) \<Rightarrow> (nat \<Rightarrow> nat \<Rightarrow> bool)
    \<Rightarrow> (nat \<Rightarrow> f64) \<Rightarrow> nat \<Rightarrow> (dstate, unit) gom" where
  \<comment> \<open>\<open>collectFromDevice\<close>, where every device has a network, a context and a duration of its own\<close>
  "from_device decode accepts dialer cancelled duration i =
     collectFromDevice decode (dialer i) accepts (cancelled i) (duration i)"

lemma srv_newDeviceCollector [simp]: "dev_Srv (dc_device (newDeviceCollector d drcs)) = dev_Srv d"
  by (simp add: newDeviceCollector_def Let_def)

lemma sound_newDeviceCollector [simp]:
  "sound_dc (newDeviceCollector d drcs) \<longleftrightarrow> (\<forall>drc \<in> set drcs. sound_rc drc)"
  "dev_Srv d \<noteq> None \<Longrightarrow> dc_isSrv (newDeviceCollector d drcs)"
  by (simp_all add: sound_dc_def newDeviceCollector_def Let_def)

lemma devicesFromSrv_returns:
  assumes "sound_dc dc" and "dc_isSrv dc"
  shows "(\<exists>err. devicesFromSrv resolve dc = Return (Inl err))
     \<or> (\<exists>devs. devicesFromSrv resolve dc = Return (Inr devs) \<and> (\<forall>d \<in> set devs. sound_dc d))"
proof -
  obtain srv where srv: "dev_Srv (dc_device dc) = Some srv" using assms by (auto simp: sound_dc_def)
  have "\<forall>drc \<in> set (dc_collectors dc). sound_rc drc" using assms(1) by (simp add: sound_dc_def)
  with srv show ?thesis
    by (cases "resolve (srv_DNS srv) (srv_Record srv)") (simp_all add: devicesFromSrv_def Let_def)
qed

lemma real_devices_returns:
  "\<forall>dc \<in> set dcs. sound_dc dc \<Longrightarrow> \<exists>devs. real_devices resolve dcs = Return devs \<and> (\<forall>d \<in> set devs. sound_dc d)
     \<and> {d \<in> set dcs. \<not> dc_isSrv d} \<subseteq> set devs"
proof (induction dcs)
  case (Cons dc dcs)
  then obtain rest where rest: "real_devices resolve dcs = Return rest" "\<forall>d \<in> set rest. sound_dc d"
    "{d \<in> set dcs. \<not> dc_isSrv d} \<subseteq> set rest" by auto
  show ?case
  proof (cases "dc_isSrv dc")
    case False
    with rest Cons.prems show ?thesis by (auto simp: devices_of_def)
  next
    case True
    moreover have "sound_dc dc" using Cons.prems by simp
    ultimately show ?thesis using devicesFromSrv_returns [of dc resolve] rest by (auto simp: devices_of_def)
  qed
qed simp

text \<open>
  What one device gives in a scrape: the metrics its collectors have sent, and the three about the
  scrape when \<open>collect\<close> has returned.
\<close>

definition device_output :: "(desc \<Rightarrow> string list \<Rightarrow> bool) \<Rightarrow> (dstate, goerror option) gom \<Rightarrow> f64 \<Rightarrow> deviceCollector
    \<Rightarrow> metric list" where
  "device_output accepts run duration d =
     (case run \<lparr>ds_dc = d, ds_ch = [], ds_gone = []\<rparr> of
        (r, s) \<Rightarrow> ds_ch s @ about_scrape accepts duration (dc_device d) (ds_dc s) r)"

lemma goroutine_from_device:
  assumes "sound_dc d"
  shows "\<exists>b. goroutine_of (from_device decode accepts dialer cancelled duration i) d
     = Running (device_output accepts (collect decode (dialer i) accepts (cancelled i)) (duration i) d) b
     \<and> (b \<or> quiet (dialer i) d)"
proof -
  let ?s = "\<lparr>ds_dc = d, ds_ch = [], ds_gone = []\<rparr>"
  have s: "sound_dc (ds_dc ?s)" using assms(1) by simp
  obtain r s1 where c: "collect decode (dialer i) accepts (cancelled i) ?s = (r, s1)" by fastforce
  obtain sent where ch: "ds_ch s1 = sent" and q: "r = Blocked \<longrightarrow> quiet (dialer i) d"
    and f: "scraped_from accepts (duration i) ?s r s1 sent
      (collectFromDevice decode (dialer i) accepts (cancelled i) (duration i) ?s)"
    using collectFromDevice_result [OF s c, of "duration i"] by (auto simp: collected_from_def)
  show ?thesis
  proof (cases "r = Blocked")
    case True
    with f have "collectFromDevice decode (dialer i) accepts (cancelled i) (duration i) ?s = (Blocked, s1)"
      by (simp add: scraped_from_def)
    with True c q show ?thesis
      by (intro exI [of _ False]) (simp add: goroutine_of_def from_device_def device_output_def about_scrape_def)
  next
    case False
    with f obtain s' where "collectFromDevice decode (dialer i) accepts (cancelled i) (duration i) ?s = (Return (), s')"
      and "ds_dc s' = ds_dc s1" "ds_ch s' = sent @ about_scrape accepts (duration i) (dc_device d) (ds_dc s') r"
      by (auto simp: scraped_from_def)
    with c ch show ?thesis
      by (intro exI [of _ True]) (simp add: goroutine_of_def from_device_def device_output_def)
  qed
qed

lemma sent_by_subseq: "subseq (sent_by i trace) (map snd trace)"
  unfolding sent_by_def by (rule subseq_map) simp

definition all_sent :: "(byte list \<Rightarrow> goerror + string) \<Rightarrow> (desc \<Rightarrow> string list \<Rightarrow> bool)
    \<Rightarrow> (nat \<Rightarrow> string \<Rightarrow> bool \<Rightarrow> bool \<Rightarrow> int \<Rightarrow> goerror + conn) \<Rightarrow> (nat \<Rightarrow> nat \<Rightarrow> bool) \<Rightarrow> (nat \<Rightarrow> f64)
    \<Rightarrow> deviceCollector list \<Rightarrow> metric list \<Rightarrow> bool" where
  \<comment> \<open>the channel has the whole output of every device in its order\<close>
  "all_sent decode accepts dialer cancelled duration devs ch \<longleftrightarrow> (\<forall>i < length devs.
     subseq (device_output accepts (collect decode (dialer i) accepts (cancelled i)) (duration i) (devs ! i)) ch)"

definition some_quiet :: "(nat \<Rightarrow> string \<Rightarrow> bool \<Rightarrow> bool \<Rightarrow> int \<Rightarrow> goerror + conn) \<Rightarrow> deviceCollector list \<Rightarrow> bool" where
  \<comment> \<open>some device has a silent peer\<close>
  "some_quiet dialer devs \<longleftrightarrow> (\<exists>i < length devs. quiet (dialer i) (devs ! i))"

text \<open>The goroutines of a scrape: what each will send, and that only one with a silent peer stops short.\<close>

definition goroutines :: "(byte list \<Rightarrow> goerror + string) \<Rightarrow> (desc \<Rightarrow> string list \<Rightarrow> bool)
    \<Rightarrow> (nat \<Rightarrow> string \<Rightarrow> bool \<Rightarrow> bool \<Rightarrow> int \<Rightarrow> goerror + conn) \<Rightarrow> (nat \<Rightarrow> nat \<Rightarrow> bool) \<Rightarrow> (nat \<Rightarrow> f64)
    \<Rightarrow> deviceCollector list \<Rightarrow> goroutine list" where
  "goroutines decode accepts dialer cancelled duration devs =
     map (\<lambda>(i, d). goroutine_of (from_device decode accepts dialer cancelled duration i) d) (enumerate 0 devs)"

lemma goroutines_nth:
  assumes "\<forall>d \<in> set devs. sound_dc d" and "i < length devs"
  shows "\<exists>b. goroutines decode accepts dialer cancelled duration devs ! i
     = Running (device_output accepts (collect decode (dialer i) accepts (cancelled i)) (duration i) (devs ! i)) b
     \<and> (b \<or> quiet (dialer i) (devs ! i))"
  using assms goroutine_from_device [of "devs ! i"] by (simp add: goroutines_def nth_enumerate_eq)

lemma goroutines_length [simp]: "length (goroutines decode accepts dialer cancelled duration devs) = length devs"
  by (simp add: goroutines_def)

lemma Collect_starts:
  assumes "real_devices resolve (mk_devices c) = Return devs"
  shows "mikrotik_Collect resolve (from_device decode accepts dialer cancelled duration) c
     = Return (started (goroutines decode accepts dialer cancelled duration devs))"
  using assms by (simp add: mikrotik_Collect_def goroutines_def)

lemma all_running:
  assumes "\<And>i. i < length gs \<Longrightarrow> \<exists>b. gs ! i = Running (out i) b \<and> R i b"
  shows "g \<in> set gs \<Longrightarrow> g \<noteq> Finished"
  using assms by (metis goroutine.distinct(1) in_set_conv_nth)

lemma delivers:
  assumes "\<forall>d \<in> set devs. sound_dc d"
    and run: "step\<^sup>*\<^sup>* (started (goroutines decode accepts dialer cancelled duration devs)) s"
  shows "if sc_wg s = 0 then all_sent decode accepts dialer cancelled duration devs (sc_ch s)
           else (\<exists>s'. step s s')
              \<or> all_sent decode accepts dialer cancelled duration devs (sc_ch s) \<and> some_quiet dialer devs"
proof -
  let ?out = "\<lambda>i. device_output accepts (collect decode (dialer i) accepts (cancelled i)) (duration i) (devs ! i)"
  define gs where "gs = goroutines decode accepts dialer cancelled duration devs"
  have l: "length gs = length devs" by (simp add: gs_def)
  have g: "\<exists>b. gs ! i = Running (?out i) b \<and> (b \<or> quiet (dialer i) (devs ! i))" if "i < length gs" for i
    using goroutines_nth [OF assms(1), of i] that by (simp only: gs_def goroutines_length)
  have f: "\<forall>g \<in> set gs. g \<noteq> Finished" by (intro ballI all_running [OF g])
  note run = run [folded gs_def]
  have q: "some_quiet dialer devs" if "g \<in> set gs" "\<not> gets_done g" for g
    using that g l unfolding some_quiet_def by (metis gets_done.simps(1) in_set_conv_nth)
  have sent: "all_sent decode accepts dialer cancelled duration devs (sc_ch s)"
    if t: "map snd trace = sc_ch s" "\<forall>i < length gs. sent_by i trace = to_send (gs ! i)" for trace
    unfolding all_sent_def
  proof (intro allI impI)
    fix i assume "i < length devs"
    with t(2) g l have "sent_by i trace = ?out i" by (metis to_send.simps(1))
    then show "subseq (?out i) (sc_ch s)" using sent_by_subseq [of i trace] t(1) by metis
  qed
  show ?thesis
  proof (cases "sc_wg s = 0")
    case True
    obtain trace where "map snd trace = sc_ch s" "\<forall>i < length gs. sent_by i trace = to_send (gs ! i)"
      using complete_trace [OF run f True] by metis
    from sent [OF this] True show ?thesis by (simp only: simp_thms if_True)
  next
    case False
    note c = no_step_complete [OF interleaves_reachable [OF run f]]
    have "all_sent decode accepts dialer cancelled duration devs (sc_ch s) \<and> some_quiet dialer devs"
      if n: "\<not> (\<exists>s'. step s s')"
    proof
      show "all_sent decode accepts dialer cancelled duration devs (sc_ch s)" using c(1) [OF n] sent by metis
      show "some_quiet dialer devs" using c(2) [OF n] q False by metis
    qed
    with False show ?thesis by (metis (full_types))
  qed
qed

lemma Collect_delivered:
  assumes "\<forall>d \<in> set (mk_devices c). sound_dc d"
  shows "\<exists>devs s0. real_devices resolve (mk_devices c) = Return devs
     \<and> {d \<in> set (mk_devices c). \<not> dc_isSrv d} \<subseteq> set devs
     \<and> mikrotik_Collect resolve (from_device decode accepts dialer cancelled duration) c = Return s0
     \<and> (\<forall>s. step\<^sup>*\<^sup>* s0 s \<longrightarrow>
          (if sc_wg s = 0 then all_sent decode accepts dialer cancelled duration devs (sc_ch s)
           else (\<exists>s'. step s s')
              \<or> all_sent decode accepts dialer cancelled duration devs (sc_ch s) \<and> some_quiet dialer devs))"
proof -
  obtain devs where "real_devices resolve (mk_devices c) = Return devs" and "\<forall>d \<in> set devs. sound_dc d"
    and "{d \<in> set (mk_devices c). \<not> dc_isSrv d} \<subseteq> set devs"
    using real_devices_returns [OF assms] by metis
  then show ?thesis
    by (intro exI [of _ devs] exI [of _ "started (goroutines decode accepts dialer cancelled duration devs)"]
        conjI allI impI Collect_starts delivers)
qed

text \<open>
  Property C5: what a scrape of sound device collectors delivers.  \<open>Collect\<close> starts
  its goroutines (a record that cannot be resolved only loses its own devices).  When the counter is 0, so that
  \<open>Collect\<close> returns, the channel has the whole output of every device in its
  order, for every device that is not behind an SRV record and every one a record gave.  Until then
  some goroutine can go on; only when some device has a silent peer may a scrape get stuck, and then
  the outputs of all devices are on the channel, but \<open>Collect\<close> never returns.
\<close>

theorem Collect_delivers:
  assumes "\<forall>d \<in> set (mk_devices c). sound_dc d"
  shows "\<exists>devs s0. real_devices resolve (mk_devices c) = Return devs
     \<and> {d \<in> set (mk_devices c). \<not> dc_isSrv d} \<subseteq> set devs
     \<and> mikrotik_Collect resolve (from_device decode accepts dialer cancelled duration) c = Return s0
     \<and> (\<forall>s. step\<^sup>*\<^sup>* s0 s \<longrightarrow>
          (if sc_wg s = 0 then all_sent decode accepts dialer cancelled duration devs (sc_ch s)
           else (\<exists>s'. step s s')
              \<or> all_sent decode accepts dialer cancelled duration devs (sc_ch s) \<and> some_quiet dialer devs))"
  by (rule Collect_delivered [OF assms])

theorem Collect_delivers_witness:
  "\<exists>s0. mikrotik_Collect (\<lambda>_ _. Inl ErrNoServersDefined)
       (from_device ascii_only (\<lambda>_ _. True) (\<lambda>_ _ _ _ _. Inl EOF) (\<lambda>_ _. False) (\<lambda>_. f64_zero))
       \<lparr>mk_devices = [newDeviceCollector zero_device [dns_rc]], mk_collectors = []\<rparr> = Return s0"
proof -
  let ?c = "\<lparr>mk_devices = [newDeviceCollector zero_device [dns_rc]], mk_collectors = []\<rparr> :: mikrotikCollector"
  have "\<forall>d \<in> set (mk_devices ?c). sound_dc d" by (simp add: dns_rc_good good_rc_sound)
  then show ?thesis using Collect_delivers by meson
qed


text \<open>
  A device \<open>stalls\<close> when the connection that a scrape uses first, the cached one or else the one the dialer
  gives, takes every byte, but the answer to the first command breaks off and nothing follows, not even the end of the connection.
\<close>

definition stalls :: "(string \<Rightarrow> bool \<Rightarrow> bool \<Rightarrow> int \<Rightarrow> goerror + conn) \<Rightarrow> deviceCollector \<Rightarrow> bool" where
  "stalls dialer dc \<longleftrightarrow> (\<exists>cl. ready cl \<and> (case dc_cl dc of
        Some cached \<Rightarrow> cl = cached
      | None \<Rightarrow> \<exists>con. dial dialer (dc_device dc) = Inr con \<and> cl = NewClient con)
     \<and> (\<exists>wss p q. good_reply wss \<and> encodeSentences wss = p @ q \<and> q \<noteq> []
          \<and> cn_rx (cl_rwc cl) = \<lparr>rs_in = p, rs_end = Silent\<rparr>))"

lemma connect_stalls:
  assumes "stalls dialer (ds_dc s)" and "ascii_decoder decode"
  shows "\<exists>s'. connect decode dialer s = (Blocked, s') \<and> ds_ch s' = ds_ch s"
proof -
  obtain cl wss p q where r: "ready cl" and first: "case dc_cl (ds_dc s) of Some cached \<Rightarrow> cl = cached
      | None \<Rightarrow> \<exists>con. dial dialer (dc_device (ds_dc s)) = Inr con \<and> cl = NewClient con"
    and g: "good_reply wss" "encodeSentences wss = p @ q" "q \<noteq> []" "cn_rx (cl_rwc cl) = \<lparr>rs_in = p, rs_end = Silent\<rparr>"
    using assms(1) unfolding stalls_def by blast
  have run: "\<exists>c'. Run decode ws cl = (Blocked, c')" for ws by (rule Run_silent [OF r assms(2) g])
  show ?thesis
  proof (cases "dc_cl (ds_dc s)")
    case None
    with first obtain con where con: "dial dialer (dc_device (ds_dc s)) = Inr con" "cl = NewClient con" by auto
    obtain c' where "Run decode [''/login'', ''=name='' @ dev_User (dc_device (ds_dc s)),
        ''=password='' @ dev_Password (dc_device (ds_dc s))] cl = (Blocked, c')" using run by blast
    then have "Login decode (dev_User (dc_device (ds_dc s))) (dev_Password (dc_device (ds_dc s))) cl = (Blocked, c')"
      by (simp add: Login_def gbind_def)
    with None con show ?thesis by (simp add: connect_def reconnect_def Let_def)
  next
    case (Some cached)
    with first run obtain c' where "Run decode [''/system/identity/print''] cached = (Blocked, c')" by auto
    with Some show ?thesis by (simp add: connect_def gbind_def on_cached_def on_client_def set_dc_def)
  qed
qed

text \<open>
  Property C28: a silent device hangs the exporter.  The time limit of the configuration bounds only the dialing, and
  the context is looked at between two collectors.  When a device stalls, \<open>collectFromDevice\<close> does not
  return, also with a context that is done; it sends nothing, not even the metrics about the scrape; and \<open>Collect\<close>,
  whatever the other devices do, never gets past \<^verbatim>\<open>wg.Wait()\<close>.
\<close>

theorem silent_device_hangs:
  assumes "\<forall>d \<in> set (mk_devices c). sound_dc d" and "ascii_decoder decode"
    and "real_devices resolve (mk_devices c) = Return devs" and "i < length devs" and "stalls (dialer i) (devs ! i)"
    and "mikrotik_Collect resolve (from_device decode accepts dialer cancelled duration) c = Return s0"
    and "step\<^sup>*\<^sup>* s0 s"
  shows "(\<exists>s'. collectFromDevice decode (dialer i) accepts (cancelled i) (duration i)
              \<lparr>ds_dc = devs ! i, ds_ch = [], ds_gone = []\<rparr> = (Blocked, s') \<and> ds_ch s' = []) \<and> sc_wg s \<noteq> 0"
proof -
  let ?s = "\<lparr>ds_dc = devs ! i, ds_ch = [], ds_gone = []\<rparr>"
  let ?gs = "goroutines decode accepts dialer cancelled duration devs"
  obtain s' where "connect decode (dialer i) ?s = (Blocked, s')" and ch: "ds_ch s' = []"
    using connect_stalls [of "dialer i" ?s decode] assms(2,5) by auto
  then have cfd: "collectFromDevice decode (dialer i) accepts (cancelled i) (duration i) ?s = (Blocked, s')"
    by (simp add: collectFromDevice_def collect_def recovered_def gbind_def Let_def)
  have sound: "\<forall>d \<in> set devs. sound_dc d" using real_devices_returns [OF assms(1), of resolve] assms(3) by auto
  have s0: "s0 = started ?gs" using Collect_starts [OF assms(3)] assms(6) by simp
  have g: "?gs ! i = Running [] False"
    using assms(4) cfd ch by (simp add: goroutines_def nth_enumerate_eq goroutine_of_def from_device_def)
  have "\<forall>g \<in> set ?gs. g \<noteq> Finished"
    by (intro ballI all_running) (rule goroutines_nth [OF sound], simp_all)
  with assms(7) have "interleaves ?gs s" unfolding s0 by (intro interleaves_reachable)
  moreover have "?gs ! i \<in> set ?gs" using assms(4) by simp
  ultimately have "sc_wg s \<noteq> 0" using wg_0_done [of ?gs s "?gs ! i"] g by (metis gets_done.simps(1))
  with cfd ch show ?thesis by blast
qed

definition mute_conn :: conn where
  \<comment> \<open>a peer that takes everything and says nothing\<close>
  "mute_conn = (test_conn [])\<lparr>cn_rx := \<lparr>rs_in = [], rs_end = Silent\<rparr>\<rparr>"

theorem silent_device_hangs_witness:
  "\<exists>s0. mikrotik_Collect (\<lambda>_ _. Inl ErrNoServersDefined)
       (from_device ascii_only (\<lambda>_ _. True) (\<lambda>_ _ _ _ _. Inr mute_conn) (\<lambda>_ _. True) (\<lambda>_. f64_zero))
       \<lparr>mk_devices = [newDeviceCollector zero_device [dns_rc]], mk_collectors = []\<rparr> = Return s0
     \<and> (\<forall>s. step\<^sup>*\<^sup>* s0 s \<longrightarrow> sc_wg s \<noteq> 0)"
proof -
  let ?dc = "newDeviceCollector zero_device [dns_rc]"
  let ?c = "\<lparr>mk_devices = [?dc], mk_collectors = []\<rparr> :: mikrotikCollector"
  let ?net = "\<lambda>_ _ _ _ _. Inr mute_conn :: goerror + conn"
  have sound: "\<forall>d \<in> set (mk_devices ?c). sound_dc d" by (simp add: dns_rc_good good_rc_sound)
  have devs: "real_devices (\<lambda>_ _. Inl ErrNoServersDefined) (mk_devices ?c) = Return [?dc]"
    by (simp add: devices_of_def newDeviceCollector_def zero_device_def Let_def)
  let ?wss = "[[''!re'', ''=name=r1''], [''!done'']]"
  have "encodeSentences ?wss = [] @ encodeSentences ?wss" by simp
  moreover have "encodeSentences ?wss \<noteq> []"
    by (simp add: encodeSentences_def encodeSentence_def encodeWord_def encodeLength_def)
  moreover note good_reply_example(1)
  moreover have "ready (NewClient mute_conn)" "cn_rx (cl_rwc (NewClient mute_conn)) = \<lparr>rs_in = [], rs_end = Silent\<rparr>"
    by (simp_all add: ready_def idle_def stuck_writer_def NewClient_def NewWriter_def writable_def test_conn_def mute_conn_def)
  moreover have "dial (?net 0) (dc_device ?dc) = Inr mute_conn" "dc_cl ?dc = None"
    by (simp_all add: dial_def newDeviceCollector_def Let_def)
  ultimately have "stalls (?net 0) ([?dc] ! 0)" unfolding stalls_def by fastforce
  from silent_device_hangs [OF sound ascii_only devs _ this Collect_starts [OF devs]] Collect_starts [OF devs] show ?thesis
    by (intro exI conjI allI impI) auto
qed


section \<open>From the configuration to the collectors\<close>

definition found :: "client RegisteredCollector gomap \<Rightarrow> string \<Rightarrow> client RouterOSCollector option" where
  "found reg k = (case InstanateCollector reg k of Return col \<Rightarrow> col | _ \<Rightarrow> None)"

lemma create_loop_spec:
  assumes "\<forall>k \<in> set ks. \<exists>col. InstanateCollector reg k = Return col"
  shows "\<exists>ci. create_loop reg ks m = Return ci
     \<and> (\<forall>k. mget ci k = (if k \<in> set ks \<and> found reg k \<noteq> None then found reg k else mget m k))"
  using assms
proof (induction ks arbitrary: m)
  case (Cons k ks)
  then obtain col where col: "InstanateCollector reg k = Return col" by auto
  then have fk: "found reg k = col" by (simp add: found_def)
  let ?m = "case col of Some c \<Rightarrow> mput k c m | None \<Rightarrow> m"
  obtain ci where ci: "create_loop reg ks ?m = Return ci"
    and look: "\<forall>k. mget ci k = (if k \<in> set ks \<and> found reg k \<noteq> None then found reg k else mget ?m k)"
    using Cons.IH [of ?m] Cons.prems by auto
  have "mget ?m j = (if j = k \<and> col \<noteq> None then col else mget m j)" for j by (cases col) auto
  with look fk have "\<forall>j. mget ci j = (if j \<in> set (k # ks) \<and> found reg j \<noteq> None then found reg j else mget m j)" by auto
  with ci col show ?case by simp
qed simp

lemma instanate_returns: "\<exists>col. InstanateCollector (registry now) n = Return col"
  using instanate_registered [of n now] instanate_unknown [of n "registry now"] by blast

lemma new_devices_spec:
  assumes "\<forall>d \<in> set ds. \<exists>f. DeviceFeatures cfg (dev_Name d) = Return f"
  shows "\<exists>dcs. new_devices cfg ci ds = Return dcs \<and> list_all2 (\<lambda>d dc. \<exists>f. DeviceFeatures cfg (dev_Name d) = Return f
     \<and> dc = newDeviceCollector d (get ci (FeatureNames f) f)) ds dcs"
  using assms by (induction ds) auto

definition built_for :: "client RegisteredCollector gomap \<Rightarrow> Config \<Rightarrow> Device \<Rightarrow> deviceCollector \<Rightarrow> bool" where
  \<comment> \<open>the device collector has the features of its device, in order, each with its configuration and
     with what the registry gives for its name\<close>
  "built_for reg cfg d dc \<longleftrightarrow> (\<exists>f. DeviceFeatures cfg (dev_Name d) = Return f
     \<and> dc = newDeviceCollector d (dc_collectors dc)
     \<and> map rc_name (dc_collectors dc) = FeatureNames f
     \<and> (\<forall>rc \<in> set (dc_collectors dc). rc_featureConf rc = ConfigFor f (rc_name rc)
          \<and> InstanateCollector reg (rc_name rc) = Return (rc_collector rc)))"

lemma newDeviceCollector_collectors [simp]: "dc_collectors (newDeviceCollector d drcs) = drcs"
  by (simp add: newDeviceCollector_def Let_def)

lemma NewCollector_built:
  assumes "good_config names cfg"
  shows "\<exists>c. NewCollector (registry now) cfg = Return c
     \<and> list_all2 (built_for (registry now) cfg) (cfg_Devices cfg) (mk_devices c)
     \<and> (\<forall>dc \<in> set (mk_devices c). \<forall>rc \<in> set (dc_collectors dc). \<forall>k. rc_collector rc = Some k \<longrightarrow> k \<in> set (mk_collectors c))"
proof -
  obtain ns where ns: "AllEnabledFeatures cfg = Return ns"
    and fs: "\<forall>d \<in> set (cfg_Devices cfg). \<exists>f. DeviceFeatures cfg (dev_Name d) = Return f \<and> set (FeatureNames f) \<subseteq> set ns"
    using enabled_features_good [OF assms] by blast
  obtain ci where ci: "create_loop (registry now) ns [] = Return ci"
    and look: "\<forall>k. mget ci k = (if k \<in> set ns \<and> found (registry now) k \<noteq> None then found (registry now) k else mget [] k)"
    using create_loop_spec [of ns "registry now" "[]"] instanate_returns by blast
  obtain dcs where dcs: "new_devices cfg ci (cfg_Devices cfg) = Return dcs"
    and each: "list_all2 (\<lambda>d dc. \<exists>f. DeviceFeatures cfg (dev_Name d) = Return f
     \<and> dc = newDeviceCollector d (get ci (FeatureNames f) f)) (cfg_Devices cfg) dcs"
    using new_devices_spec [of "cfg_Devices cfg" cfg ci] fs by blast
  have look': "InstanateCollector (registry now) k = Return (mget ci k)" if "k \<in> set ns" for k
    using instanate_returns [of now k] look that by (auto simp: found_def)
  have "list_all2 (built_for (registry now) cfg) (cfg_Devices cfg) dcs"
    using each
  proof (rule list.rel_mono_strong)
    fix d dc assume d: "d \<in> set (cfg_Devices cfg)" and "\<exists>f. DeviceFeatures cfg (dev_Name d) = Return f
       \<and> dc = newDeviceCollector d (get ci (FeatureNames f) f)"
    then obtain f where f: "DeviceFeatures cfg (dev_Name d) = Return f"
      and dc: "dc = newDeviceCollector d (get ci (FeatureNames f) f)" by blast
    obtain f' where "DeviceFeatures cfg (dev_Name d) = Return f'" "set (FeatureNames f') \<subseteq> set ns"
      using fs d by blast
    with f have "set (FeatureNames f) \<subseteq> set ns" by simp
    with f dc show "built_for (registry now) cfg d dc"
      by (auto simp: built_for_def get_def o_def intro: look')
  qed
  moreover have "k \<in> set (instances ci)" if "dc \<in> set dcs" "rc \<in> set (dc_collectors dc)" "rc_collector rc = Some k" for dc rc k
  proof -
    obtain d f where "dc = newDeviceCollector d (get ci (FeatureNames f) f)"
      using each \<open>dc \<in> set dcs\<close> by (auto simp: list_all2_conv_all_nth in_set_conv_nth)
    with that obtain n where "mget ci n = Some k" by (auto simp: get_def)
    then have "(n, k) \<in> set ci" by (rule mget_in_set)
    then show ?thesis by (force simp: instances_def)
  qed
  ultimately show ?thesis
    using ns ci dcs by (auto simp: NewCollector_def createCollectors_def)
qed

text \<open>
  Property C10: a loaded configuration gives a collector.  For every configuration \<open>Load\<close> accepts
  with the names of the registered collectors, \<open>NewCollector\<close> returns.  It has one device
  collector for every device, in order, whose collectors are the features switched on for the
  device, each with its configuration and with the collector that is registered under exactly its name, and
  \<^verbatim>\<open>Describe\<close> covers all of them.
\<close>

theorem NewCollector_total:
  assumes "Load unmarshal r (AvailableCollectorsNames (registry now)) = Return (Inr cfg)"
  shows "\<exists>c. NewCollector (registry now) cfg = Return c
     \<and> list_all2 (built_for (registry now) cfg) (cfg_Devices cfg) (mk_devices c)
     \<and> (\<forall>dc \<in> set (mk_devices c). \<forall>rc \<in> set (dc_collectors dc).
          case rc_collector rc of None \<Rightarrow> True | Some k \<Rightarrow> set (rc_Describe k) \<subseteq> set (mikrotik_Describe c))"
proof -
  obtain c where "NewCollector (registry now) cfg = Return c"
    and "list_all2 (built_for (registry now) cfg) (cfg_Devices cfg) (mk_devices c)"
    and "\<forall>dc \<in> set (mk_devices c). \<forall>rc \<in> set (dc_collectors dc). \<forall>k. rc_collector rc = Some k \<longrightarrow> k \<in> set (mk_collectors c)"
    using NewCollector_built [OF Load_good [OF assms]] by blast
  then show ?thesis by (auto simp: mikrotik_Describe_def split: option.split)
qed

lemma example_loads:
  "Load (\<lambda>b. Inr example_config) (Inr '''') (AvailableCollectorsNames (registry 0)) = Return (Inr example_loaded)"
  unfolding names_table table_names by code_simp

theorem NewCollector_total_witness:
  "\<exists>c. NewCollector (registry 0) example_loaded = Return c \<and> length (mk_devices c) = 1"
  using NewCollector_total [OF example_loads]
  by (auto dest!: list_all2_lengthD simp: example_loaded_def)

lemma instanate_safe:
  "InstanateCollector (registry now) n = Return col \<Longrightarrow> case col of None \<Rightarrow> True | Some k \<Rightarrow> safe_collector (Return k)"
  using instanate_registered [of n now] instanate_unknown [of n "registry now"]
  by (cases "n \<in> set (AvailableCollectorsNames (registry now))") (auto simp: contract_def)

lemma built_sound:
  assumes "built_for (registry now) cfg d dc"
  shows "sound_dc dc"
proof -
  have dc: "dc = newDeviceCollector d (dc_collectors dc)"
    and inst: "\<forall>rc \<in> set (dc_collectors dc). InstanateCollector (registry now) (rc_name rc) = Return (rc_collector rc)"
    using assms by (auto simp: built_for_def)
  have "\<forall>rc \<in> set (dc_collectors dc). sound_rc rc"
    using inst instanate_safe unfolding sound_rc_def by blast
  then show ?thesis by (subst dc) simp
qed

lemma nil_collector_fails:
  "\<exists>rc \<in> set drcs. rc_collector rc = None \<Longrightarrow>
     fst (gather_loop (run_collector decode accepts) (\<lambda>_. False) drcs k n res s) \<noteq> Return None"
proof (induction drcs arbitrary: k n res s)
  case (Cons rc drcs)
  show ?case
  proof (cases "rc_collector rc")
    case None
    then have "run_collector decode accepts rc s = (Panicked NilDereference, s)" by (simp add: run_collector_def)
    then show ?thesis by (simp add: gbind_def)
  next
    case (Some kk)
    with Cons.prems have ih: "fst (gather_loop (run_collector decode accepts) (\<lambda>_. False) drcs k' n' res' s') \<noteq> Return None" for k' n' res' s'
      using Cons.IH by simp
    obtain r s1 where r: "run_collector decode accepts rc s = (r, s1)" by fastforce
    show ?thesis
      by (cases r) (auto simp: r gbind_def gseq_def Let_def ih split: option.split)
  qed
qed simp

text \<open>
  Property C32: a feature in the wrong case stops its device.  \<open>Load\<close> accepts feature names in any
  case, the registry knows them in one.  When a feature of a device is not the exact name of a
  collector, the device gets a nil collector: running it panics, and gathering the metrics
  of the device never ends without an error as long as the context is not done.
\<close>

theorem wrong_case_fails:
  assumes "Load unmarshal r (AvailableCollectorsNames (registry now)) = Return (Inr cfg)"
    and "NewCollector (registry now) cfg = Return c"
    and "i < length (cfg_Devices cfg)" and "DeviceFeatures cfg (dev_Name (cfg_Devices cfg ! i)) = Return f"
    and "n \<in> set (FeatureNames f)" and "n \<notin> set (AvailableCollectorsNames (registry now))"
    and "dc_collectors (ds_dc s) = dc_collectors (mk_devices c ! i)"
  shows "(\<exists>rc \<in> set (dc_collectors (ds_dc s)). rc_name rc = n
            \<and> (\<forall>t. run_collector decode accepts rc t = (Panicked NilDereference, t)))
     \<and> fst (gatherMetrics decode accepts (\<lambda>_. False) s) \<noteq> Return None"
proof -
  have "list_all2 (built_for (registry now) cfg) (cfg_Devices cfg) (mk_devices c)"
    using NewCollector_built [OF Load_good [OF assms(1)], of now] assms(2) by auto
  then have b: "built_for (registry now) cfg (cfg_Devices cfg ! i) (mk_devices c ! i)"
    using assms(3) by (rule list_all2_nthD)
  then have "n \<in> set (map rc_name (dc_collectors (ds_dc s)))"
    using assms(4,5,7) by (auto simp: built_for_def)
  then obtain rc where rc: "rc \<in> set (dc_collectors (ds_dc s))" "rc_name rc = n" by auto
  then have "InstanateCollector (registry now) n = Return (rc_collector rc)"
    using b assms(7) by (auto simp: built_for_def)
  then have "rc_collector rc = None" using instanate_unknown [OF assms(6)] by simp
  then have "\<exists>rc \<in> set (dc_collectors (ds_dc s)). rc_collector rc = None" using rc(1) by blast
  from nil_collector_fails [OF this] have "fst (gatherMetrics decode accepts (\<lambda>_. False) s) \<noteq> Return None"
    by (simp add: gatherMetrics_def)
  moreover have "run_collector decode accepts rc t = (Panicked NilDereference, t)" for t
    using \<open>rc_collector rc = None\<close> by (simp add: run_collector_def)
  ultimately show ?thesis using rc by blast
qed

definition upper_config :: Config where
  "upper_config = \<lparr>cfg_Features = Some [(''DNS'', None)], cfg_Profiles = [],
     cfg_Devices = [zero_device\<lparr>dev_Name := ''r1'', dev_Address := ''10.0.0.1'', dev_User := ''u'',
                                dev_Password := ''p''\<rparr>]\<rparr>"

definition upper_loaded :: Config where
  "upper_loaded = upper_config\<lparr>cfg_Features := Some [(''DNS'', NewFeatureConf), (''resource'', NewFeatureConf)]\<rparr>"

lemma upper_loads:
  "Load (\<lambda>b. Inr upper_config) (Inr []) (AvailableCollectorsNames (registry 0)) = Return (Inr upper_loaded)"
  unfolding names_table table_names by code_simp

theorem wrong_case_fails_witness:
  "\<exists>c. NewCollector (registry 0) upper_loaded = Return c \<and> (\<forall>s. dc_collectors (ds_dc s) = dc_collectors (mk_devices c ! 0)
     \<longrightarrow> fst (gatherMetrics ascii_only (\<lambda>_ _. True) (\<lambda>_. False) s) \<noteq> Return None)"
proof -
  obtain c where c: "NewCollector (registry 0) upper_loaded = Return c"
    using NewCollector_built [OF Load_good [OF upper_loads], of 0] by blast
  let ?f = "Some [(''DNS'', NewFeatureConf), (''resource'', NewFeatureConf)]"
  have f: "DeviceFeatures upper_loaded (dev_Name (cfg_Devices upper_loaded ! 0)) = Return ?f" by code_simp
  have l: "0 < length (cfg_Devices upper_loaded)" by code_simp
  have n: "''DNS'' \<in> set (FeatureNames ?f)" by code_simp
  have u: "''DNS'' \<notin> set (AvailableCollectorsNames (registry 0))" unfolding names_table table_names by simp
  from wrong_case_fails [OF upper_loads c l f n u] c show ?thesis by blast
qed

definition described :: "desc list \<Rightarrow> metric list \<Rightarrow> metric list \<Rightarrow> bool" where
  "described ds ch ch' \<longleftrightarrow> (\<exists>sent. ch' = ch @ sent \<and> (\<forall>x \<in> set sent. mt_desc x \<in> set ds))"

lemma run_collector_described:
  assumes "rc_collector rc = Some k" and "announcing_collector (Return k)" and "set (rc_Describe k) \<subseteq> set ds"
  shows "keeps (\<lambda>s. described ds ch (ds_ch s)) (run_collector decode accepts rc)"
proof (rule keepsI)
  fix s :: dstate
  assume s: "described ds ch (ds_ch s)"
  show "described ds ch (ds_ch (snd (run_collector decode accepts rc s)))"
  proof (cases "dc_cl (ds_dc s)")
    case None
    with s show ?thesis by (simp add: run_collector_def split: option.split)
  next
    case (Some cl)
    let ?c = "NewCollectorContext (dc_device (ds_dc s)) (Run decode) (rc_name rc) (rc_featureConf rc) accepts"
    have "fresh_ctx ?c" by (simp add: NewCollectorContext_def fresh_ctx_def)
    then have e: "emits (announced (rc_Describe k)) (rc_Collect k ?c)"
      by (rule announcing_collector.announces [OF assms(2) refl])
    obtain r ms where m: "rc_Collect k ?c \<lparr>ms_world = cl, ms_ch = ds_ch s\<rparr> = (r, ms)" by fastforce
    from emitsD [OF e m] obtain new where "ms_ch ms = ds_ch s @ new" "\<forall>x \<in> set new. mt_desc x \<in> set ds"
      using assms(3) by (auto simp: announced_def)
    with s Some m assms(1) show ?thesis
      by (auto simp: run_collector_def Let_def set_dc_def described_def)
  qed
qed

lemma built_announcing:
  assumes "built_for (registry now) cfg d dc" and "rc \<in> set (dc_collectors dc)"
    and "rc_name rc \<in> set (AvailableCollectorsNames (registry now))" and "rc_name rc \<notin> set (no_contract @ device_only)"
  shows "\<exists>k. rc_collector rc = Some k \<and> announcing_collector (Return k)"
proof -
  obtain k where k: "InstanateCollector (registry now) (rc_name rc) = Return (Some k)" "contract (rc_name rc) (Return k)"
    using instanate_registered [OF assms(3)] by blast
  then have "announcing_collector (Return k)" using assms(4) by (auto simp: contract_alt)
  moreover have "InstanateCollector (registry now) (rc_name rc) = Return (rc_collector rc)"
    using assms(1,2) by (auto simp: built_for_def)
  ultimately show ?thesis using k(1) by (intro exI [of _ k]) simp
qed

text \<open>
  Property C17: a scrape sends what was announced.  For a device of a loaded configuration whose
  collectors are registered and none of the seven that break the contract, every metric that
  \<open>collectFromDevice\<close> sends, those of the collectors and those about the scrape, has a
  description that \<open>Describe\<close> has given to the metric library; and it returns unless a peer is silent.
\<close>

theorem scrape_described:
  assumes "Load unmarshal r (AvailableCollectorsNames (registry now)) = Return (Inr cfg)"
    and "NewCollector (registry now) cfg = Return c" and "dc \<in> set (mk_devices c)"
    and "\<forall>rc \<in> set (dc_collectors dc). rc_name rc \<in> set (AvailableCollectorsNames (registry now))
           \<and> rc_name rc \<notin> set (no_contract @ device_only)"
    and "sound_dc (ds_dc s)" and "dc_collectors (ds_dc s) = dc_collectors dc"
  shows "\<exists>r s' sent. collectFromDevice decode dialer accepts cancelled duration s = (r, s')
     \<and> (r = Return () \<or> r = Blocked \<and> quiet dialer (ds_dc s))
     \<and> ds_ch s' = ds_ch s @ sent \<and> (\<forall>x \<in> set sent. mt_desc x \<in> set (mikrotik_Describe c))"
proof -
  let ?D = "mikrotik_Describe c"
  have all: "list_all2 (built_for (registry now) cfg) (cfg_Devices cfg) (mk_devices c)"
    and mem: "\<forall>rc \<in> set (dc_collectors dc). \<forall>k. rc_collector rc = Some k \<longrightarrow> k \<in> set (mk_collectors c)"
    using NewCollector_built [OF Load_good [OF assms(1)], of now] assms(2,3) by auto
  obtain d where b: "built_for (registry now) cfg d dc"
    using all assms(3) by (auto simp: list_all2_conv_all_nth in_set_conv_nth)
  have k: "keeps (\<lambda>t. described ?D (ds_ch s) (ds_ch t)) (run_collector decode accepts rc)"
    if rc: "rc \<in> set (dc_collectors (ds_dc s))" for rc
  proof -
    obtain k where k: "rc_collector rc = Some k" "announcing_collector (Return k)"
      using built_announcing [OF b] rc assms(4,6) by auto
    then have "set (rc_Describe k) \<subseteq> set ?D" using mem rc assms(6) by (auto simp: mikrotik_Describe_def)
    with k show ?thesis by (rule run_collector_described)
  qed
  obtain r s1 where c: "collect decode dialer accepts cancelled s = (r, s1)" by fastforce
  obtain sent where col: "collected_from s (quiet dialer (ds_dc s)) (reliable accepts (dc_collectors (ds_dc s))) r s1 sent"
    and cfd: "scraped_from accepts duration s r s1 sent (collectFromDevice decode dialer accepts cancelled duration s)"
    using collectFromDevice_result [OF assms(5) c] by blast
  have ch: "ds_ch s1 = ds_ch s @ sent" and q: "r = Blocked \<Longrightarrow> quiet dialer (ds_dc s)"
    using col by (simp_all add: collected_from_def)
  have "described ?D (ds_ch s) (ds_ch s1)"
    using collect_keeps [where R = "described ?D (ds_ch s)", OF k _ c] by (simp add: described_def)
  then have own: "\<forall>x \<in> set sent. mt_desc x \<in> set ?D" using ch by (simp add: described_def)
  show ?thesis
  proof (cases "r = Blocked")
    case True
    with cfd q own ch show ?thesis by (simp add: scraped_from_def)
  next
    case False
    with cfd obtain s' where "collectFromDevice decode dialer accepts cancelled duration s = (Return (), s')"
      and "ds_ch s' = ds_ch s @ sent @ about_scrape accepts duration (dc_device (ds_dc s)) (ds_dc s') r"
      by (auto simp: scraped_from_def)
    moreover have "\<forall>x \<in> set (about_scrape accepts duration (dc_device (ds_dc s)) (ds_dc s') r). mt_desc x \<in> set ?D"
      by (auto simp: about_scrape_def taken_def scrape_metrics_def mikrotik_Describe_def
          split: outcome.splits dest!: set_takeWhileD)
    with own have "\<forall>x \<in> set (sent @ about_scrape accepts duration (dc_device (ds_dc s)) (ds_dc s') r). mt_desc x \<in> set ?D"
      by auto
    ultimately show ?thesis by blast
  qed
qed

theorem scrape_described_witness:
  "\<exists>c r s' sent. NewCollector (registry 0) example_loaded = Return c
     \<and> collectFromDevice ascii_only (\<lambda>_ _ _ _. Inl EOF) (\<lambda>_ _. True) (\<lambda>_. False) f64_zero
         \<lparr>ds_dc = mk_devices c ! 0, ds_ch = [], ds_gone = []\<rparr> = (r, s')
     \<and> ds_ch s' = sent \<and> (\<forall>x \<in> set sent. mt_desc x \<in> set (mikrotik_Describe c))"
proof -
  obtain c where c: "NewCollector (registry 0) example_loaded = Return c"
    and all: "list_all2 (built_for (registry 0) example_loaded) (cfg_Devices example_loaded) (mk_devices c)"
    using NewCollector_built [OF Load_good [OF example_loads], of 0] by blast
  have l: "0 < length (cfg_Devices example_loaded)" by code_simp
  let ?dc = "mk_devices c ! 0" let ?s = "\<lparr>ds_dc = ?dc, ds_ch = [], ds_gone = []\<rparr>"
  let ?f = "Some [(''poe'', Some [(''enabled'', YBool False)]), (''resource'', Some [(''enabled'', YBool True)])]"
  have f: "DeviceFeatures example_loaded (dev_Name (cfg_Devices example_loaded ! 0)) = Return ?f" by code_simp
  have n: "FeatureNames ?f = [''resource'']" by code_simp
  have ok: "\<forall>n \<in> set (FeatureNames ?f). n \<in> set (AvailableCollectorsNames (registry 0)) \<and> n \<notin> set (no_contract @ device_only)"
    unfolding n names_table table_names by (simp add: no_contract_def device_only_def)
  have b: "built_for (registry 0) example_loaded (cfg_Devices example_loaded ! 0) ?dc"
    using all l by (rule list_all2_nthD)
  have dc: "?dc \<in> set (mk_devices c)" using all l by (simp add: list_all2_lengthD)
  have s: "sound_dc (ds_dc ?s)" using built_sound [OF b] by simp
  have "map rc_name (dc_collectors ?dc) = FeatureNames ?f" using b f by (auto simp: built_for_def)
  then have r: "rc_name rc \<in> set (FeatureNames ?f)" if "rc \<in> set (dc_collectors ?dc)" for rc
    using that by (metis image_eqI set_map)
  have "\<forall>rc \<in> set (dc_collectors ?dc). rc_name rc \<in> set (AvailableCollectorsNames (registry 0))
           \<and> rc_name rc \<notin> set (no_contract @ device_only)" using r ok by blast
  then show ?thesis
    using scrape_described [OF example_loads c dc _ s, of ascii_only "\<lambda>_ _ _ _. Inl EOF" "\<lambda>_ _. True" "\<lambda>_. False" f64_zero] c
    by auto
qed

text \<open>
  What a device from an SRV record is.  Each target of the record becomes a device with
  the target as name and address, the credentials and the collectors of the configured entry,
  and no connection; but its port, its time limits and TLS are the defaults, whatever is configured.
\<close>

lemma devicesFromSrv_settings:
  assumes "devicesFromSrv resolve dc = Return (Inr devs)"
  shows "\<exists>srv targets. dev_Srv (dc_device dc) = Some srv \<and> resolve (srv_DNS srv) (srv_Record srv) = Inr targets
     \<and> map (\<lambda>d. dev_Address (dc_device d)) devs = targets
     \<and> (\<forall>d \<in> set devs. dev_Name (dc_device d) = dev_Address (dc_device d) \<and> dev_User (dc_device d) = dev_User (dc_device dc)
          \<and> dev_Password (dc_device d) = dev_Password (dc_device dc) \<and> dc_collectors d = dc_collectors dc
          \<and> dc_isSrv d \<and> dc_cl d = None
          \<and> dev_Port (dc_device d) = ''8728'' \<and> \<not> dev_TLS (dc_device d) \<and> \<not> dev_Insecure (dc_device d)
          \<and> dev_Timeout (dc_device d) = 5 \<and> dev_CollectTimeout (dc_device d) = 50)"
proof -
  obtain srv where srv: "dev_Srv (dc_device dc) = Some srv"
    using assms by (auto simp: devicesFromSrv_def Let_def split: option.splits)
  then obtain targets where t: "resolve (srv_DNS srv) (srv_Record srv) = Inr targets"
    using assms by (auto simp: devicesFromSrv_def Let_def split: sum.splits)
  with srv assms show ?thesis
    by (auto simp: devicesFromSrv_def Let_def newDeviceCollector_def zero_device_def APIPort_def DefaultTimeout_def o_def)
qed

end
