(* ===== verification/Cli.thy ===== *)
theory Cli
  imports Exporter
begin

text \<open>
  \<^verbatim>\<open>cli/main.go\<close>: how the configuration comes from a file or from the command line.  The values of
  the flags, the environment and the file are parameters; \<open>visited\<close> are the names \<^verbatim>\<open>flag.Visit\<close> goes
  through, those of the flags that were set on the command line, with whatever value.  A returned
  error of \<open>loadConfig\<close> stands for \<^verbatim>\<open>os.Exit(3)\<close>.
\<close>

record cli_flags =
  fl_configFile :: string
  fl_device :: string
  fl_address :: string
  fl_user :: string
  fl_password :: string
  fl_deviceport :: string
  fl_tls :: bool
  fl_insecure :: bool
  fl_timeout :: int
  fl_withAll :: bool
  fl_logFormat :: string
  fl_logLevel :: string
  fl_metricsPath :: string
  fl_listen :: string
  fl_webConfig :: string
  fl_version :: bool
  fl_listCollectors :: bool
  fl_visited :: "string list"

definition default_flags :: cli_flags where
  \<comment> \<open>the values of the flags when none is set\<close>
  "default_flags = \<lparr>fl_configFile = '''', fl_device = '''', fl_address = '''', fl_user = '''', fl_password = '''',
     fl_deviceport = ''8728'', fl_tls = False, fl_insecure = False, fl_timeout = DefaultTimeout,
     fl_withAll = False, fl_logFormat = '''', fl_logLevel = ''info'', fl_metricsPath = ''/metrics'', fl_listen = '':9436'',
     fl_webConfig = '''', fl_version = False, fl_listCollectors = False, fl_visited = []\<rparr>"

definition loadConfigFromFile :: "(string \<Rightarrow> goerror + Config) \<Rightarrow> (string \<Rightarrow> goerror + string) \<Rightarrow> string list
    \<Rightarrow> cli_flags \<Rightarrow> (goerror + Config) outcome" where
  "loadConfigFromFile unmarshal readFile names fl =
     (case readFile (fl_configFile fl) of
        Inl err \<Rightarrow> Return (Inl (Wrapf ''read file error: %w'' [] err))
      | Inr b \<Rightarrow>
          obind (Load unmarshal (Inr b) names) (\<lambda>r. Return (case r of
            Inl err \<Rightarrow> Inl (Wrapf ''load error: %w'' [] err)
          | Inr cfg \<Rightarrow> Inr cfg)))"

definition loadConfigFromFlags :: "(string \<Rightarrow> string) \<Rightarrow> string list \<Rightarrow> cli_flags \<Rightarrow> goerror + Config" where
  "loadConfigFromFlags getenv names fl =
     (let user = (if fl_user fl = '''' then getenv ''MIKROTIK_USER'' else fl_user fl);
          password = (if fl_password fl = '''' then getenv ''MIKROTIK_PASSWORD'' else fl_password fl)
      in if fl_device fl = '''' \<or> fl_address fl = '''' \<or> user = '''' \<or> password = '''' then Inl ErrMissingParam
         else (let features = mput ''resource'' NewFeatureConf [];
                   features' = (if fl_withAll fl then fold (\<lambda>c. mput c NewFeatureConf) names features else features)
               in Inr \<lparr>cfg_Features = Some features', cfg_Profiles = [],
                    cfg_Devices = [zero_device\<lparr>dev_Name := fl_device fl, dev_Address := fl_address fl,
                      dev_User := user, dev_Password := password, dev_Port := fl_deviceport fl,
                      dev_TLS := fl_tls fl, dev_Insecure := fl_insecure fl, dev_Timeout := fl_timeout fl\<rparr>]\<rparr>))"

fun visit_flags :: "string list \<Rightarrow> Config \<Rightarrow> Config outcome" where
  "visit_flags [] cfg = Return cfg"
| "visit_flags (name # names) cfg =
     (if has_prefix name ''with-'' \<and> name \<noteq> ''with-all''
      then (let feat = drop 5 name
            in case cfg_Features cfg of
                 None \<Rightarrow> Panicked NilMapAssignment
               | Some m \<Rightarrow> visit_flags names (cfg\<lparr>cfg_Features := Some (mput feat NewFeatureConf m)\<rparr>))
      else visit_flags names cfg)"

definition updateConfigFromFlags :: "cli_flags \<Rightarrow> Config \<Rightarrow> Config outcome" where
  "updateConfigFromFlags fl cfg = visit_flags (fl_visited fl) cfg"

definition loadConfig :: "(string \<Rightarrow> goerror + Config) \<Rightarrow> (string \<Rightarrow> goerror + string) \<Rightarrow> (string \<Rightarrow> string)
    \<Rightarrow> string list \<Rightarrow> cli_flags \<Rightarrow> (goerror + Config) outcome" where
  "loadConfig unmarshal readFile getenv names fl =
     obind (if fl_configFile fl \<noteq> '''' then loadConfigFromFile unmarshal readFile names fl
            else Return (loadConfigFromFlags getenv names fl)) (\<lambda>r. case r of
       Inl err \<Rightarrow> Return (Inl err)
     | Inr cfg \<Rightarrow> obind (updateConfigFromFlags fl cfg) (\<lambda>cfg'. Return (Inr cfg')))"

definition defined_flags :: "string list \<Rightarrow> string list" where
  \<comment> \<open>the flags \<open>main\<close> defines for the collectors, and those of the package\<close>
  "defined_flags names = map (\<lambda>n. ''with-'' @ n) names @
     [''address'', ''config-file'', ''device'', ''insecure'', ''log-format'', ''log-level'', ''path'', ''password'',
      ''deviceport'', ''listen-address'', ''timeout'', ''tls'', ''user'', ''version'', ''web-config'',
      ''list-collectors'', ''with-all'']"


section \<open>Lemmas\<close>

definition all_lower :: "string list \<Rightarrow> bool" where
  "all_lower names \<longleftrightarrow> (\<forall>n \<in> set names. ToLower n = n)"

definition registered_config :: "string list \<Rightarrow> Config \<Rightarrow> bool" where
  \<comment> \<open>a good configuration whose features can be written to\<close>
  "registered_config names cfg \<longleftrightarrow> good_config names cfg \<and> cfg_Features cfg \<noteq> None"

lemma good_features_add:
  assumes "good_features names (Some m)" and "ToLower n \<in> set names"
  shows "good_features names (Some (mput n NewFeatureConf m))"
proof -
  have e: "conf_get NewFeatureConf ''enabled'' \<noteq> None" by code_simp
  have "(k, c) \<in> set (mput n v m) \<Longrightarrow> (k, c) \<in> set m \<or> c = v" for k c and v :: FeatureConf
    by (induction m) (auto simp: mput_def split: if_splits)
  with assms e show ?thesis by (fastforce simp: good_features_def feats_def)
qed

lemma registered_add:
  assumes "registered_config names cfg" and "cfg_Features cfg = Some m" and "ToLower n \<in> set names"
  shows "registered_config names (cfg\<lparr>cfg_Features := Some (mput n NewFeatureConf m)\<rparr>)"
  using assms good_features_add by (auto simp: registered_config_def good_config_def)

definition with_flag :: "string \<Rightarrow> string" where
  "with_flag n = ''with-'' @ n"

lemma with_flag_simps [simp]:
  "has_prefix (with_flag n) ''with-''" "drop 5 (with_flag n) = n" "with_flag n = with_flag m \<longleftrightarrow> n = m"
  "with_flag n = ''with-all'' \<longleftrightarrow> n = ''all''"
  by (simp_all add: with_flag_def has_prefix_def)

lemma flag_cases:
  obtains (with_flag) n where "name = with_flag n" "n \<noteq> ''all''"
  | (other) "\<not> (has_prefix name ''with-'' \<and> name \<noteq> ''with-all'')" "\<forall>n. name = with_flag n \<longrightarrow> n = ''all''"
proof (cases "has_prefix name ''with-'' \<and> name \<noteq> ''with-all''")
  case True
  then have "take 5 name = ''with-''" by (simp add: has_prefix_def eval_nat_numeral)
  then have "name = with_flag (drop 5 name)"
    unfolding with_flag_def by (metis append_take_drop_id)
  with True with_flag show ?thesis by (metis with_flag_simps(4))
next
  case False
  with other show ?thesis by (metis with_flag_simps(1,4))
qed

lemma visit_with_flag:
  assumes "n \<noteq> ''all''"
  shows "visit_flags (with_flag n # names) cfg = (case cfg_Features cfg of
       None \<Rightarrow> Panicked NilMapAssignment
     | Some m \<Rightarrow> visit_flags names (cfg\<lparr>cfg_Features := Some (mput n NewFeatureConf m)\<rparr>))"
  unfolding visit_flags.simps Let_def with_flag_simps using assms by (simp only: if_True simp_thms with_flag_simps)

lemma with_flag_defined:
  assumes "with_flag n \<in> set (defined_flags names)" and "n \<noteq> ''all''" shows "n \<in> set names"
proof -
  have "with_flag n \<in> (\<lambda>n. ''with-'' @ n) ` set names"
    using assms unfolding defined_flags_def with_flag_def by simp
  then show ?thesis by (auto simp: with_flag_def)
qed

definition asked :: "cli_flags \<Rightarrow> string \<Rightarrow> bool" where
  \<comment> \<open>the flag of this collector was set on the command line\<close>
  "asked fl n \<longleftrightarrow> with_flag n \<in> set (fl_visited fl) \<and> n \<noteq> ''all''"

lemma visit_flags_good:
  assumes "registered_config names cfg" and "all_lower names" and "set visited \<subseteq> set (defined_flags names)"
  shows "\<exists>cfg'. visit_flags visited cfg = Return cfg' \<and> registered_config names cfg'
     \<and> cfg_Profiles cfg' = cfg_Profiles cfg \<and> cfg_Devices cfg' = cfg_Devices cfg
     \<and> (\<forall>n. mget (feats (cfg_Features cfg')) n = (if with_flag n \<in> set visited \<and> n \<noteq> ''all'' then Some NewFeatureConf
          else mget (feats (cfg_Features cfg)) n))"
  using assms(1,3)
proof (induction visited arbitrary: cfg)
  case (Cons name visited)
  obtain m where m: "cfg_Features cfg = Some m" using Cons.prems(1) by (auto simp: registered_config_def)
  have sub: "set visited \<subseteq> set (defined_flags names)" using Cons.prems(2) by simp
  show ?case
  proof (cases name rule: flag_cases)
    case other
    from other(1) have "visit_flags (name # visited) cfg = visit_flags visited cfg"
      by (simp only: visit_flags.simps if_False)
    moreover have "with_flag n \<in> set (name # visited) \<and> n \<noteq> ''all'' \<longleftrightarrow> with_flag n \<in> set visited \<and> n \<noteq> ''all''" for n
      using other(2) by (metis set_ConsD list.set_intros(2))
    ultimately show ?thesis using Cons.IH [OF Cons.prems(1) sub] by presburger
  next
    case (with_flag n)
    let ?cfg = "cfg\<lparr>cfg_Features := Some (mput n NewFeatureConf m)\<rparr>"
    have "n \<in> set names" using with_flag_defined [of n names] with_flag Cons.prems(2) by simp
    then have "ToLower n \<in> set names" using assms(2) by (simp add: all_lower_def)
    with Cons.prems(1) m have r: "registered_config names ?cfg" by (intro registered_add)
    obtain cfg' where c: "visit_flags visited ?cfg = Return cfg'" "registered_config names cfg'"
      "cfg_Profiles cfg' = cfg_Profiles ?cfg" "cfg_Devices cfg' = cfg_Devices ?cfg"
      "\<forall>k. mget (feats (cfg_Features cfg')) k = (if with_flag k \<in> set visited \<and> k \<noteq> ''all'' then Some NewFeatureConf
          else mget (feats (cfg_Features ?cfg)) k)"
      using Cons.IH [OF r sub] by blast
    have "mget (feats (cfg_Features ?cfg)) k = (if k = n then Some NewFeatureConf else mget (feats (cfg_Features cfg)) k)" for k
      using m by (simp add: feats_def)
    then have "mget (feats (cfg_Features cfg')) k = (if with_flag k \<in> set (name # visited) \<and> k \<noteq> ''all'' then Some NewFeatureConf
          else mget (feats (cfg_Features cfg)) k)" for k
      using c(5) with_flag by simp
    moreover have "visit_flags (name # visited) cfg = visit_flags visited ?cfg"
      unfolding with_flag(1) visit_with_flag [OF with_flag(2)] using m by simp
    ultimately show ?thesis using c by (intro exI [of _ cfg']) simp
  qed
qed simp

lemma all_added:
  "good_features names (Some m) \<Longrightarrow> all_lower names \<Longrightarrow> set ns \<subseteq> set names \<Longrightarrow>
     good_features names (Some (fold (\<lambda>c. mput c NewFeatureConf) ns m))"
proof (induction ns arbitrary: m)
  case (Cons n ns)
  have "ToLower n \<in> set names" using Cons.prems(2,3) by (simp add: all_lower_def)
  from good_features_add [OF Cons.prems(1) this] Cons show ?case by simp
qed simp

lemma flags_good:
  assumes "loadConfigFromFlags getenv names fl = Inr cfg" and "all_lower names"
  shows "registered_config names cfg"
proof -
  let ?m = "mput ''resource'' NewFeatureConf []"
  have "good_features names (Some ?m)"
    by (simp add: good_features_def feats_def mkeys_def mput_def mget_def NewFeatureConf_def conf_get_def)
  then have "good_features names (Some (fold (\<lambda>c. mput c NewFeatureConf) names ?m))" "good_features names (Some ?m)"
    using all_added assms(2) by blast+
  moreover obtain d where "cfg_Devices cfg = [d]" "dev_Profile d = ''''" "\<not> dev_Disabled d" "validateConnConf d = None"
    "cfg_Profiles cfg = []" "cfg_Features cfg = Some (if fl_withAll fl then fold (\<lambda>c. mput c NewFeatureConf) names ?m else ?m)"
    using assms(1) by (auto simp: loadConfigFromFlags_def Let_def validateConnConf_def zero_device_def split: if_splits)
  ultimately show ?thesis by (simp add: registered_config_def good_config_def)
qed

lemma file_good:
  assumes "loadConfigFromFile unmarshal readFile names fl = Return (Inr cfg)"
  shows "registered_config names cfg"
proof -
  obtain b where l: "Load unmarshal (Inr b) names = Return (Inr cfg)"
    using assms by (auto simp: loadConfigFromFile_def obind_def split: sum.splits outcome.splits)
  then have "cfg_Features cfg \<noteq> None"
    by (rule Load_InrE) (auto simp: features_fix_def)
  with Load_good [OF l] show ?thesis by (simp add: registered_config_def)
qed

lemma registry_lower: "all_lower (AvailableCollectorsNames (registry now))"
  unfolding all_lower_def names_table table_names by code_simp

lemma loadConfig_result:
  assumes "loadConfig unmarshal readFile getenv names fl = Return (Inr cfg)"
    and "all_lower names" and "set (fl_visited fl) \<subseteq> set (defined_flags names)"
  shows "registered_config names cfg \<and> (\<forall>n. asked fl n \<longrightarrow> mget (feats (cfg_Features cfg)) n = Some NewFeatureConf)"
proof -
  obtain cfg0 where l: "(if fl_configFile fl \<noteq> '''' then loadConfigFromFile unmarshal readFile names fl
            else Return (loadConfigFromFlags getenv names fl)) = Return (Inr cfg0)"
    and u: "updateConfigFromFlags fl cfg0 = Return cfg"
    using assms(1) by (auto simp: loadConfig_def obind_def split: outcome.splits sum.splits)
  have "registered_config names cfg0"
    using l file_good flags_good [OF _ assms(2)] by (auto split: if_splits)
  from visit_flags_good [OF this assms(2,3)] u show ?thesis
    by (auto simp: updateConfigFromFlags_def asked_def)
qed

text \<open>
  Property C22: whatever way the program is configured, it starts.  When \<open>loadConfig\<close> returns a
  configuration, from a file or from the flags, it meets the guarantees of \<open>Load\<close>, even after
  the \<^verbatim>\<open>-with-\<close> flags have added to it, and \<open>NewCollector\<close> makes a collector of it.  Every
  \<^verbatim>\<open>-with-\<close> flag that was set, with any value, has switched its feature on.
\<close>

theorem loadConfig_starts:
  assumes "loadConfig unmarshal readFile getenv (AvailableCollectorsNames (registry now)) fl = Return (Inr cfg)"
    and "set (fl_visited fl) \<subseteq> set (defined_flags (AvailableCollectorsNames (registry now)))"
  shows "good_config (AvailableCollectorsNames (registry now)) cfg
     \<and> (\<exists>c. NewCollector (registry now) cfg = Return c)
     \<and> (\<forall>n. asked fl n \<longrightarrow> n \<in> set (FeatureNames (cfg_Features cfg)))"
proof -
  have r: "registered_config (AvailableCollectorsNames (registry now)) cfg"
    and a: "\<forall>n. asked fl n \<longrightarrow> mget (feats (cfg_Features cfg)) n = Some NewFeatureConf"
    using loadConfig_result [OF assms(1) registry_lower assms(2)] by blast+
  have "Enabled NewFeatureConf" by code_simp
  then have "n \<in> set (FeatureNames (cfg_Features cfg))" if "asked fl n" for n
    using a that mget_in_set by (fastforce simp: FeatureNames_def image_iff)
  moreover have g: "good_config (AvailableCollectorsNames (registry now)) cfg"
    using r by (simp add: registered_config_def)
  ultimately show ?thesis using NewCollector_built [OF g, of now] by blast
qed

definition test_flags :: cli_flags where
  "test_flags = default_flags\<lparr>fl_device := ''r1'', fl_address := ''10.0.0.1'', fl_user := ''u'',
     fl_visited := [''address'', ''device'', ''user'', ''with-dhcp'']\<rparr>"

definition test_config :: Config where
  "test_config = \<lparr>cfg_Features = Some [(''resource'', NewFeatureConf), (''dhcp'', NewFeatureConf)], cfg_Profiles = [],
     cfg_Devices = [zero_device\<lparr>dev_Name := ''r1'', dev_Address := ''10.0.0.1'', dev_User := ''u'',
       dev_Password := ''p'', dev_Port := ''8728'', dev_Timeout := 5\<rparr>]\<rparr>"

lemma test_config_loads:
  "loadConfig (\<lambda>b. Inl EOF) (\<lambda>f. Inl EOF) (\<lambda>v. if v = ''MIKROTIK_PASSWORD'' then ''p'' else '''')
     (AvailableCollectorsNames (registry 0)) test_flags = Return (Inr test_config)"
  unfolding names_table table_names by code_simp

lemma test_loaded:
  "\<exists>cfg. loadConfig (\<lambda>b. Inl EOF) (\<lambda>f. Inl EOF) (\<lambda>v. if v = ''MIKROTIK_PASSWORD'' then ''p'' else '''')
       (AvailableCollectorsNames (registry 0)) test_flags = Return (Inr cfg)
     \<and> (\<forall>d \<in> set (cfg_Devices cfg). \<forall>f. DeviceFeatures cfg (dev_Name d) = Return f \<longrightarrow>
          FeatureNames f = [''resource'', ''dhcp''])
     \<and> length (cfg_Devices cfg) = 1"
proof (intro exI conjI)
  show "loadConfig (\<lambda>b. Inl EOF) (\<lambda>f. Inl EOF) (\<lambda>v. if v = ''MIKROTIK_PASSWORD'' then ''p'' else '''')
       (AvailableCollectorsNames (registry 0)) test_flags = Return (Inr test_config)" by (rule test_config_loads)
  have "DeviceFeatures test_config ''r1'' = Return (cfg_Features test_config)" by code_simp
  moreover have "FeatureNames (cfg_Features test_config) = [''resource'', ''dhcp'']" by code_simp
  ultimately show "\<forall>d \<in> set (cfg_Devices test_config). \<forall>f. DeviceFeatures test_config (dev_Name d) = Return f \<longrightarrow>
          FeatureNames f = [''resource'', ''dhcp'']"
    by (auto simp: test_config_def)
  show "length (cfg_Devices test_config) = 1" by (simp add: test_config_def)
qed

lemma test_visited: "set (fl_visited test_flags) \<subseteq> set (defined_flags (AvailableCollectorsNames (registry 0)))"
  unfolding names_table table_names defined_flags_def test_flags_def by simp

theorem loadConfig_starts_witness:
  "\<exists>c. NewCollector (registry 0) test_config = Return c \<and> ''dhcp'' \<in> set (FeatureNames (cfg_Features test_config))"
proof -
  have "asked test_flags ''dhcp''" by (simp add: asked_def test_flags_def with_flag_def)
  with loadConfig_starts [OF test_config_loads test_visited] show ?thesis by blast
qed

text \<open>
  The device of the command line.  Without a configuration file the program starts
  exactly when the device, its address, a user and a password are given, the last two by flags
  or by the environment.  It then has this one device, with the port flag as its port, so that TLS
  without a port flag goes to 8728, the port without TLS.
\<close>

lemma loadConfigFromFlags_device:
  "(let user = (if fl_user fl = '''' then getenv ''MIKROTIK_USER'' else fl_user fl);
        password = (if fl_password fl = '''' then getenv ''MIKROTIK_PASSWORD'' else fl_password fl)
    in if fl_device fl \<noteq> '''' \<and> fl_address fl \<noteq> '''' \<and> user \<noteq> '''' \<and> password \<noteq> ''''
       then \<exists>cfg d. loadConfigFromFlags getenv names fl = Inr cfg \<and> cfg_Devices cfg = [d]
              \<and> dev_Name d = fl_device fl \<and> dev_Address d = fl_address fl \<and> dev_User d = user \<and> dev_Password d = password
              \<and> dev_TLS d = fl_tls fl
              \<and> dev_Port (dc_device (newDeviceCollector d cs)) =
                  (if fl_deviceport fl = '''' then (if fl_tls fl then ''8729'' else ''8728'') else fl_deviceport fl)
       else loadConfigFromFlags getenv names fl = Inl ErrMissingParam)
   \<and> fl_deviceport default_flags = ''8728''"
  by (auto simp: loadConfigFromFlags_def Let_def newDeviceCollector_def APIPort_def APIPortTLS_def default_flags_def)

end
