(* ===== verification/Scrapes.thy ===== *)
theory Scrapes
  imports Cli
begin

text \<open>
  The exporter over time.  A device collector lives as long as the program, so one scrape leaves its
  connection, the version of the device and its counter of errors to the next.  The state of the
  exporter is its collector and the clients it has let go of; a step is one whole scrape,
  with any answers of the network, contexts, metric library and DNS, whose \<open>Collect\<close> has returned.  The metrics handler
  allows one request in flight, so a scrape that never returns is the last one: every later one
  is refused.
\<close>

section \<open>One scrape after the other\<close>

record exporter =
  ex_collector :: mikrotikCollector
  ex_gone :: "client list"

definition after :: "(dstate, unit) gom \<Rightarrow> deviceCollector \<Rightarrow> dstate" where
  \<comment> \<open>what a goroutine leaves behind\<close>
  "after run d = snd (run \<lparr>ds_dc = d, ds_ch = [], ds_gone = []\<rparr>)"

definition targets :: "(DNSServer option \<Rightarrow> string \<Rightarrow> goerror + string list) \<Rightarrow> deviceCollector
    \<Rightarrow> deviceCollector list" where
  "targets resolve dc = (case devices_of resolve dc of Return devs \<Rightarrow> devs | _ \<Rightarrow> [])"

fun next_devices :: "(DNSServer option \<Rightarrow> string \<Rightarrow> goerror + string list) \<Rightarrow> (nat \<Rightarrow> (dstate, unit) gom)
    \<Rightarrow> nat \<Rightarrow> deviceCollector list \<Rightarrow> deviceCollector list" where
  \<comment> \<open>the device collectors after a scrape: those of the targets of an SRV record are new in every
     scrape, the entry itself stays as it is; \<open>i\<close> counts the goroutines\<close>
  "next_devices resolve run i [] = []"
| "next_devices resolve run i (dc # dcs) =
     (if dc_isSrv dc then dc # next_devices resolve run (i + length (targets resolve dc)) dcs
      else ds_dc (after (run i) dc) # next_devices resolve run (Suc i) dcs)"

fun next_gone :: "(DNSServer option \<Rightarrow> string \<Rightarrow> goerror + string list) \<Rightarrow> (nat \<Rightarrow> (dstate, unit) gom)
    \<Rightarrow> nat \<Rightarrow> deviceCollector list \<Rightarrow> client list" where
  \<comment> \<open>the clients that are let go of in a scrape\<close>
  "next_gone resolve run i [] = []"
| "next_gone resolve run i (dc # dcs) =
     concat (map (\<lambda>(j, d). ds_gone (after (run j) d)) (enumerate i (targets resolve dc)))
     @ next_gone resolve run (i + length (targets resolve dc)) dcs"

definition next_scrape :: "(DNSServer option \<Rightarrow> string \<Rightarrow> goerror + string list) \<Rightarrow> (nat \<Rightarrow> (dstate, unit) gom)
    \<Rightarrow> exporter \<Rightarrow> exporter" where
  "next_scrape resolve run e =
     (let c = ex_collector e
      in \<lparr>ex_collector = c\<lparr>mk_devices := next_devices resolve run 0 (mk_devices c)\<rparr>,
          ex_gone = ex_gone e @ next_gone resolve run 0 (mk_devices c)\<rparr>)"

inductive reachable :: "mikrotikCollector \<Rightarrow> exporter \<Rightarrow> bool" for c0 where
  started: "reachable c0 \<lparr>ex_collector = c0, ex_gone = []\<rparr>"
| scraped: "reachable c0 e \<Longrightarrow> mikrotik_Collect resolve run (ex_collector e) = Return s0
     \<Longrightarrow> step\<^sup>*\<^sup>* s0 s \<Longrightarrow> sc_wg s = 0
     \<Longrightarrow> run = from_device decode accepts dialer cancelled duration
     \<Longrightarrow> reachable c0 (next_scrape resolve run e)"


text \<open>The goroutines of a scrape are those of the entries, one entry after the other.\<close>

lemma real_devices_targets:
  "\<forall>dc \<in> set dcs. sound_dc dc \<Longrightarrow> real_devices resolve dcs = Return (concat (map (targets resolve) dcs))"
proof (induction dcs)
  case (Cons dc dcs)
  then have "sound_dc dc" by simp
  then have "\<exists>devs. devices_of resolve dc = Return devs"
    using devicesFromSrv_returns [of dc resolve] by (cases "dc_isSrv dc") (auto simp: devices_of_def)
  with Cons show ?case by (auto simp: targets_def)
qed simp

text \<open>When \<open>Collect\<close> returns, every one of its goroutines has.\<close>

fun all_return :: "(nat \<Rightarrow> (dstate, unit) gom) \<Rightarrow> nat \<Rightarrow> deviceCollector list \<Rightarrow> bool" where
  \<comment> \<open>the goroutines of the devices, the first of them with number \<open>i\<close>, return\<close>
  "all_return run i [] \<longleftrightarrow> True"
| "all_return run i (d # ds) \<longleftrightarrow>
     fst (run i \<lparr>ds_dc = d, ds_ch = [], ds_gone = []\<rparr>) = Return () \<and> all_return run (Suc i) ds"

lemma all_return_append:
  "all_return run i (xs @ ys) \<longleftrightarrow> all_return run i xs \<and> all_return run (i + length xs) ys"
  by (induction xs arbitrary: i) auto

lemma all_return_goroutines:
  "all_return run i devs \<longleftrightarrow> (\<forall>g \<in> set (map (\<lambda>(i, d). goroutine_of (run i) d) (enumerate i devs)). gets_done g)"
  by (induction devs arbitrary: i) (auto simp: goroutine_of_def split: prod.split)

lemma goroutine_running: "goroutine_of m d \<noteq> Finished"
  by (simp add: goroutine_of_def split: prod.split)

lemma scrape_returned:
  assumes "real_devices resolve (mk_devices c) = Return devs" and "mikrotik_Collect resolve run c = Return s0"
    and "step\<^sup>*\<^sup>* s0 s" and "sc_wg s = 0"
  shows "all_return run 0 devs"
proof -
  let ?gs = "map (\<lambda>(i, d). goroutine_of (run i) d) (enumerate 0 devs)"
  have s0: "s0 = started ?gs" using assms(1,2) by (simp add: mikrotik_Collect_def)
  have "\<forall>g \<in> set ?gs. g \<noteq> Finished" using goroutine_running by (auto simp del: enumerate_simps)
  then have "interleaves ?gs s" using interleaves_reachable assms(3) s0 by blast
  then show ?thesis unfolding all_return_goroutines using wg_0_done assms(4) by blast
qed

lemma run_to_end:
  "\<forall>g \<in> set gs. g \<noteq> Finished \<and> gets_done g \<Longrightarrow> \<exists>s. step\<^sup>*\<^sup>* (started gs) s \<and> sc_wg s = 0"
proof -
  assume gs: "\<forall>g \<in> set gs. g \<noteq> Finished \<and> gets_done g"
  have "\<exists>s'. step\<^sup>*\<^sup>* s s' \<and> sc_wg s' = 0" if "interleaves gs s" for s
    using that
  proof (induction "sum_list (map work (sc_threads s))" arbitrary: s rule: less_induct)
    case less
    show ?case
    proof (cases "sc_wg s = 0")
      case False
      then obtain s1 where s1: "step s s1" using step_exists [OF less.prems] gs by blast
      then have "\<exists>s'. step\<^sup>*\<^sup>* s1 s' \<and> sc_wg s' = 0"
        using less.hyps [of s1] step_work [OF s1] interleaves_step [OF s1 less.prems] by simp
      with s1 show ?thesis by (meson converse_rtranclp_into_rtranclp)
    qed blast
  qed
  from this [OF interleaves_started] gs show ?thesis by blast
qed


section \<open>What a scrape changes of a device\<close>

definition settings :: "Device \<Rightarrow> Device" where
  \<comment> \<open>a device without what a scrape finds out about it\<close>
  "settings d = d\<lparr>dev_FirmwareVersion := zero_version, dev_Timezone := ''''\<rparr>"

lemma settings_updates [simp]:
  "settings (d\<lparr>dev_FirmwareVersion := v\<rparr>) = settings d" "settings (d\<lparr>dev_Timezone := z\<rparr>) = settings d"
  by (simp_all add: settings_def)

definition has_settings :: "Device \<Rightarrow> dstate \<Rightarrow> bool" where
  "has_settings d s \<longleftrightarrow> settings (dc_device (ds_dc s)) = d"

lemma has_settings_simps [simp]:
  "has_settings d (count_errors n s) = has_settings d s" "has_settings d (count_all s) = has_settings d s"
  "has_settings d (forget_version s) = has_settings d s" "has_settings d (disconnect s) = has_settings d s"
  by (auto simp: has_settings_def count_all_def count_errors_def forget_version_def disconnect_def close_cached_def
      let_go_def set_dc_def split: option.splits)

lemma getVersion_settings:
  "keeps (\<lambda>(c, d). settings d = x) (getVersion decode)"
  by (rule getVersion_keeps) simp_all

lemma load_version_settings: "keeps (has_settings x) (load_version decode)"
proof (rule keepsI)
  fix s assume s: "has_settings x s"
  show "has_settings x (snd (load_version decode s))"
  proof (cases "dc_cl (ds_dc s)")
    case None
    with s show ?thesis by (simp add: load_version_def on_cached_def)
  next
    case (Some cl)
    obtain r cl' d' where v: "getVersion decode (cl, dc_device (ds_dc s)) = (r, (cl', d'))" by (metis prod_cases3)
    have "settings d' = x" using keepsD [OF getVersion_settings _ v] s by (simp add: has_settings_def)
    with s v Some show ?thesis by (simp add: load_version_def on_cached_def set_dc_def has_settings_def)
  qed
qed

lemma run_collector_settings: "keeps (has_settings x) (run_collector decode accepts drc)"
  by (rule keepsI) (auto simp: run_collector_def has_settings_def Let_def set_dc_def split: option.splits prod.splits)

lemma settings_eqD:
  assumes "settings d = settings e"
  shows "dev_Srv d = dev_Srv e" "dev_Name d = dev_Name e" "dev_Address d = dev_Address e"
  using assms by (cases d; cases e; simp add: settings_def)+

lemma collect_settings:
  assumes "dinv s" and "\<forall>drc \<in> set (dc_collectors (ds_dc s)). sound_rc drc" and "\<not> dc_isSrv (ds_dc s)"
    and "collect decode dialer accepts cancelled s = (r, s')" and "r \<noteq> Blocked"
  shows "settings (dc_device (ds_dc s')) = settings (dc_device (ds_dc s)) \<and> dc_isSrv (ds_dc s') = dc_isSrv (ds_dc s)"
proof -
  let ?P = "has_settings (settings (dc_device (ds_dc s)))"
  obtain q s1 where c: "connect decode dialer s = (q, s1)" by fastforce
  then have "q \<noteq> Blocked" using assms(4,5) by (auto simp: collect_def gbind_def)
  with connect_ends [OF assms(1), of dialer decode, unfolded c] obtain res where q: "q = Return res" and t: "same_task s s1"
    by (cases q) (auto simp: connected_from_def)
  have "dc_device (ds_dc s1) = dc_device (ds_dc s)" using t assms(1,3) by (simp add: same_task_def dinv_def)
  then have 1: "?P s1" by (simp add: has_settings_def)
  have "keeps ?P (gatherMetrics decode accepts cancelled)"
  proof (rule keepsI)
    fix t assume "?P t"
    moreover have "keeps ?P (gather_loop (run_collector decode accepts) cancelled drcs 0 0 None)" for drcs
      by (rule keeps_gather_loop) (simp_all add: run_collector_settings)
    ultimately show "?P (snd (gatherMetrics decode accepts cancelled t))" by (simp add: gatherMetrics_def keeps_def)
  qed
  then have "keeps ?P (collect_connected decode accepts cancelled)"
    unfolding collect_connected_def wrapped_def
    by (intro keeps_gbind keeps_case_option keeps_gseq keeps_gupdate keeps_gret load_version_settings) simp_all
  then have "?P (snd (collect_connected decode accepts cancelled s1))" using 1 by (simp add: keeps_def)
  then have "?P (snd (deferred disconnect (collect_connected decode accepts cancelled) s1))"
    by (auto simp: deferred_def split: prod.splits outcome.splits)
  with 1 c q assms(4) have p: "?P s'"
    by (cases res) (auto simp: collect_def gbind_def gseq_def)
  then have "dev_Srv (dc_device (ds_dc s')) = dev_Srv (dc_device (ds_dc s))"
    by (auto simp: has_settings_def dest: settings_eqD)
  moreover have "dinv s'" using collect_outcome [OF assms(1,2,4)] assms(5) by (auto simp: collected_from_def)
  ultimately show ?thesis using p assms(1) by (simp add: has_settings_def dinv_def)
qed

lemma newDeviceCollector_start [simp]:
  "dc_cl (newDeviceCollector d drcs) = None" "dc_isSrv (newDeviceCollector d drcs) = (dev_Srv d \<noteq> None)"
  by (simp_all add: newDeviceCollector_def Let_def)

lemma scraped_device:
  assumes "sound_dc d" and "\<not> dc_isSrv d"
    and "fst (from_device decode accepts dialer cancelled duration i \<lparr>ds_dc = d, ds_ch = [], ds_gone = []\<rparr>) = Return ()"
  shows "sound_dc (ds_dc (after (from_device decode accepts dialer cancelled duration i) d))"
    and "dc_collectors (ds_dc (after (from_device decode accepts dialer cancelled duration i) d)) = dc_collectors d"
    and "settings (dc_device (ds_dc (after (from_device decode accepts dialer cancelled duration i) d)))
       = settings (dc_device d)"
    and "\<not> dc_isSrv (ds_dc (after (from_device decode accepts dialer cancelled duration i) d))"
    and "cl \<in> set (ds_gone (after (from_device decode accepts dialer cancelled duration i) d)) \<Longrightarrow> cl_closing cl"
proof -
  let ?s = "\<lparr>ds_dc = d, ds_ch = [], ds_gone = []\<rparr>" let ?run = "from_device decode accepts dialer cancelled duration i"
  have snd: "sound_dc (ds_dc ?s)" using assms(1) by simp
  obtain r s1 where c: "collect decode (dialer i) accepts (cancelled i) ?s = (r, s1)" by fastforce
  obtain sent where o: "collected_from ?s (quiet (dialer i) d) (reliable accepts (dc_collectors d)) r s1 sent"
    and f: "scraped_from accepts (duration i) ?s r s1 sent
      (collectFromDevice decode (dialer i) accepts (cancelled i) (duration i) ?s)"
    using collectFromDevice_result [OF snd c, of "duration i"] by auto
  from f assms(3) have r: "r \<noteq> Blocked" by (auto simp: scraped_from_def from_device_def)
  with f obtain s' where "collectFromDevice decode (dialer i) accepts (cancelled i) (duration i) ?s = (Return (), s')"
    and s': "sound_dc (ds_dc s')" "ds_dc s' = ds_dc s1" "ds_gone s' = ds_gone s1"
    by (auto simp: scraped_from_def)
  then have a: "after ?run d = s'" by (simp add: after_def from_device_def)
  have i: "dinv ?s" and rc: "\<forall>drc \<in> set (dc_collectors (ds_dc ?s)). sound_rc drc"
    using assms(1) by (simp_all add: sound_dc_def dinv_def)
  have "all_closed s1" using o r assms(2) by (simp add: collected_from_def all_closed_def)
  moreover have "dc_collectors (ds_dc s1) = dc_collectors d"
    using collect_keeps [OF _ _ c, where R = "\<lambda>_. True"] by (simp add: keeps_def)
  moreover have "settings (dc_device (ds_dc s1)) = settings (dc_device d)" "\<not> dc_isSrv (ds_dc s1)"
    using collect_settings [OF i rc _ c r] assms(2) by simp_all
  ultimately show "sound_dc (ds_dc (after ?run d))" "dc_collectors (ds_dc (after ?run d)) = dc_collectors d"
    "settings (dc_device (ds_dc (after ?run d))) = settings (dc_device d)" "\<not> dc_isSrv (ds_dc (after ?run d))"
    "cl \<in> set (ds_gone (after ?run d)) \<Longrightarrow> cl_closing cl"
    using a s' by (auto simp: all_closed_def)
qed


section \<open>The invariant of the exporter\<close>

definition carries_on :: "deviceCollector \<Rightarrow> deviceCollector \<Rightarrow> bool" where
  \<comment> \<open>what a device collector has become of: an entry with an SRV record is unchanged and has no
     connection; another is fit to be collected from, for the same device and the same collectors\<close>
  "carries_on d0 d \<longleftrightarrow> sound_dc d \<and>
     (if dc_isSrv d0 then d = d0
      else \<not> dc_isSrv d \<and> dc_collectors d = dc_collectors d0 \<and> settings (dc_device d) = settings (dc_device d0))"

lemma carries_on_next:
  "list_all2 carries_on d0s ds
     \<Longrightarrow> all_return (from_device decode accepts dialer cancelled duration) i (concat (map (targets resolve) ds)) \<Longrightarrow>
     list_all2 carries_on d0s (next_devices resolve (from_device decode accepts dialer cancelled duration) i ds)"
proof (induction d0s ds arbitrary: i rule: list_all2_induct)
  case (Cons d0 d0s d ds)
  show ?case
  proof (cases "dc_isSrv d0")
    case True
    then have "d = d0" using Cons.hyps by (simp add: carries_on_def)
    with True Cons.hyps Cons.IH Cons.prems show ?thesis by (simp add: all_return_append)
  next
    case False
    with Cons.hyps have "sound_dc d" "\<not> dc_isSrv d" by (simp_all add: carries_on_def)
    moreover from this have t: "targets resolve d = [d]" by (simp add: targets_def devices_of_def)
    ultimately have s: "carries_on d0 (ds_dc (after (from_device decode accepts dialer cancelled duration i) d))"
      using scraped_device(1-4) [of d decode accepts dialer cancelled duration i] Cons.hyps Cons.prems False
      by (simp add: carries_on_def)
    with t \<open>\<not> dc_isSrv d\<close> Cons.IH [of "Suc i"] Cons.prems show ?thesis by simp
  qed
qed simp

lemma next_gone_closed:
  "\<forall>d \<in> set ds. sound_dc d \<and> \<not> dc_isSrv d
     \<Longrightarrow> all_return (from_device decode accepts dialer cancelled duration) i (concat (map (targets resolve) ds)) \<Longrightarrow>
     \<forall>cl \<in> set (next_gone resolve (from_device decode accepts dialer cancelled duration) i ds). cl_closing cl"
proof (induction ds arbitrary: i)
  case (Cons d ds)
  then have t: "targets resolve d = [d]" by (simp add: targets_def devices_of_def)
  have "\<forall>cl \<in> set (ds_gone (after (from_device decode accepts dialer cancelled duration i) d)). cl_closing cl"
    using scraped_device(5) [of d decode accepts dialer cancelled duration i] Cons.prems t by auto
  with t show ?case using Cons.IH [of "Suc i"] Cons.prems by auto
qed simp

lemma reachable_inv:
  assumes "reachable c0 e" and "\<forall>d \<in> set (mk_devices c0). sound_dc d"
  shows "list_all2 carries_on (mk_devices c0) (mk_devices (ex_collector e))
     \<and> mk_collectors (ex_collector e) = mk_collectors c0
     \<and> ((\<forall>d \<in> set (mk_devices c0). \<not> dc_isSrv d) \<longrightarrow> (\<forall>cl \<in> set (ex_gone e). cl_closing cl))"
  using assms(1)
proof (induction rule: reachable.induct)
  case started
  have "list_all2 carries_on (mk_devices c0) (mk_devices c0)"
    using assms(2) by (auto simp: list_all2_conv_all_nth carries_on_def)
  then show ?case by simp
next
  case (scraped e resolve run s0 s decode accepts dialer cancelled duration)
  let ?ds = "mk_devices (ex_collector e)"
  have l: "list_all2 carries_on (mk_devices c0) ?ds" using scraped.IH by blast
  have from0: "\<exists>d0 \<in> set (mk_devices c0). carries_on d0 d" if "d \<in> set ?ds" for d
    using that l by (metis in_set_conv_nth list_all2_conv_all_nth)
  then have "\<forall>d \<in> set ?ds. sound_dc d" by (auto simp: carries_on_def)
  then have "real_devices resolve ?ds = Return (concat (map (targets resolve) ?ds))" by (rule real_devices_targets)
  from scrape_returned [OF this scraped.hyps(2-4)]
  have ret: "all_return (from_device decode accepts dialer cancelled duration) 0 (concat (map (targets resolve) ?ds))"
    using scraped.hyps(5) by simp
  have "\<forall>cl \<in> set (next_gone resolve run 0 ?ds). cl_closing cl" if "\<forall>d \<in> set (mk_devices c0). \<not> dc_isSrv d"
    unfolding scraped.hyps(5)
  proof (rule next_gone_closed [OF _ ret], rule ballI)
    fix d assume "d \<in> set ?ds"
    with from0 that show "sound_dc d \<and> \<not> dc_isSrv d" by (auto simp: carries_on_def)
  qed
  with carries_on_next [OF l ret] scraped.IH scraped.hyps(5) show ?case by (auto simp: next_scrape_def Let_def)
qed


text \<open>
  Property C4: the exporter over any number of scrapes.  Start the program with any configuration
  it accepts, and let any number of scrapes pass, whatever the devices, the network, the DNS and the metric
  library do in them.  There still is one device collector for every device of the configuration,
  with the same settings and the same collectors; a connection it keeps is open and no command
  is running on it; an SRV entry keeps none.  Without SRV entries, every client that was let go of
  has been closed, so no connection leaks.
\<close>

theorem exporter_invariant:
  assumes "loadConfig unmarshal readFile getenv (AvailableCollectorsNames (registry now)) fl = Return (Inr cfg)"
    and "set (fl_visited fl) \<subseteq> set (defined_flags (AvailableCollectorsNames (registry now)))"
    and "NewCollector (registry now) cfg = Return c0" and "reachable c0 e"
  shows "length (mk_devices (ex_collector e)) = length (cfg_Devices cfg)
     \<and> mk_collectors (ex_collector e) = mk_collectors c0
     \<and> (\<forall>i < length (cfg_Devices cfg).
          let d0 = mk_devices c0 ! i; d = mk_devices (ex_collector e) ! i
          in sound_dc d \<and> dc_isSrv d = (dev_Srv (cfg_Devices cfg ! i) \<noteq> None)
             \<and> settings (dc_device d) = settings (dc_device d0) \<and> dc_collectors d = dc_collectors d0
             \<and> (case dc_cl d of None \<Rightarrow> True | Some cl \<Rightarrow> \<not> dc_isSrv d \<and> idle cl \<and> \<not> cl_closing cl))
     \<and> ((\<exists>d \<in> set (cfg_Devices cfg). dev_Srv d \<noteq> None) \<or> (\<forall>cl \<in> set (ex_gone e). cl_closing cl))"
proof -
  have g: "good_config (AvailableCollectorsNames (registry now)) cfg"
    using loadConfig_result [OF assms(1) registry_lower assms(2)] by (simp add: registered_config_def)
  have b: "list_all2 (built_for (registry now) cfg) (cfg_Devices cfg) (mk_devices c0)"
    using NewCollector_built [OF g, of now] assms(3) by auto
  then have l0: "length (mk_devices c0) = length (cfg_Devices cfg)" by (simp add: list_all2_lengthD)
  have snd: "\<forall>d \<in> set (mk_devices c0). sound_dc d"
    using b built_sound by (metis in_set_conv_nth list_all2_conv_all_nth)
  from reachable_inv [OF assms(4) snd]
  have l: "list_all2 carries_on (mk_devices c0) (mk_devices (ex_collector e))"
    and k: "mk_collectors (ex_collector e) = mk_collectors c0"
    and closed: "(\<forall>d \<in> set (mk_devices c0). \<not> dc_isSrv d) \<longrightarrow> (\<forall>cl \<in> set (ex_gone e). cl_closing cl)" by blast+
  have new: "\<exists>cs. mk_devices c0 ! i = newDeviceCollector (cfg_Devices cfg ! i) cs" if "i < length (cfg_Devices cfg)" for i
    using list_all2_nthD [OF b that] unfolding built_for_def by blast
  have srv: "dc_isSrv (mk_devices c0 ! i) = (dev_Srv (cfg_Devices cfg ! i) \<noteq> None)"
    "dc_cl (mk_devices c0 ! i) = None" if "i < length (cfg_Devices cfg)" for i
    using new [OF that] by auto
  have plain: "\<forall>d \<in> set (mk_devices c0). \<not> dc_isSrv d" if "\<not> (\<exists>d \<in> set (cfg_Devices cfg). dev_Srv d \<noteq> None)"
    using that srv(1) l0 by (metis in_set_conv_nth)
  have each: "let d0 = mk_devices c0 ! i; d = mk_devices (ex_collector e) ! i
          in sound_dc d \<and> dc_isSrv d = (dev_Srv (cfg_Devices cfg ! i) \<noteq> None)
             \<and> settings (dc_device d) = settings (dc_device d0) \<and> dc_collectors d = dc_collectors d0
             \<and> (case dc_cl d of None \<Rightarrow> True | Some cl \<Rightarrow> \<not> dc_isSrv d \<and> idle cl \<and> \<not> cl_closing cl)"
    if i: "i < length (cfg_Devices cfg)" for i
    using list_all2_nthD [OF l, of i] srv [OF i] i l0
    by (auto simp: Let_def carries_on_def sound_dc_def healthy_def split: option.split if_splits)
  have "length (mk_devices (ex_collector e)) = length (cfg_Devices cfg)"
    using l0 list_all2_lengthD [OF l] by simp
  moreover have "(\<exists>d \<in> set (cfg_Devices cfg). dev_Srv d \<noteq> None) \<or> (\<forall>cl \<in> set (ex_gone e). cl_closing cl)"
    using plain closed by blast
  ultimately show ?thesis using k each by (intro conjI allI impI)
qed

lemma scrape_completes:
  assumes "\<forall>d \<in> set devs. sound_dc d" and "\<not> some_quiet dialer devs"
  shows "\<exists>s. step\<^sup>*\<^sup>* (started (goroutines decode accepts dialer cancelled duration devs)) s \<and> sc_wg s = 0"
proof (rule run_to_end, rule ballI)
  fix g assume "g \<in> set (goroutines decode accepts dialer cancelled duration devs)"
  then obtain i where "i < length devs" "g = goroutines decode accepts dialer cancelled duration devs ! i"
    by (metis goroutines_length in_set_conv_nth)
  with goroutines_nth [OF assms(1)] assms(2) show "g \<noteq> Finished \<and> gets_done g"
    unfolding some_quiet_def by (metis gets_done.simps(1) goroutine.distinct(1))
qed

theorem exporter_invariant_witness:
  "\<exists>c0. NewCollector (registry 0) test_config = Return c0
     \<and> (let e = next_scrape (\<lambda>_ _. Inl ErrNoServersDefined)
         (from_device ascii_only (\<lambda>_ _. True) (\<lambda>_ _ _ _ _. Inr (test_conn [])) (\<lambda>_ _. False) (\<lambda>_. f64_zero))
         \<lparr>ex_collector = c0, ex_gone = []\<rparr>
        in reachable c0 e \<and> length (mk_devices (ex_collector e)) = 1)"
proof -
  have g: "good_config (AvailableCollectorsNames (registry 0)) test_config"
    using loadConfig_result [OF test_config_loads registry_lower test_visited] by (simp add: registered_config_def)
  obtain c0 where c: "NewCollector (registry 0) test_config = Return c0"
    and b: "list_all2 (built_for (registry 0) test_config) (cfg_Devices test_config) (mk_devices c0)"
    using NewCollector_built [OF g, of 0] by blast
  let ?dial = "\<lambda>_ _ _ _ _. Inr (test_conn []) :: goerror + conn"
  let ?net = "from_device ascii_only (\<lambda>_ _. True) ?dial (\<lambda>_ _. False) (\<lambda>_. f64_zero)"
  let ?e = "next_scrape (\<lambda>_ _. Inl ErrNoServersDefined) ?net \<lparr>ex_collector = c0, ex_gone = []\<rparr>"
  obtain d dc where d: "cfg_Devices test_config = [d]" "dev_Srv d = None" by (simp add: test_config_def zero_device_def)
  with b obtain dc where dc: "mk_devices c0 = [dc]" "built_for (registry 0) test_config d dc" by (auto simp: list_all2_Cons1)
  then have s: "sound_dc dc" by (blast intro: built_sound)
  from dc(2) obtain cs where cs: "dc = newDeviceCollector d cs" by (auto simp: built_for_def)
  with d(2) have "\<not> dc_isSrv dc" by simp
  with s dc have devs: "real_devices (\<lambda>_ _. Inl ErrNoServersDefined) (mk_devices c0) = Return [dc]"
    by (simp add: devices_of_def)
  have "\<not> quiet (?dial 0) dc" by (rule not_quiet) (simp_all add: cs)
  then have "\<not> some_quiet ?dial [dc]" by (simp add: some_quiet_def)
  with s obtain t where t: "step\<^sup>*\<^sup>* (started (goroutines ascii_only (\<lambda>_ _. True) ?dial (\<lambda>_ _. False) (\<lambda>_. f64_zero) [dc])) t"
    "sc_wg t = 0" using scrape_completes [of "[dc]" ?dial] by fastforce
  have r: "reachable c0 ?e"
    by (rule scraped [OF started _ t refl]) (simp add: Collect_starts [OF devs])
  have "length (cfg_Devices test_config) = 1" by (simp add: test_config_def)
  with exporter_invariant [OF test_config_loads test_visited c r] have "length (mk_devices (ex_collector ?e)) = 1" by simp
  with c r show ?thesis by (intro exI [of _ c0]) (simp only: Let_def simp_thms)
qed

end
