(* ===== verification/Flags.thy ===== *)
theory Flags
  imports Cli "HOL-Library.List_Lexorder" "HOL-Library.Char_ord"
begin

text \<open>
  The command line: the flags of \<^verbatim>\<open>cli/main.go\<close>, and what \<^verbatim>\<open>flag.Parse\<close> and \<^verbatim>\<open>flag.Visit\<close> of the standard library
  make of the arguments.  \<^verbatim>\<open>flag.Parse\<close> ends the program when it does not understand an argument: with
  the code 0 when help was asked for, and 2 otherwise; a code is a left value here.
\<close>

section \<open>Values\<close>

definition ParseBool :: "string \<Rightarrow> bool option" where
  \<comment> \<open>\<^verbatim>\<open>strconv.ParseBool\<close>\<close>
  "ParseBool s =
     (if s \<in> {''1'', ''t'', ''T'', ''TRUE'', ''true'', ''True''} then Some True
      else if s \<in> {''0'', ''f'', ''F'', ''FALSE'', ''false'', ''False''} then Some False
      else None)"

definition int_base :: "string \<Rightarrow> int \<times> string" where
  \<comment> \<open>the base of a literal and its digits\<close>
  "int_base s =
     (case s of
        c # r \<Rightarrow>
          if c \<noteq> CHR ''0'' then (10, s)
          else if length s < 3 then (8, r)
          else (let p = lower_char (hd r)
                in if p = CHR ''b'' then (2, tl r) else if p = CHR ''o'' then (8, tl r)
                   else if p = CHR ''x'' then (16, tl r) else (8, r))
      | [] \<Rightarrow> (10, s))"

definition digit_of :: "char \<Rightarrow> int option" where
  "digit_of c =
     (if is_digit c then Some (digit_val c)
      else (let n = char_code (lower_char c) in if 97 \<le> n \<and> n \<le> 122 then Some (n - 87) else None))"

fun scan_int :: "int \<Rightarrow> string \<Rightarrow> int \<Rightarrow> int option" where
  "scan_int base [] n = Some n"
| "scan_int base (c # cs) n =
     (if c = CHR ''_'' then scan_int base cs n
      else case digit_of c of
             None \<Rightarrow> None
           | Some d \<Rightarrow> if base \<le> d then None else scan_int base cs (n * base + d))"

definition ParseInt0 :: "string \<Rightarrow> int option" where
  \<comment> \<open>\<^verbatim>\<open>strconv.ParseInt(s, 0, 64)\<close>: a base prefix and underscores are allowed\<close>
  "ParseInt0 s =
     (let (neg, t) = split_sign s
      in if t = [] then None
         else let (base, ds) = int_base t
              in case scan_int base ds 0 of
                   None \<Rightarrow> None
                 | Some un \<Rightarrow>
                     if CHR ''_'' \<in> set ds \<and> \<not> underscore_ok t then None
                     else if (if neg then 2 ^ 63 < un else 2 ^ 63 \<le> un) then None
                     else Some (if neg then - un else un))"

lemma scan_int_digits:
  "all_digits ds \<Longrightarrow> scan_int 10 ds n = Some (dec_val n ds)"
proof (induction ds arbitrary: n)
  case (Cons c ds)
  then have "c \<noteq> CHR ''_''" "digit_val c < 10" using digit_not_special [of c] digit_val_range [of c] by auto
  with Cons show ?case by (simp add: digit_of_def)
qed simp


section \<open>Parsing\<close>

definition bool_flags :: "(string \<times> (bool \<Rightarrow> cli_flags \<Rightarrow> cli_flags)) list" where
  "bool_flags =
     [(''insecure'', \<lambda>b fl. fl\<lparr>fl_insecure := b\<rparr>),
      (''tls'', \<lambda>b fl. fl\<lparr>fl_tls := b\<rparr>),
      (''version'', \<lambda>b fl. fl\<lparr>fl_version := b\<rparr>),
      (''list-collectors'', \<lambda>b fl. fl\<lparr>fl_listCollectors := b\<rparr>),
      (''with-all'', \<lambda>b fl. fl\<lparr>fl_withAll := b\<rparr>)]"

definition string_flags :: "(string \<times> (string \<Rightarrow> cli_flags \<Rightarrow> cli_flags)) list" where
  "string_flags =
     [(''address'', \<lambda>v fl. fl\<lparr>fl_address := v\<rparr>),
      (''config-file'', \<lambda>v fl. fl\<lparr>fl_configFile := v\<rparr>),
      (''device'', \<lambda>v fl. fl\<lparr>fl_device := v\<rparr>),
      (''log-format'', \<lambda>v fl. fl\<lparr>fl_logFormat := v\<rparr>),
      (''log-level'', \<lambda>v fl. fl\<lparr>fl_logLevel := v\<rparr>),
      (''path'', \<lambda>v fl. fl\<lparr>fl_metricsPath := v\<rparr>),
      (''password'', \<lambda>v fl. fl\<lparr>fl_password := v\<rparr>),
      (''deviceport'', \<lambda>v fl. fl\<lparr>fl_deviceport := v\<rparr>),
      (''listen-address'', \<lambda>v fl. fl\<lparr>fl_listen := v\<rparr>),
      (''user'', \<lambda>v fl. fl\<lparr>fl_user := v\<rparr>),
      (''web-config'', \<lambda>v fl. fl\<lparr>fl_webConfig := v\<rparr>)]"

definition with_names :: "string list \<Rightarrow> string list" where
  \<comment> \<open>the flags for the collectors; their values are not kept, as nobody reads them\<close>
  "with_names names = map (\<lambda>n. ''with-'' @ n) names"

definition is_bool_flag :: "string list \<Rightarrow> string \<Rightarrow> bool" where
  "is_bool_flag names n \<longleftrightarrow> n \<in> fst ` set bool_flags \<or> n \<in> set (with_names names)"

definition set_value :: "string list \<Rightarrow> string \<Rightarrow> string \<Rightarrow> cli_flags \<Rightarrow> cli_flags option" where
  \<comment> \<open>\<^verbatim>\<open>Value.Set\<close>\<close>
  "set_value names n v fl =
     (if is_bool_flag names n
      then map_option (\<lambda>b. case map_of bool_flags n of Some f \<Rightarrow> f b fl | None \<Rightarrow> fl) (ParseBool v)
      else if n = ''timeout'' then map_option (\<lambda>t. fl\<lparr>fl_timeout := t\<rparr>) (ParseInt0 v)
      else map_option (\<lambda>f. f v fl) (map_of string_flags n))"

definition set_flag :: "string list \<Rightarrow> string \<Rightarrow> string \<Rightarrow> cli_flags \<Rightarrow> cli_flags option" where
  \<comment> \<open>the value is set, and the flag is among those that were set\<close>
  "set_flag names n v fl = map_option (\<lambda>fl. fl\<lparr>fl_visited := n # fl_visited fl\<rparr>) (set_value names n v fl)"

fun parse_args :: "string list \<Rightarrow> string list \<Rightarrow> cli_flags \<Rightarrow> int + cli_flags" where
  \<comment> \<open>the loop of \<^verbatim>\<open>Parse\<close> around \<^verbatim>\<open>parseOne\<close>\<close>
  "parse_args names [] fl = Inr fl"
| "parse_args names (s # args) fl =
     (if length s < 2 \<or> hd s \<noteq> CHR ''-'' \<or> s = ''--'' then Inr fl
      else let rest = drop (if s ! 1 = CHR ''-'' then 2 else 1) s;
               name = takeWhile (\<lambda>c. c \<noteq> CHR ''='') rest;
               value = (case dropWhile (\<lambda>c. c \<noteq> CHR ''='') rest of [] \<Rightarrow> None | _ # v \<Rightarrow> Some v)
           in if rest = [] \<or> hd rest = CHR ''-'' \<or> hd rest = CHR ''='' then Inl 2
              else if name \<notin> set (defined_flags names) then Inl (if name = ''help'' \<or> name = ''h'' then 0 else 2)
              else if is_bool_flag names name then
                (case set_flag names name (case value of Some v \<Rightarrow> v | None \<Rightarrow> ''true'') fl of
                   None \<Rightarrow> Inl 2
                 | Some fl' \<Rightarrow> parse_args names args fl')
              else
                (case value of
                   Some v \<Rightarrow> (case set_flag names name v fl of None \<Rightarrow> Inl 2 | Some fl' \<Rightarrow> parse_args names args fl')
                 | None \<Rightarrow>
                     (case args of
                        [] \<Rightarrow> Inl 2
                      | v # args' \<Rightarrow>
                          (case set_flag names name v fl of None \<Rightarrow> Inl 2 | Some fl' \<Rightarrow> parse_args names args' fl'))))"

declare parse_args.simps [simp del]

definition Parse :: "string list \<Rightarrow> string list \<Rightarrow> int + cli_flags" where
  \<comment> \<open>\<^verbatim>\<open>flag.Visit\<close> goes through the flags that were set in the order of their names\<close>
  "Parse names args = map_sum id (\<lambda>fl. fl\<lparr>fl_visited := sort (remdups (fl_visited fl))\<rparr>) (parse_args names args default_flags)"


section \<open>What is parsed\<close>

lemma setters_keep_visited:
  "\<forall>(n, f) \<in> set bool_flags. fl_visited (f b fl) = fl_visited fl"
  "\<forall>(n, f) \<in> set string_flags. fl_visited (f v fl) = fl_visited fl"
  by (simp_all add: bool_flags_def string_flags_def)

lemma set_flag_visited:
  assumes "set_flag names n v fl = Some fl'" shows "fl_visited fl' = n # fl_visited fl"
proof -
  have b: "fl_visited (f b fl) = fl_visited fl" if "map_of bool_flags n = Some f" for f b
    using setters_keep_visited(1) [of b fl] map_of_SomeD [OF that] by blast
  have "fl_visited (f v fl) = fl_visited fl" if "map_of string_flags n = Some f" for f
    using setters_keep_visited(2) [of v fl] map_of_SomeD [OF that] by blast
  with b assms show ?thesis
    unfolding set_flag_def set_value_def by (auto split: if_split_asm option.splits)
qed

text \<open>Only defined flags are ever counted as set.\<close>

lemma parse_args_step:
  assumes "parse_args names (s # args) fl = r"
  obtains (finished) "r = Inr fl"
  | (failed) code where "r = Inl code" "code = 0 \<or> code = 2"
  | (set) name v fl2 args2 where "name \<in> set (defined_flags names)" "set_flag names name v fl = Some fl2"
      "length args2 \<le> length args" "parse_args names args2 fl2 = r"
proof -
  define stop where "stop \<longleftrightarrow> length s < 2 \<or> hd s \<noteq> CHR ''-'' \<or> s = ''--''"
  define rest where "rest = drop (if s ! 1 = CHR ''-'' then 2 else 1) s"
  define name where "name = takeWhile (\<lambda>c. c \<noteq> CHR ''='') rest"
  define val where "val = (case dropWhile (\<lambda>c. c \<noteq> CHR ''='') rest of [] \<Rightarrow> None | _ # v \<Rightarrow> Some v)"
  define bad where "bad \<longleftrightarrow> rest = [] \<or> hd rest = CHR ''-'' \<or> hd rest = CHR ''=''"
  define code where "code = (if name = ''help'' \<or> name = ''h'' then 0 else 2 :: int)"
  define on where "on = (case val of Some v \<Rightarrow> v | None \<Rightarrow> ''true'')"
  have code: "code = 0 \<or> code = 2" by (simp add: code_def)
  note assms [unfolded parse_args.simps(2) Let_def, folded rest_def, folded name_def val_def stop_def bad_def,
      folded code_def on_def]
  with that code show thesis
    by (auto split: if_split_asm option.split_asm list.split_asm) (metis le_SucI order_refl)+
qed

lemma parse_args_code: "parse_args names args fl = Inl code \<Longrightarrow> code = 0 \<or> code = 2"
proof (induction args arbitrary: fl rule: length_induct)
  case (1 args)
  show ?case
  proof (cases args)
    case (Cons s args')
    from "1.prems" [unfolded Cons] show ?thesis
    proof (cases rule: parse_args_step)
      case (set name v fl2 args2)
      with "1.IH" Cons show ?thesis by (metis le_imp_less_Suc length_Cons)
    qed auto
  qed (use "1.prems" in \<open>simp add: parse_args.simps\<close>)
qed

lemma parse_args_visited:
  assumes "parse_args names args fl = Inr fl'" and "set (fl_visited fl) \<subseteq> set (defined_flags names)"
  shows "set (fl_visited fl') \<subseteq> set (defined_flags names)"
  using assms
proof (induction args arbitrary: fl rule: length_induct)
  case (1 args)
  show ?case
  proof (cases args)
    case Nil
    with "1.prems" show ?thesis by (simp add: parse_args.simps)
  next
    case (Cons s args')
    from "1.prems"(1) [unfolded Cons] show ?thesis
    proof (cases rule: parse_args_step)
      case finished
      with "1.prems"(2) show ?thesis by simp
    next
      case (set name v fl2 args2)
      with "1.prems"(2) set_flag_visited [OF set(2)] have "set (fl_visited fl2) \<subseteq> set (defined_flags names)" by simp
      with set "1.IH" Cons show ?thesis by (metis le_imp_less_Suc length_Cons)
    qed simp
  qed
qed

definition flag_arg :: "string \<times> string \<Rightarrow> string" where
  "flag_arg nv = ''-'' @ fst nv @ ''='' @ snd nv"

definition valid_setting :: "string list \<Rightarrow> string \<times> string \<Rightarrow> bool" where
  "valid_setting names nv \<longleftrightarrow> (case nv of (n, v) \<Rightarrow>
     n \<in> set (defined_flags names) \<and> CHR ''='' \<notin> set n
     \<and> (is_bool_flag names n \<longrightarrow> ParseBool v \<noteq> None) \<and> (n = ''timeout'' \<longrightarrow> ParseInt0 v \<noteq> None))"

definition apply_setting :: "string list \<Rightarrow> string \<times> string \<Rightarrow> cli_flags \<Rightarrow> cli_flags" where
  "apply_setting names nv fl = the (set_flag names (fst nv) (snd nv) fl)"

lemma defined_flag_head:
  assumes "n \<in> set (defined_flags names)" shows "n \<noteq> [] \<and> hd n \<noteq> CHR ''-'' \<and> hd n \<noteq> CHR ''=''"
  using assms by (auto simp: defined_flags_def)

lemma defined_flags_kinds:
  "set (defined_flags names) = set (with_names names) \<union> fst ` set bool_flags \<union> fst ` set string_flags \<union> {''timeout''}"
  by (auto simp: defined_flags_def with_names_def bool_flags_def string_flags_def)

lemma set_flag_valid:
  assumes "valid_setting names (n, v)" shows "set_flag names n v fl = Some (apply_setting names (n, v) fl)"
proof -
  have "is_bool_flag names n \<or> n = ''timeout'' \<or> n \<in> fst ` set string_flags"
    using assms by (auto simp: valid_setting_def is_bool_flag_def defined_flags_kinds)
  moreover have "map_of string_flags n \<noteq> None" if "n \<in> fst ` set string_flags" using that by (simp add: map_of_eq_None_iff)
  ultimately have "set_flag names n v fl \<noteq> None"
    using assms by (auto simp: valid_setting_def set_flag_def set_value_def)
  then show ?thesis by (auto simp: apply_setting_def)
qed

lemma parse_args_settings:
  assumes "\<forall>nv \<in> set settings. valid_setting names nv"
  shows "parse_args names (map flag_arg settings) fl = Inr (fold (apply_setting names) settings fl)"
  using assms
proof (induction settings arbitrary: fl)
  case (Cons nv settings)
  obtain n v where nv: "nv = (n, v)" by (cases nv)
  have val: "valid_setting names (n, v)" using Cons.prems nv by simp
  then have d: "n \<in> set (defined_flags names)" and e: "CHR ''='' \<notin> set n" by (simp_all add: valid_setting_def)
  note h = defined_flag_head [OF d]
  have tw: "takeWhile (\<lambda>c. c \<noteq> CHR ''='') (n @ CHR ''='' # v) = n"
    "dropWhile (\<lambda>c. c \<noteq> CHR ''='') (n @ CHR ''='' # v) = CHR ''='' # v"
    using e by (auto simp: takeWhile_append dropWhile_append)
  obtain c r where n: "n = c # r" using h by (cases n) auto
  have a: "flag_arg nv = CHR ''-'' # n @ CHR ''='' # v" by (simp add: flag_arg_def nv)
  have i: "\<not> (length (flag_arg nv) < 2 \<or> hd (flag_arg nv) \<noteq> CHR ''-'' \<or> flag_arg nv = ''--'')"
    using h by (simp add: a n)
  have r: "drop (if flag_arg nv ! 1 = CHR ''-'' then 2 else 1) (flag_arg nv) = n @ CHR ''='' # v"
    using h by (simp add: a n)
  have hd: "\<not> (n @ CHR ''='' # v = [] \<or> hd (n @ CHR ''='' # v) = CHR ''-'' \<or> hd (n @ CHR ''='' # v) = CHR ''='')"
    using h by (simp add: n)
  have "parse_args names (flag_arg nv # map flag_arg settings) fl
      = parse_args names (map flag_arg settings) (apply_setting names (n, v) fl)"
    unfolding parse_args.simps(2) Let_def r tw using i hd d set_flag_valid [OF val, of fl] by simp
  then show ?case using Cons nv by simp
qed (simp add: parse_args.simps)


text \<open>The values of the flags with a text, and what a setting does to them.\<close>

definition string_values :: "(string \<times> (cli_flags \<Rightarrow> string)) list" where
  "string_values =
     [(''address'', fl_address), (''config-file'', fl_configFile), (''device'', fl_device), (''log-format'', fl_logFormat),
      (''log-level'', fl_logLevel), (''path'', fl_metricsPath), (''password'', fl_password),
      (''deviceport'', fl_deviceport), (''listen-address'', fl_listen), (''user'', fl_user), (''web-config'', fl_webConfig)]"

text \<open>The values of the flags that are switched on or off.\<close>

definition bool_values :: "(string \<times> (cli_flags \<Rightarrow> bool)) list" where
  "bool_values = [(''insecure'', fl_insecure), (''tls'', fl_tls), (''version'', fl_version),
     (''list-collectors'', fl_listCollectors), (''with-all'', fl_withAll)]"

lemma bool_flags_values:
  "\<forall>(n, sel) \<in> set bool_values. \<forall>(m, f) \<in> set bool_flags. sel (f b fl) = (if m = n then b else sel fl)"
  "\<forall>(n, sel) \<in> set bool_values. \<forall>(m, f) \<in> set string_flags. sel (f v fl) = sel fl"
  "\<forall>(n, sel) \<in> set bool_values. sel (fl\<lparr>fl_timeout := t\<rparr>) = sel fl \<and> sel (fl\<lparr>fl_visited := vs\<rparr>) = sel fl"
  "\<forall>(n, sel) \<in> set bool_values. n \<noteq> ''timeout'' \<and> n \<in> fst ` set bool_flags \<and> n \<notin> fst ` set string_flags"
  by (auto simp: bool_values_def string_flags_def bool_flags_def)

lemma string_flags_values:
  "\<forall>(n, sel) \<in> set string_values. \<forall>(m, f) \<in> set string_flags. sel (f v fl) = (if m = n then v else sel fl)"
  "\<forall>(n, sel) \<in> set string_values. \<forall>(m, f) \<in> set bool_flags. sel (f b fl) = sel fl"
  "\<forall>(n, sel) \<in> set string_values. sel (fl\<lparr>fl_timeout := t\<rparr>) = sel fl \<and> sel (fl\<lparr>fl_visited := vs\<rparr>) = sel fl"
  "\<forall>(n, sel) \<in> set string_values. n \<noteq> ''timeout'' \<and> n \<notin> fst ` set bool_flags \<and> n \<notin> set (with_names names)"
  by (auto simp: string_values_def string_flags_def bool_flags_def with_names_def)

lemma timeout_kept:
  "\<forall>(m, f) \<in> set string_flags. fl_timeout (f v fl) = fl_timeout fl"
  "\<forall>(m, f) \<in> set bool_flags. fl_timeout (f b fl) = fl_timeout fl"
  "\<not> is_bool_flag names ''timeout''"
  by (auto simp: string_flags_def bool_flags_def with_names_def is_bool_flag_def)

lemma apply_setting_cases:
  assumes "valid_setting names (m, v)"
  obtains (switch) b where "is_bool_flag names m" "ParseBool v = Some b"
      "apply_setting names (m, v) fl = (case map_of bool_flags m of Some f \<Rightarrow> f b fl | None \<Rightarrow> fl)\<lparr>fl_visited := m # fl_visited fl\<rparr>"
  | (timeout) t where "m = ''timeout''" "ParseInt0 v = Some t"
      "apply_setting names (m, v) fl = fl\<lparr>fl_timeout := t, fl_visited := m # fl_visited fl\<rparr>"
  | (words) f where "(m, f) \<in> set string_flags" "apply_setting names (m, v) fl = (f v fl)\<lparr>fl_visited := m # fl_visited fl\<rparr>"
proof -
  have vis: "fl_visited (apply_setting names (m, v) fl) = m # fl_visited fl"
    by (rule set_flag_visited [OF set_flag_valid [OF assms]])
  note s = set_flag_valid [OF assms, of fl, unfolded set_flag_def set_value_def]
  show thesis
  proof (cases "is_bool_flag names m")
    case True
    with s obtain b where b: "ParseBool v = Some b" by (cases "ParseBool v") simp_all
    with s True have "apply_setting names (m, v) fl
        = (\<lambda>fl. fl\<lparr>fl_visited := m # fl_visited fl\<rparr>) (case map_of bool_flags m of Some f \<Rightarrow> f b fl | None \<Rightarrow> fl)" by simp
    moreover have "fl_visited (case map_of bool_flags m of Some f \<Rightarrow> f b fl | None \<Rightarrow> fl) = fl_visited fl"
      using setters_keep_visited(1) [of b fl] by (auto split: option.split dest!: map_of_SomeD)
    ultimately show ?thesis using switch [OF True b] by simp
  next
    case False
    show ?thesis
    proof (cases "m = ''timeout''")
      case True
      with s False obtain t where "ParseInt0 v = Some t" "apply_setting names (m, v) fl
        = fl\<lparr>fl_timeout := t, fl_visited := m # fl_visited fl\<rparr>" by (auto simp: timeout_kept(3))
      with True show ?thesis by (rule timeout)
    next
      case t: False
      with s False obtain f where f: "map_of string_flags m = Some f"
        and "apply_setting names (m, v) fl = (\<lambda>fl. fl\<lparr>fl_visited := m # fl_visited fl\<rparr>) (f v fl)" by auto
      moreover have "fl_visited (f v fl) = fl_visited fl"
        using setters_keep_visited(2) [of v fl] map_of_SomeD [OF f] by blast
      ultimately show ?thesis using words [OF map_of_SomeD [OF f]] by simp
    qed
  qed
qed

lemma apply_setting_string:
  assumes "valid_setting names (m, v)" and n: "(n, sel) \<in> set string_values"
  shows "sel (apply_setting names (m, v) fl) = (if m = n then v else sel fl)"
proof -
  have vis: "sel (x\<lparr>fl_visited := vs\<rparr>) = sel x" for x vs
    using bspec [OF string_flags_values(3) n] by simp
  show ?thesis
    using assms(1)
  proof (cases rule: apply_setting_cases [of _ _ _ fl])
    case (switch b)
    have "m \<noteq> n" using switch(1) string_flags_values(4) [of names] n by (auto simp: is_bool_flag_def)
    have "sel (case map_of bool_flags m of Some f \<Rightarrow> f b fl | None \<Rightarrow> fl) = sel fl"
      using string_flags_values(2) [of b fl] n by (auto split: option.split dest!: map_of_SomeD)
    with \<open>m \<noteq> n\<close> show ?thesis unfolding switch(3) vis by simp
  next
    case (timeout t)
    have "sel (fl\<lparr>fl_timeout := t\<rparr>) = sel fl" "n \<noteq> ''timeout''"
      using bspec [OF string_flags_values(3) n] bspec [OF string_flags_values(4) n] by simp_all
    with timeout(1) show ?thesis unfolding timeout(3) vis by simp
  next
    case (words f)
    have "sel (f v fl) = (if m = n then v else sel fl)"
      using bspec [OF string_flags_values(1) n] words(1) by fastforce
    then show ?thesis unfolding words(2) vis .
  qed
qed

lemma apply_setting_timeout:
  assumes "valid_setting names (m, v)"
  shows "Some (fl_timeout (apply_setting names (m, v) fl)) = (if m = ''timeout'' then ParseInt0 v else Some (fl_timeout fl))"
  using assms
proof (cases rule: apply_setting_cases [of _ _ _ fl])
  case (switch b)
  have "m \<noteq> ''timeout''" using switch(1) timeout_kept(3) by auto
  then show ?thesis unfolding switch(3)
    using timeout_kept(2) [of b fl] by (fastforce split: option.split dest!: map_of_SomeD)
next
  case (words f)
  have "m \<noteq> ''timeout''" using words(1) by (auto simp: string_flags_def)
  then show ?thesis using words timeout_kept(1) [of v fl] by fastforce
qed simp

lemma apply_setting_bool:
  assumes "valid_setting names (m, v)" and n: "(n, sel) \<in> set bool_values"
  shows "Some (sel (apply_setting names (m, v) fl)) = (if m = n then ParseBool v else Some (sel fl))"
proof -
  have vis: "sel (x\<lparr>fl_visited := vs\<rparr>) = sel x" for x vs
    using bspec [OF bool_flags_values(3) n] by simp
  show ?thesis
    using assms(1)
  proof (cases rule: apply_setting_cases [of _ _ _ fl])
    case (switch b)
    have "sel (case map_of bool_flags m of Some f \<Rightarrow> f b fl | None \<Rightarrow> fl) = (if m = n then b else sel fl)"
    proof (cases "map_of bool_flags m")
      case None
      then have "m \<noteq> n" using bspec [OF bool_flags_values(4) n] by (auto simp: map_of_eq_None_iff)
      with None show ?thesis by simp
    next
      case (Some f)
      with bspec [OF bool_flags_values(1) n, of b fl] show ?thesis by (fastforce dest: map_of_SomeD)
    qed
    then show ?thesis unfolding switch(3) vis using switch(2) by simp
  next
    case (timeout t)
    have "sel (fl\<lparr>fl_timeout := t\<rparr>) = sel fl" "n \<noteq> ''timeout''"
      using bspec [OF bool_flags_values(3) n] bspec [OF bool_flags_values(4) n] by simp_all
    with timeout(1) show ?thesis unfolding timeout(3) vis by simp
  next
    case (words f)
    have "sel (f v fl) = sel fl" using bspec [OF bool_flags_values(2) n, of v fl] words(1) by fastforce
    moreover have "m \<noteq> n" using bspec [OF bool_flags_values(4) n] words(1) by force
    ultimately show ?thesis unfolding words(2) vis by simp
  qed
qed

lemma map_of_rev_Cons: "map_of (rev ((k, v) # xs)) n = (case map_of (rev xs) n of Some w \<Rightarrow> Some w | None \<Rightarrow> if k = n then Some v else None)"
  by (auto simp: map_add_def split: option.split)

lemma settings_effect:
  assumes "\<forall>nv \<in> set settings. valid_setting names nv"
  shows "(n, sel) \<in> set string_values \<Longrightarrow> sel (fold (apply_setting names) settings fl)
            = (case map_of (rev settings) n of Some v \<Rightarrow> v | None \<Rightarrow> sel fl)"
    and "Some (fl_timeout (fold (apply_setting names) settings fl))
            = (case map_of (rev settings) ''timeout'' of Some v \<Rightarrow> ParseInt0 v | None \<Rightarrow> Some (fl_timeout fl))"
    and "set (fl_visited (fold (apply_setting names) settings fl)) = fst ` set settings \<union> set (fl_visited fl)"
    and "(b, bsel) \<in> set bool_values \<Longrightarrow> Some (bsel (fold (apply_setting names) settings fl))
            = (case map_of (rev settings) b of Some v \<Rightarrow> ParseBool v | None \<Rightarrow> Some (bsel fl))"
proof -
  show "(b, bsel) \<in> set bool_values \<Longrightarrow> Some (bsel (fold (apply_setting names) settings fl))
            = (case map_of (rev settings) b of Some v \<Rightarrow> ParseBool v | None \<Rightarrow> Some (bsel fl))"
    using assms
  proof (induction settings arbitrary: fl)
    case (Cons nv settings)
    then show ?case using apply_setting_bool [of names "fst nv" "snd nv" b bsel fl]
      by (cases nv) (simp add: map_of_rev_Cons del: rev.simps split: option.split if_splits)
  qed simp
  show "(n, sel) \<in> set string_values \<Longrightarrow> sel (fold (apply_setting names) settings fl)
            = (case map_of (rev settings) n of Some v \<Rightarrow> v | None \<Rightarrow> sel fl)"
    using assms
  proof (induction settings arbitrary: fl)
    case (Cons nv settings)
    obtain a b where "nv = (a, b)" by (cases nv)
    with Cons show ?case using apply_setting_string [of names a b n sel fl]
      by (auto simp: map_of_rev_Cons simp del: rev.simps split: option.split)
  qed simp
  show "Some (fl_timeout (fold (apply_setting names) settings fl))
            = (case map_of (rev settings) ''timeout'' of Some v \<Rightarrow> ParseInt0 v | None \<Rightarrow> Some (fl_timeout fl))"
    using assms
  proof (induction settings arbitrary: fl)
    case (Cons nv settings)
    then show ?case using apply_setting_timeout [of names "fst nv" "snd nv" fl]
      by (cases nv) (simp add: map_of_rev_Cons del: rev.simps split: option.split if_splits)
  qed simp
  show "set (fl_visited (fold (apply_setting names) settings fl)) = fst ` set settings \<union> set (fl_visited fl)"
    using assms
  proof (induction settings arbitrary: fl)
    case (Cons nv settings)
    then show ?case using set_flag_visited [OF set_flag_valid, of names "fst nv" "snd nv" fl] by (cases nv) simp
  qed simp
qed


lemma show_digits_head: "0 < n \<Longrightarrow> hd (show_digits n) \<noteq> CHR ''0''"
proof (induction n rule: show_digits.induct)
  case (1 n)
  show ?case
  proof (cases "n < 10")
    case True
    have "char_code (digit_char n) \<noteq> char_code CHR ''0''"
      using True 1 by (subst char_code_digit_char) (simp_all add: char_code_def)
    with True show ?thesis by (subst show_digits.simps) auto
  next
    case False
    with 1 have "hd (show_digits (n div 10)) \<noteq> CHR ''0''" by (auto simp: pos_imp_zdiv_pos_iff)
    moreover have "show_digits (n div 10) \<noteq> []" using False by simp
    ultimately show ?thesis using False by (subst show_digits.simps) auto
  qed
qed

lemma int_base_digits:
  assumes "0 \<le> m"
  shows "\<exists>b ds. int_base (show_digits m) = (b, ds) \<and> scan_int b ds 0 = Some m \<and> CHR ''_'' \<notin> set ds"
proof (cases "m = 0")
  case True
  have "show_digits 0 = ''0''" by code_simp
  then show ?thesis using True by (simp add: int_base_def)
next
  case False
  let ?ds = "show_digits m"
  obtain c r where ds: "?ds = c # r" using show_digits_not_Nil [OF assms] by (cases ?ds) auto
  then have "c \<noteq> CHR ''0''" using show_digits_head [of m] False assms by simp
  then have "int_base ?ds = (10, ?ds)" by (simp add: int_base_def ds)
  moreover have "CHR ''_'' \<notin> set ?ds" using show_digits_all [OF assms] by (auto simp: all_digits_def is_digit_def char_code_def)
  ultimately show ?thesis using scan_int_digits [OF show_digits_all [OF assms]] assms by simp
qed

lemma ParseInt0_Itoa:
  assumes "- (2 ^ 63) \<le> n" and "n < 2 ^ 63" shows "ParseInt0 (Itoa n) = Some n"
proof (cases "n < 0")
  case True
  then have "0 \<le> - n" by simp
  from int_base_digits [OF this] obtain b ds where "int_base (show_digits (- n)) = (b, ds)"
    "scan_int b ds 0 = Some (- n)" "CHR ''_'' \<notin> set ds" by blast
  with True assms show ?thesis by (simp add: ParseInt0_def Itoa_def split_sign_def)
next
  case False
  then have n: "0 \<le> n" by simp
  from int_base_digits [OF this] obtain b ds where "int_base (show_digits n) = (b, ds)"
    "scan_int b ds 0 = Some n" "CHR ''_'' \<notin> set ds" by blast
  with False n assms show ?thesis by (simp add: ParseInt0_def Itoa_def split_sign_digits)
qed


section \<open>Properties\<close>

text \<open>
  Property C23: the command line is read back.  Settings written as arguments \<^verbatim>\<open>-name=value\<close> are parsed to flags
  that hold, for every flag with a text, for the timeout and for every flag that is switched on or off, the value
  set last, or the default when it was not set; the flags \<^verbatim>\<open>flag.Visit\<close> goes through are exactly those that were set, each once, in the order of
  their names.
\<close>

theorem Parse_settings:
  assumes "\<forall>nv \<in> set settings. valid_setting names nv"
  shows "\<exists>fl. Parse names (map flag_arg settings) = Inr fl
     \<and> (\<forall>(n, sel) \<in> set string_values. sel fl = (case map_of (rev settings) n of Some v \<Rightarrow> v | None \<Rightarrow> sel default_flags))
     \<and> Some (fl_timeout fl) = (case map_of (rev settings) ''timeout'' of Some v \<Rightarrow> ParseInt0 v | None \<Rightarrow> Some DefaultTimeout)
     \<and> (\<forall>(n, sel) \<in> set bool_values. Some (sel fl) = (case map_of (rev settings) n of Some v \<Rightarrow> ParseBool v | None \<Rightarrow> Some False))
     \<and> set (fl_visited fl) = fst ` set settings \<and> sorted (fl_visited fl) \<and> distinct (fl_visited fl)"
proof -
  let ?fl = "fold (apply_setting names) settings default_flags"
  let ?fl' = "?fl\<lparr>fl_visited := sort (remdups (fl_visited ?fl))\<rparr>"
  have p: "Parse names (map flag_arg settings) = Inr ?fl'" by (simp add: Parse_def parse_args_settings [OF assms])
  have "\<forall>(n, sel) \<in> set string_values. sel ?fl' = (case map_of (rev settings) n of Some v \<Rightarrow> v | None \<Rightarrow> sel default_flags)"
  proof (clarify)
    fix n sel assume n: "(n, sel) \<in> set string_values"
    have "sel ?fl' = sel ?fl" using bspec [OF string_flags_values(3) n] by simp
    then show "sel ?fl' = (case map_of (rev settings) n of Some v \<Rightarrow> v | None \<Rightarrow> sel default_flags)"
      using settings_effect(1) [OF assms n] by simp
  qed
  moreover have "\<forall>(n, sel) \<in> set bool_values. Some (sel ?fl')
      = (case map_of (rev settings) n of Some v \<Rightarrow> ParseBool v | None \<Rightarrow> Some False)"
  proof (clarify)
    fix n sel assume n: "(n, sel) \<in> set bool_values"
    have "sel ?fl' = sel ?fl" using bspec [OF bool_flags_values(3) n] by simp
    moreover have "\<not> sel default_flags" using n by (auto simp: bool_values_def default_flags_def)
    ultimately show "Some (sel ?fl') = (case map_of (rev settings) n of Some v \<Rightarrow> ParseBool v | None \<Rightarrow> Some False)"
      using settings_effect(4) [OF assms n, of default_flags] by (simp split: option.split)
  qed
  moreover have d: "fl_timeout default_flags = DefaultTimeout" "fl_visited default_flags = []"
    by (simp_all add: default_flags_def)
  moreover have "Some (fl_timeout ?fl') = (case map_of (rev settings) ''timeout'' of Some v \<Rightarrow> ParseInt0 v | None \<Rightarrow> Some DefaultTimeout)"
    using settings_effect(2) [OF assms, of default_flags, unfolded d(1)] by simp
  moreover have "set (fl_visited ?fl') = fst ` set settings"
    using settings_effect(3) [OF assms, of default_flags] by (simp add: d)
  moreover have "sorted (fl_visited ?fl')" "distinct (fl_visited ?fl')" by simp_all
  ultimately show ?thesis using p by blast
qed

theorem Parse_settings_witness:
  "\<exists>fl. Parse [''dns''] [''-address=10.0.0.1'', ''-with-dns=false'', ''-address=10.0.0.2'', ''-timeout=0x10'', ''-tls=T''] = Inr fl
     \<and> fl_address fl = ''10.0.0.2'' \<and> fl_timeout fl = 16 \<and> fl_tls fl \<and> \<not> fl_insecure fl
     \<and> set (fl_visited fl) = {''address'', ''timeout'', ''tls'', ''with-dns''}"
proof -
  let ?s = "[(''address'', ''10.0.0.1''), (''with-dns'', ''false''), (''address'', ''10.0.0.2''), (''timeout'', ''0x10''), (''tls'', ''T'')]"
  have t: "ParseInt0 ''0x10'' = Some 16" "ParseBool ''T'' = Some True" by code_simp+
  have "\<forall>nv \<in> set ?s. valid_setting [''dns''] nv"
    by (auto simp: valid_setting_def defined_flags_def is_bool_flag_def bool_flags_def with_names_def ParseBool_def t(1))
  from Parse_settings [OF this] obtain fl where p: "Parse [''dns''] (map flag_arg ?s) = Inr fl"
    and s: "\<forall>(n, sel) \<in> set string_values. sel fl = (case map_of (rev ?s) n of Some v \<Rightarrow> v | None \<Rightarrow> sel default_flags)"
    and tm: "Some (fl_timeout fl) = (case map_of (rev ?s) ''timeout'' of Some v \<Rightarrow> ParseInt0 v | None \<Rightarrow> Some DefaultTimeout)"
    and b: "\<forall>(n, sel) \<in> set bool_values. Some (sel fl) = (case map_of (rev ?s) n of Some v \<Rightarrow> ParseBool v | None \<Rightarrow> Some False)"
    and v: "set (fl_visited fl) = fst ` set ?s" by blast
  have "(''address'', fl_address) \<in> set string_values" by (simp add: string_values_def)
  with s have "fl_address fl = ''10.0.0.2''" by fastforce
  moreover have "fl_timeout fl = 16" using tm t by simp
  moreover have "fl_tls fl \<and> \<not> fl_insecure fl" using b t(2) by (simp add: bool_values_def)
  moreover have "set (fl_visited fl) = {''address'', ''timeout'', ''tls'', ''with-dns''}" using v by auto
  moreover have "map flag_arg ?s
      = [''-address=10.0.0.1'', ''-with-dns=false'', ''-address=10.0.0.2'', ''-timeout=0x10'', ''-tls=T'']"
    by (simp add: flag_arg_def)
  ultimately show ?thesis using p by metis
qed

lemma Parse_visited: "Parse names args = Inr fl \<Longrightarrow> set (fl_visited fl) \<subseteq> set (defined_flags names)"
  using parse_args_visited [of names args default_flags]
  by (auto simp: Parse_def default_flags_def map_sum_def split: sum.splits)

lemma Parse_code: "Parse names args = Inl code \<Longrightarrow> code = 0 \<or> code = 2"
  using parse_args_code [of names args default_flags code] by (auto simp: Parse_def map_sum_def split: sum.splits)

end
