(* ===== verification/Logging.thy ===== *)
theory Logging
  imports Exporter "HOL-Library.List_Lexorder" "HOL-Library.Char_ord"
begin

text \<open>
  What the program writes about its values and itself: the texts of sentences, replies and errors, the groups that
  \<^verbatim>\<open>LogValue\<close> gives to \<^verbatim>\<open>slog\<close>, the line \<open>NewCollector\<close> logs for each device, and \<^verbatim>\<open>internal/config/logging.go\<close>.
  \<open>is_print\<close> stands for the table of \<^verbatim>\<open>unicode.IsPrint\<close> outside ASCII, \<open>lib\<close> for the texts of errors that are
  not declared in the repository (those of the standard library, \<^verbatim>\<open>fmt.Errorf\<close> and \<^verbatim>\<open>errors.Join\<close> included).
\<close>

section \<open>Quoting strings\<close>

function CanBackquote :: "string \<Rightarrow> bool" where
  \<comment> \<open>\<^verbatim>\<open>strconv.CanBackquote\<close>\<close>
  "CanBackquote s =
     (if s = [] then True
      else let (r, width) = decode_rune s
           in (if width > 1 then r \<noteq> 0xFEFF
               else r \<noteq> rune_error \<and> \<not> (r < 0x20 \<and> r \<noteq> 9) \<and> r \<noteq> 0x60 \<and> r \<noteq> 0x7F)
              \<and> CanBackquote (drop width s))"
  by pat_completeness auto
termination
  by (relation "measure length") (auto dest!: sym [THEN decode_rune_width])

declare CanBackquote.simps [simp del]

function quote_with :: "(int \<Rightarrow> bool) \<Rightarrow> string \<Rightarrow> string" where
  \<comment> \<open>the loop of \<^verbatim>\<open>appendQuotedWith\<close> for the quote \<^verbatim>\<open>'"'\<close>\<close>
  "quote_with is_print s =
     (if s = [] then []
      else let (r, width) = decode_rune s
           in (if width = 1 \<and> r = rune_error then [backslash, CHR ''x''] @ hex_fixed 2 (char_code (hd s))
               else if width > 1 \<and> is_print r then take width s
               else append_escaped r)
              @ quote_with is_print (drop width s))"
  by pat_completeness auto
termination
  by (relation "measure (length \<circ> snd)") (auto dest!: sym [THEN decode_rune_width])

declare quote_with.simps [simp del]

definition Quote :: "(int \<Rightarrow> bool) \<Rightarrow> string \<Rightarrow> string" where
  "Quote is_print s = CHR 0x22 # quote_with is_print s @ [CHR 0x22]"

definition sharp_quote :: "(int \<Rightarrow> bool) \<Rightarrow> string \<Rightarrow> string" where
  \<comment> \<open>the verb \<^verbatim>\<open>%#q\<close> of a string or a byte slice\<close>
  "sharp_quote is_print s = (if CanBackquote s then CHR 0x60 # s @ [CHR 0x60] else Quote is_print s)"

text \<open>Printable ASCII without quotes and backslashes stands for itself.\<close>

definition plain_text :: "string \<Rightarrow> bool" where
  "plain_text s \<longleftrightarrow> list_all (\<lambda>c. printable c \<and> c \<noteq> CHR 0x22 \<and> c \<noteq> backslash) s"

lemma decode_rune_ascii: "char_code c < 0x80 \<Longrightarrow> decode_rune (c # s) = (char_code c, 1)"
  by (simp add: decode_rune_def Let_def)

lemma append_escaped_plain:
  assumes "printable c" and "c \<noteq> CHR 0x22" and "c \<noteq> backslash" shows "append_escaped (char_code c) = [c]"
proof -
  have "char_code c \<noteq> 0x22" using assms(2) by (auto simp: char_code_def dest: of_char_eq_iff [THEN iffD1, of c "CHR 0x22", simplified])
  moreover have "char_code c \<noteq> 0x5C"
    using assms(3) by (auto simp: backslash_def char_code_def dest: of_char_eq_iff [THEN iffD1, of c "CHR 0x5C", simplified])
  moreover have "char_of (char_code c) = c" by (simp add: char_code_def)
  ultimately show ?thesis using assms(1) by (auto simp: append_escaped_def printable_def)
qed

lemma quote_with_plain: "plain_text s \<Longrightarrow> quote_with is_print s = s"
proof (induction s)
  case (Cons c s)
  then have c: "printable c" "c \<noteq> CHR 0x22" "c \<noteq> backslash" and s: "plain_text s" by (simp_all add: plain_text_def)
  have "char_code c < 0x80" "char_code c \<noteq> rune_error" using c(1) by (auto simp: printable_def rune_error_def)
  then show ?case using Cons.IH [OF s] append_escaped_plain [OF c]
    by (subst quote_with.simps) (simp add: decode_rune_ascii)
qed (simp add: quote_with.simps)


section \<open>Sentences and replies\<close>

definition Pair_String :: "string \<times> string \<Rightarrow> string" where
  "Pair_String p = fst p @ ''='' @ snd p"

definition AsList :: "sentence \<Rightarrow> (string \<times> string) list" where
  \<comment> \<open>in the order in which the map is gone through\<close>
  "AsList sen = sen_map sen"

definition pair_text :: "(int \<Rightarrow> bool) \<Rightarrow> string \<times> string \<Rightarrow> string" where
  \<comment> \<open>the verb \<^verbatim>\<open>%#q\<close> of a \<^verbatim>\<open>Pair\<close>, whose method \<^verbatim>\<open>String\<close> belongs to the pointer and is not used\<close>
  "pair_text is_print p = ''{'' @ sharp_quote is_print (fst p) @ '' '' @ sharp_quote is_print (snd p) @ ''}''"

definition Sentence_String :: "(int \<Rightarrow> bool) \<Rightarrow> sentence \<Rightarrow> string" where
  "Sentence_String is_print sen =
     (let pairs = sort_key fst (AsList sen)
      in sen_word sen @ '' @'' @ sen_tag sen @ '' '' @ listing (map (pair_text is_print) pairs))"

definition Reply_String :: "(int \<Rightarrow> bool) \<Rightarrow> reply \<Rightarrow> string" where
  "Reply_String is_print r =
     concat (map (\<lambda>re. Sentence_String is_print re @ [CHR 0x0A]) (rep_re r))
     @ (case rep_done r of None \<Rightarrow> ''<nil>'' | Some sen \<Rightarrow> Sentence_String is_print sen)"


section \<open>The texts of errors\<close>

text \<open>The methods \<^verbatim>\<open>Error\<close> and the error variables, package by package.\<close>

fun proto_error :: "(int \<Rightarrow> bool) \<Rightarrow> goerror \<Rightarrow> string option" where
  "proto_error is_print (InvalidSentenceWordError w) =
     Some (''invalid RouterOS sentence word: '' @ sharp_quote is_print w)"
| "proto_error is_print e = None"

fun routeros_error :: "(int \<Rightarrow> bool) \<Rightarrow> goerror \<Rightarrow> string option" where
  "routeros_error is_print (UnknownReplyError sen) = Some (''unknown RouterOS reply word: '' @ sen_word sen)"
| "routeros_error is_print (DeviceError sen) =
     (let m = mlookup (sen_map sen) ''message'';
          m = (if m = '''' then ''unknown error: '' @ Sentence_String is_print sen else m)
      in Some (''from RouterOS device: '' @ m))"
| "routeros_error is_print ErrLoginNoRet = Some ''RouterOS: /login: no ret (challenge) received''"
| "routeros_error is_print e = None"

fun convert_error :: "goerror \<Rightarrow> string option" where
  "convert_error ErrEmptyValue = Some ''empty value''"
| "convert_error ErrInvalidDuration = Some ''invalid duration value sent to regex''"
| "convert_error (InvalidInputError i) = Some (''invalid input: '' @ i)"
| "convert_error e = None"

fun unit_error :: "goerror \<Rightarrow> string option" where
  "unit_error ErrUnknownUnit = Some ''unknown unit''"
| "unit_error e = None"

fun config_error :: "goerror \<Rightarrow> string option" where
  "config_error ErrUnknownDevice = Some ''unknown device''"
| "config_error (MissingFieldError m) = Some (''missing `'' @ m @ ''`'')"
| "config_error (UnknownFeatureError e) = Some (''unknown feature: '' @ e)"
| "config_error (UnknownProfileError e) = Some (''unknown profile: '' @ e)"
| "config_error (InvalidFieldValueError field value) = Some (''invalid value of `'' @ field @ ''`: `'' @ value @ ''`'')"
| "config_error ErrInvalidValueType = Some ''invalid value type''"
| "config_error (InvalidConfigurationError e) = Some (''invalid configuration: '' @ e)"
| "config_error e = None"

fun metrics_error :: "goerror \<Rightarrow> string option" where
  "metrics_error (BuilderError b) = Some b"
| "metrics_error e = None"

fun collectors_error :: "(int \<Rightarrow> bool) \<Rightarrow> goerror \<Rightarrow> string option" where
  "collectors_error is_print (UnexpectedResponseError msg reply) = Some (msg @ '': '' @ Reply_String is_print reply)"
| "collectors_error is_print (NotSupportedError n) = Some (n @ '' is not supported'')"
| "collectors_error is_print e = None"

fun collector_error :: "goerror \<Rightarrow> string option" where
  "collector_error ErrNoServersDefined = Some ''no servers defined''"
| "collector_error ErrInvalidResponse = Some ''invalid response''"
| "collector_error ErrTooManyErrors = Some ''too many errors''"
| "collector_error e = None"

fun version_error :: "goerror \<Rightarrow> string option" where
  "version_error ErrInvalidVersion = Some ''invalid version''"
| "version_error e = None"

fun main_error :: "goerror \<Rightarrow> string option" where
  "main_error ErrMissingParam = Some ''missing required param for single device configuration''"
| "main_error e = None"

definition error_text :: "(int \<Rightarrow> bool) \<Rightarrow> (goerror \<Rightarrow> string) \<Rightarrow> goerror \<Rightarrow> string" where
  \<comment> \<open>each error belongs to one package, or to a library\<close>
  "error_text is_print lib e =
     (case somes [proto_error is_print e, routeros_error is_print e, convert_error e, unit_error e, config_error e, metrics_error e,
                  collectors_error is_print e, collector_error e, version_error e, main_error e] of
        t # _ \<Rightarrow> t
      | [] \<Rightarrow> lib e)"


text \<open>
  What is printed of a sentence does not depend on the order in which its map is gone through: the pairs are
  sorted, and there is one pair per key.
\<close>

lemma sorted_pairs_unique:
  assumes "wf_map m" and "mset m = mset m'" shows "sort_key fst m = sort_key fst m'"
proof (rule properties_for_sort_key)
  show "mset (sort_key fst m') = mset m" using assms(2) by simp
  show "filter (\<lambda>x. fst k = fst x) (sort_key fst m') = filter (\<lambda>x. fst k = fst x) m" if "k \<in> set (sort_key fst m')" for k
  proof -
    have ms: "mset (filter (\<lambda>x. fst k = fst x) (sort_key fst m')) = mset (filter (\<lambda>x. fst k = fst x) m)"
      using assms(2) by (simp add: mset_filter)
    have "k \<in> set m" using that assms(2) by (metis mset_eq_setD set_sort)
    moreover have "distinct (map fst m)" using assms(1) by (simp add: wf_map_def)
    ultimately have "filter (\<lambda>x. fst k = fst x) m = [k]"
      by (induction m) (auto simp: filter_empty_conv rev_image_eqI)
    with ms have "mset (filter (\<lambda>x. fst k = fst x) (sort_key fst m')) = {#k#}" by simp
    with \<open>filter (\<lambda>x. fst k = fst x) m = [k]\<close> show ?thesis by (simp only: mset_single_iff)
  qed
  show "sorted (map fst (sort_key fst m'))" by simp
qed

lemma Sentence_String_order:
  assumes "wf_map (sen_map s)" and "mset (sen_map s) = mset (sen_map t)"
    and "sen_word s = sen_word t" and "sen_tag s = sen_tag t"
  shows "Sentence_String is_print s = Sentence_String is_print t"
  using assms sorted_pairs_unique [OF assms(1,2)] by (simp add: Sentence_String_def AsList_def)


section \<open>Values for the log\<close>

datatype log_any =
    AnyVersion FirmwareVersion | AnySrv "SrvRecord option" | AnyMap "string gomap"
  | AnySentence "sentence option" | AnySentences "sentence list" | AnyStrings "string list" | AnyType metricType

datatype log_value =
    StringValue string | BoolValue_of bool | IntValue int | AnyValue log_any
  | GroupValue "(string \<times> log_value) list"

definition Sentence_LogValue :: "sentence \<Rightarrow> log_value" where
  "Sentence_LogValue sen = GroupValue
     [(''map'', AnyValue (AnyMap (sen_map sen))), (''word'', StringValue (sen_word sen)), (''tag'', StringValue (sen_tag sen))]"

definition Reply_LogValue :: "reply \<Rightarrow> log_value" where
  "Reply_LogValue r = GroupValue
     [(''done'', AnyValue (AnySentence (rep_done r))), (''re'', AnyValue (AnySentences (rep_re r)))]"

definition FirmwareVersion_LogValue :: "FirmwareVersion \<Rightarrow> log_value" where
  "FirmwareVersion_LogValue f = GroupValue
     [(''version'', StringValue (Itoa (fv_Major f) @ ''.'' @ Itoa (fv_Minor f) @ ''.'' @ Itoa (fv_Patch f))),
      (''architecture'', StringValue (fv_Architecture f))]"

definition Device_LogValue :: "Device \<Rightarrow> log_value" where
  "Device_LogValue d = GroupValue
     [(''name'', StringValue (dev_Name d)),
      (''disabled'', BoolValue_of (dev_Disabled d)),
      (''version'', AnyValue (AnyVersion (dev_FirmwareVersion d))),
      (''address'', StringValue (dev_Address d)),
      (''srv'', AnyValue (AnySrv (dev_Srv d))),
      (''user'', StringValue (dev_User d)),
      (''port'', StringValue (dev_Port d)),
      (''tls'', BoolValue_of (dev_TLS d)),
      (''timeout'', IntValue (dev_Timeout d)),
      (''insecure'', BoolValue_of (dev_Insecure d)),
      (''ipv6_disabled'', BoolValue_of (dev_IPv6Disabled d)),
      (''profile'', StringValue (dev_Profile d)),
      (''timezone'', StringValue (dev_Timezone d))]"

definition PropertyMetricBuilder_LogValue :: "PropertyMetricBuilder \<Rightarrow> log_value" where
  "PropertyMetricBuilder_LogValue p = GroupValue
     [(''name'', StringValue (pb_metricName p)),
      (''help'', StringValue (pb_metricHelp p)),
      (''prefix'', StringValue (pb_prefix p)),
      (''labels'', AnyValue (AnyStrings (pb_labels p))),
      (''type'', AnyValue (AnyType (pb_metricType p))),
      (''property'', StringValue (pb_property p)),
      (''values'', AnyValue (AnyStrings (pb_values p))),
      (''defaultValue'', StringValue (pb_defaultValue p))]"

definition resolve_any :: "log_any \<Rightarrow> log_value" where
  \<comment> \<open>\<^verbatim>\<open>Value.Resolve\<close> of a value with a method \<^verbatim>\<open>LogValue\<close>\<close>
  "resolve_any a = (case a of
       AnyVersion f \<Rightarrow> FirmwareVersion_LogValue f
     | AnySentence (Some sen) \<Rightarrow> Sentence_LogValue sen
     | _ \<Rightarrow> AnyValue a)"

fun resolved :: "log_value \<Rightarrow> log_value" where
  "resolved (AnyValue a) = resolve_any a"
| "resolved (GroupValue attrs) = GroupValue (map (\<lambda>(k, v). (k, resolved v)) attrs)"
| "resolved v = v"


section \<open>The line for a new device\<close>

definition bool_text :: "bool \<Rightarrow> string" where
  "bool_text b = (if b then ''true'' else ''false'')"

definition GoSyntax_version :: "(int \<Rightarrow> bool) \<Rightarrow> FirmwareVersion \<Rightarrow> string" where
  "GoSyntax_version is_print f =
     ''config.FirmwareVersion{Major:'' @ Itoa (fv_Major f) @ '', Minor:'' @ Itoa (fv_Minor f)
     @ '', Patch:'' @ Itoa (fv_Patch f) @ '', Architecture:'' @ Quote is_print (fv_Architecture f) @ ''}''"

definition GoSyntax :: "(int \<Rightarrow> bool) \<Rightarrow> (SrvRecord option \<Rightarrow> string) \<Rightarrow> Device \<Rightarrow> string" where
  \<comment> \<open>the verb \<^verbatim>\<open>%#v\<close> of a \<^verbatim>\<open>config.Device\<close>; \<open>pointer\<close> is the text of a pointer, nil or an address\<close>
  "GoSyntax is_print pointer d =
     (let q = Quote is_print
      in ''config.Device{Srv:(*config.SrvRecord)('' @ pointer (dev_Srv d) @ ''), Profile:'' @ q (dev_Profile d)
         @ '', User:'' @ q (dev_User d) @ '', Password:'' @ q (dev_Password d) @ '', Port:'' @ q (dev_Port d)
         @ '', Name:'' @ q (dev_Name d) @ '', Address:'' @ q (dev_Address d)
         @ '', Timeout:'' @ Itoa (dev_Timeout d) @ '', CollectTimeout:'' @ Itoa (dev_CollectTimeout d)
         @ '', IPv6Disabled:'' @ bool_text (dev_IPv6Disabled d) @ '', TLS:'' @ bool_text (dev_TLS d)
         @ '', Insecure:'' @ bool_text (dev_Insecure d) @ '', Disabled:'' @ bool_text (dev_Disabled d)
         @ '', FirmwareVersion:'' @ GoSyntax_version is_print (dev_FirmwareVersion d)
         @ '', Timezone:'' @ q (dev_Timezone d) @ ''}'')"

definition new_device_line :: "(int \<Rightarrow> bool) \<Rightarrow> (SrvRecord option \<Rightarrow> string) \<Rightarrow> Device \<Rightarrow> string list
    \<Rightarrow> (string \<times> log_value) list" where
  \<comment> \<open>the attributes of the record \<open>NewCollector\<close> logs\<close>
  "new_device_line is_print pointer dev featNames =
     [(''device'', StringValue (GoSyntax is_print pointer dev)), (''feat'', StringValue (listing featNames))]"


section \<open>Setting up the logger\<close>

definition LevelDebug :: int where "LevelDebug = - 4"
definition LevelInfo :: int where "LevelInfo = 0"
definition LevelWarn :: int where "LevelWarn = 4"
definition LevelError :: int where "LevelError = 8"

fun ToUpper :: "string \<Rightarrow> string" where
  \<comment> \<open>\<^verbatim>\<open>strings.ToUpper\<close>, for a comparison with ASCII text: outside ASCII, only the dotless i and the long s
    have an ASCII letter as their upper case\<close>
  "ToUpper [] = []"
| "ToUpper (c # s) =
     (if c = CHR 0xC4 \<and> take 1 s = [CHR 0xB1] then CHR ''I'' # ToUpper (drop 1 s)
      else if c = CHR 0xC5 \<and> take 1 s = [CHR 0xBF] then CHR ''S'' # ToUpper (drop 1 s)
      else (if 97 \<le> char_code c \<and> char_code c \<le> 122 then char_of (char_code c - 32) else c) # ToUpper s)"

definition level_name :: "string \<Rightarrow> int option" where
  "level_name name =
     (let n = ToUpper name
      in if n = ''DEBUG'' then Some LevelDebug else if n = ''INFO'' then Some LevelInfo
         else if n = ''WARN'' then Some LevelWarn else if n = ''ERROR'' then Some LevelError else None)"

definition is_sign :: "char \<Rightarrow> bool" where
  "is_sign c \<longleftrightarrow> c = CHR ''+'' \<or> c = CHR ''-''"

definition UnmarshalText :: "int \<Rightarrow> string \<Rightarrow> bool \<times> int" where
  \<comment> \<open>\<^verbatim>\<open>Level.UnmarshalText\<close> on a level: whether there was an error, and the level afterwards\<close>
  "UnmarshalText level s =
     (let name = takeWhile (\<lambda>c. \<not> is_sign c) s; signed = dropWhile (\<lambda>c. \<not> is_sign c) s
      in case (if signed = [] then Inr 0 else Atoi signed) of
           Inl _ \<Rightarrow> (True, level)
         | Inr offset \<Rightarrow>
             (case level_name name of
                None \<Rightarrow> (True, level)
              | Some l \<Rightarrow> (False, sint (word_of_int (l + offset) :: 64 word))))"

definition parseLevel :: "string option \<Rightarrow> int" where
  "parseLevel s =
     (case s of
        None \<Rightarrow> LevelInfo
      | Some text \<Rightarrow> let level = 0; (err, level) = UnmarshalText level text in level)"

datatype ('l, 'f) log_handler =
    TintHandler int bool     \<comment> \<open>the level, and whether there are no colours\<close>
  | PromslogHandler 'l 'f

definition SetupLogging :: "bool \<Rightarrow> 'l \<Rightarrow> ('l \<Rightarrow> string \<Rightarrow> goerror option \<times> 'l) \<Rightarrow> 'f
    \<Rightarrow> ('f \<Rightarrow> string \<Rightarrow> goerror option \<times> 'f) \<Rightarrow> string option \<Rightarrow> string option \<Rightarrow> ('l, 'f) log_handler \<times> goerror list" where
  \<comment> \<open>the handler of the default logger, and the errors that are logged; levels and formats of \<^verbatim>\<open>promslog\<close> are parameters\<close>
  "SetupLogging isatty newLevel setLevel newFormat setFormat level format =
     (let logFormat = (if format \<noteq> None \<and> format \<noteq> Some '''' then the format
                       else if isatty then ''tint'' else ''logfmt'')
      in if logFormat = ''tint'' then (TintHandler (parseLevel level) (\<not> isatty), [])
         else (let (err1, l) = (case level of None \<Rightarrow> (None, newLevel) | Some s \<Rightarrow> setLevel newLevel s);
                   (err2, f) = setFormat newFormat logFormat
               in (PromslogHandler l f, somes [err1, err2])))"

datatype ctxkey = slogctxkey | OtherKey string
datatype 'l ctxvalue = Logger 'l | OtherValue string
type_synonym 'l log_context = "(ctxkey \<times> 'l ctxvalue) list"

definition LogFromCtx :: "'l \<Rightarrow> 'l log_context \<Rightarrow> 'l" where
  \<comment> \<open>\<open>dflt\<close> is \<^verbatim>\<open>slog.Default()\<close>\<close>
  "LogFromCtx dflt c = (case map_of c slogctxkey of Some (Logger l) \<Rightarrow> l | _ \<Rightarrow> dflt)"

definition CtxWithLog :: "'l log_context \<Rightarrow> 'l \<Rightarrow> 'l log_context" where
  "CtxWithLog c logger = (slogctxkey, Logger logger) # c"

lemma LogFromCtx_CtxWithLog: "LogFromCtx dflt (map (Pair (OtherKey k)) vs @ CtxWithLog c l) = l"
  by (induction vs) (simp_all add: LogFromCtx_def CtxWithLog_def)


section \<open>Properties\<close>

lemma wf_map_mset:
  assumes "wf_map m" and "wf_map m'" and "\<And>k. mget m k = mget m' k" shows "mset m = mset m'"
proof (rule set_eq_iff_mset_eq_distinct [THEN iffD1])
  show "distinct m" "distinct m'" using assms(1,2) by (auto simp: wf_map_def distinct_map)
  have "(k, v) \<in> set m \<longleftrightarrow> (k, v) \<in> set m'" for k v
    using assms(3) [of k] mget_iff_in_set [OF assms(1), of k v] mget_iff_in_set [OF assms(2), of k v] by simp
  then show "set m = set m'" by (auto simp: set_eq_iff)
qed

definition same_sentence :: "sentence \<Rightarrow> sentence \<Rightarrow> bool" where
  \<comment> \<open>equal as Go values: the maps may be gone through in different orders\<close>
  "same_sentence s t \<longleftrightarrow> wf_map (sen_map s) \<and> wf_map (sen_map t) \<and> (\<forall>k. mget (sen_map s) k = mget (sen_map t) k)
     \<and> sen_word s = sen_word t \<and> sen_tag s = sen_tag t"

lemma same_sentence_String: "same_sentence s t \<Longrightarrow> Sentence_String is_print s = Sentence_String is_print t"
  unfolding same_sentence_def by (blast intro: Sentence_String_order wf_map_mset)

text \<open>
  Property C29: what is printed of an answer is determined by the answer.  Go goes through a map in
  a random order; two replies with equal sentences are printed alike all the same, and so are the errors that carry
  them.
\<close>

theorem printed_alike:
  assumes "list_all2 same_sentence (rep_re r) (rep_re r')"
    and "rel_option same_sentence (rep_done r) (rep_done r')"
  shows "Reply_String is_print r = Reply_String is_print r'
     \<and> error_text is_print lib (UnexpectedResponseError msg r) = error_text is_print lib (UnexpectedResponseError msg r')
     \<and> list_all2 (\<lambda>s t. error_text is_print lib (DeviceError s) = error_text is_print lib (DeviceError t)
          \<and> error_text is_print lib (UnknownReplyError s) = error_text is_print lib (UnknownReplyError t))
         (rep_re r) (rep_re r')"
proof -
  have "map (Sentence_String is_print) (rep_re r) = map (Sentence_String is_print) (rep_re r')"
    using assms(1) by (induction rule: list_all2_induct) (simp_all add: same_sentence_String)
  then have "map (\<lambda>s. s @ [CHR 0x0A]) (map (Sentence_String is_print) (rep_re r))
      = map (\<lambda>s. s @ [CHR 0x0A]) (map (Sentence_String is_print) (rep_re r'))" by (rule arg_cong)
  then have "map (\<lambda>re. Sentence_String is_print re @ [CHR 0x0A]) (rep_re r)
      = map (\<lambda>re. Sentence_String is_print re @ [CHR 0x0A]) (rep_re r')" unfolding map_map comp_def .
  moreover have "(case rep_done r of None \<Rightarrow> ''<nil>'' | Some sen \<Rightarrow> Sentence_String is_print sen)
      = (case rep_done r' of None \<Rightarrow> ''<nil>'' | Some sen \<Rightarrow> Sentence_String is_print sen)"
    using assms(2) by (cases rule: option.rel_cases) (simp_all add: same_sentence_String)
  ultimately have s: "Reply_String is_print r = Reply_String is_print r'" by (simp add: Reply_String_def)
  have "error_text is_print lib (DeviceError s) = error_text is_print lib (DeviceError t)
      \<and> error_text is_print lib (UnknownReplyError s) = error_text is_print lib (UnknownReplyError t)"
    if "same_sentence s t" for s t
    using same_sentence_String [OF that, of is_print] that by (simp add: error_text_def same_sentence_def mlookup_mget Let_def)
  with assms(1) have "list_all2 (\<lambda>s t. error_text is_print lib (DeviceError s) = error_text is_print lib (DeviceError t)
          \<and> error_text is_print lib (UnknownReplyError s) = error_text is_print lib (UnknownReplyError t))
         (rep_re r) (rep_re r')" by (rule list_all2_mono)
  with s show ?thesis by (simp add: error_text_def)
qed

theorem printed_alike_witness:
  "Reply_String (\<lambda>_. True) \<lparr>rep_done = None, rep_re = [\<lparr>sen_map = [(''b'', ''2''), (''a'', ''1'')], sen_word = ''!re'', sen_tag = ''''\<rparr>]\<rparr>
   = Reply_String (\<lambda>_. True) \<lparr>rep_done = None, rep_re = [\<lparr>sen_map = [(''a'', ''1''), (''b'', ''2'')], sen_word = ''!re'', sen_tag = ''''\<rparr>]\<rparr>"
  by (rule printed_alike [THEN conjunct1]) (simp_all add: same_sentence_def wf_map_def mget_def)

text \<open>
  Where a password shows.  The group that \<open>LogValue\<close> makes of a device leaves the
  password out, but the line \<open>NewCollector\<close> logs at the debug level prints the whole device, password included.
\<close>

lemma password_in_log:
  "Device_LogValue (d\<lparr>dev_Password := p\<rparr>) = Device_LogValue d
   \<and> (plain_text (dev_Password d) \<longrightarrow>
        (\<exists>before after. map_of (new_device_line is_print pointer d names) ''device''
           = Some (StringValue (before @ '', Password:'' @ CHR 0x22 # dev_Password d @ CHR 0x22 # after))))"
proof -
  let ?q = "Quote is_print"
  let ?before = "''config.Device{Srv:(*config.SrvRecord)('' @ pointer (dev_Srv d) @ ''), Profile:'' @ ?q (dev_Profile d)
         @ '', User:'' @ ?q (dev_User d)"
  have "\<exists>after. GoSyntax is_print pointer d = ?before @ '', Password:'' @ CHR 0x22 # dev_Password d @ CHR 0x22 # after"
    if "plain_text (dev_Password d)"
    unfolding GoSyntax_def Let_def Quote_def quote_with_plain [OF that] by (simp only: append_assoc append.simps same_append_eq list.inject simp_thms)
  moreover have "map_of (new_device_line is_print pointer d names) ''device'' = Some (StringValue (GoSyntax is_print pointer d))"
    by (simp add: new_device_line_def)
  moreover have "Device_LogValue (d\<lparr>dev_Password := p\<rparr>) = Device_LogValue d" by (simp add: Device_LogValue_def)
  ultimately show ?thesis by metis
qed

definition Level_String :: "int \<Rightarrow> string" where
  \<comment> \<open>\<^verbatim>\<open>Level.String\<close>\<close>
  "Level_String l =
     (let str = (\<lambda>base val. if val = 0 then base
                  else base @ (if val < 0 then Itoa val else CHR ''+'' # Itoa val))
      in if l < LevelInfo then str ''DEBUG'' (l - LevelDebug)
         else if l < LevelWarn then str ''INFO'' (l - LevelInfo)
         else if l < LevelError then str ''WARN'' (l - LevelWarn)
         else str ''ERROR'' (l - LevelError))"

lemma Atoi_plus: "0 \<le> n \<Longrightarrow> n \<le> MaxInt64 \<Longrightarrow> Atoi (CHR ''+'' # Itoa n) = Inr n"
  by (simp add: Itoa_def Atoi_def ParseInt_def split_sign_def parse_uint_digits MaxInt64_def MaxUint64_def)

lemma UnmarshalText_text:
  assumes "list_all (\<lambda>c. \<not> is_sign c) base" and "level_name base = Some b"
    and "- MaxInt64 \<le> val" and "val \<le> MaxInt64" and "- (2 ^ 63) \<le> b + val" and "b + val < 2 ^ 63"
  shows "UnmarshalText l0 (if val = 0 then base else base @ (if val < 0 then Itoa val else CHR ''+'' # Itoa val)) = (False, b + val)"
proof (cases "val = 0")
  case True
  have "takeWhile (\<lambda>c. \<not> is_sign c) base = base" "dropWhile (\<lambda>c. \<not> is_sign c) base = []"
    using assms(1) by (auto simp: list_all_iff takeWhile_eq_all_conv)
  with True assms(2,5,6) show ?thesis unfolding UnmarshalText_def Let_def by (simp only: if_True sum.case option.case sint_small add_0_right simp_thms)
next
  case False
  let ?t = "if val < 0 then Itoa val else CHR ''+'' # Itoa val"
  have t: "\<exists>c r. ?t = c # r \<and> is_sign c" by (simp add: Itoa_def is_sign_def)
  then obtain c r where c: "?t = c # r" "is_sign c" by blast
  have "takeWhile (\<lambda>c. \<not> is_sign c) (base @ ?t) = base" "dropWhile (\<lambda>c. \<not> is_sign c) (base @ ?t) = ?t"
    unfolding c(1) using assms(1) c(2) by (auto simp: list_all_iff takeWhile_append dropWhile_append)
  moreover have "Atoi ?t = Inr val" using Atoi_plus [of val] Atoi_Itoa [of val] assms(3,4) by simp
  moreover have "?t \<noteq> []" using t by auto
  moreover have "sint (word_of_int (b + val) :: 64 word) = b + val" using assms(5,6) by (rule sint_small)
  ultimately show ?thesis using False assms(2) unfolding UnmarshalText_def Let_def by (simp del: of_int_add)
qed

text \<open>
  Log levels are read back.  \<open>parseLevel\<close> gives every 64-bit level back from its text,
  with or without an offset, and the level info for a text that names none.
\<close>

lemma parseLevel_String:
  "(- (2 ^ 63) \<le> l \<and> l < 2 ^ 63 \<longrightarrow> parseLevel (Some (Level_String l)) = l)
   \<and> (list_all (\<lambda>c. \<not> is_sign c) s \<and> level_name s = None \<longrightarrow> parseLevel (Some s) = LevelInfo)"
proof (intro conjI impI)
  assume l: "- (2 ^ 63) \<le> l \<and> l < 2 ^ 63"
  have b: "list_all (\<lambda>c. \<not> is_sign c) ''DEBUG''" "list_all (\<lambda>c. \<not> is_sign c) ''INFO''"
    "list_all (\<lambda>c. \<not> is_sign c) ''WARN''" "list_all (\<lambda>c. \<not> is_sign c) ''ERROR''"
    "level_name ''DEBUG'' = Some LevelDebug" "level_name ''INFO'' = Some LevelInfo"
    "level_name ''WARN'' = Some LevelWarn" "level_name ''ERROR'' = Some LevelError"
    by code_simp+
  have lv: "LevelDebug = - 4" "LevelInfo = 0" "LevelWarn = 4" "LevelError = 8"
    by (simp_all add: LevelDebug_def LevelInfo_def LevelWarn_def LevelError_def)
  show "parseLevel (Some (Level_String l)) = l"
    using l UnmarshalText_text [OF b(1,5), of "l - LevelDebug" 0] UnmarshalText_text [OF b(2,6), of "l - LevelInfo" 0]
      UnmarshalText_text [OF b(3,7), of "l - LevelWarn" 0] UnmarshalText_text [OF b(4,8), of "l - LevelError" 0]
    unfolding parseLevel_def Level_String_def Let_def option.case
    by (simp add: lv MaxInt64_def del: append_Cons)
next
  assume "list_all (\<lambda>c. \<not> is_sign c) s \<and> level_name s = None"
  then have t: "takeWhile (\<lambda>c. \<not> is_sign c) s = s" and n: "level_name s = None"
    by (auto simp: list_all_iff takeWhile_eq_all_conv)
  show "parseLevel (Some s) = LevelInfo"
    unfolding parseLevel_def UnmarshalText_def Let_def option.case t n by (simp add: LevelInfo_def split: sum.split)
qed

end
