(* ===== verification/Descriptions.thy ===== *)
theory Descriptions
  imports Exporter
begin

text \<open>
  What the exporter announces: the names and labels of all descriptions its \<^verbatim>\<open>Describe\<close> sends.  \<open>catalogue\<close>
  lists, for each of the forty collectors, the full names of its metrics in order; every constructor is
  evaluated and compared with it.  The names are pairwise different, so the metric library can
  register the exporter, whatever features are switched on.
\<close>

section \<open>Names and labels\<close>

definition joined_name :: "string \<Rightarrow> string \<Rightarrow> string \<Rightarrow> string" where
  \<comment> \<open>what \<^verbatim>\<open>prometheus.BuildFQName\<close> is documented to give: the components that are not empty, joined\<close>
  "joined_name namespace subsystem name =
     (if name = [] then [] else join_with ''_'' (filter (\<lambda>s. s \<noteq> []) [namespace, subsystem, name]))"

definition fq_name :: "desc \<Rightarrow> string" where
  "fq_name d = joined_name ''mikrotik'' (dc_subsystem d) (dc_name d)"

definition word_char :: "char \<Rightarrow> bool" where
  "word_char c \<longleftrightarrow> (let n = char_code c in 97 \<le> n \<and> n \<le> 122 \<or> 48 \<le> n \<and> n \<le> 57 \<or> n = 95)"

definition legal_name :: "string \<Rightarrow> bool" where
  \<comment> \<open>small letters, digits and underscores, with a letter in front\<close>
  "legal_name s \<longleftrightarrow> s \<noteq> [] \<and> 97 \<le> char_code (hd s) \<and> list_all word_char s"

definition legal_labels :: "string list \<Rightarrow> bool" where
  \<comment> \<open>the labels of the device in front, and labels that are legal and different even when a hyphen is
    written as an underscore\<close>
  "legal_labels ls \<longleftrightarrow> take 2 ls = [LabelDevName, LabelDevAddress]
     \<and> list_all legal_name (map MetricStringCleanup ls) \<and> distinct (map MetricStringCleanup ls)"

definition announces :: "string list \<Rightarrow> client RouterOSCollector outcome \<Rightarrow> bool" where
  "announces names f \<longleftrightarrow> (\<exists>k. f = Return k \<and> map fq_name (rc_Describe k) = names \<and> list_all legal_labels (map dc_labels (rc_Describe k)))"


section \<open>The catalogue\<close>

definition arp_announced :: "string list" where
  "arp_announced = [''mikrotik_arp_complete'', ''mikrotik_arp_status'', ''mikrotik_arp_invalid'']"

definition capsman_announced :: "string list" where
  "capsman_announced = [''mikrotik_capsman_radio_provisioned'',
     ''mikrotik_capsman_interface_current_authorized_clients'',
     ''mikrotik_capsman_interface_current_registered_clients'', ''mikrotik_capsman_interface_running'',
     ''mikrotik_capsman_interface_master'', ''mikrotik_capsman_interface_inactive'',
     ''mikrotik_capsman_interface_state'', ''mikrotik_capsman_station_uptime_seconds'',
     ''mikrotik_capsman_station_tx_signal'', ''mikrotik_capsman_station_rx_signal'',
     ''mikrotik_capsman_station_rx_packets_total'', ''mikrotik_capsman_station_tx_packets_total'',
     ''mikrotik_capsman_station_rx_bytes_total'', ''mikrotik_capsman_station_tx_bytes_total'']"

definition certs_announced :: "string list" where
  "certs_announced = [''mikrotik_cert_invalid_after'']"

definition cloud_announced :: "string list" where
  "cloud_announced = [''mikrotik_cloud_status'', ''mikrotik_cloud_bth_vpn_enabled'',
     ''mikrotik_cloud_bth_vpn_running'', ''mikrotik_cloud_bth_vpn_relay_ipv4_reachable'',
     ''mikrotik_cloud_bth_vpn_relay_ipv6_reachable'', ''mikrotik_cloud_bth_users'']"

definition conntrack_announced :: "string list" where
  "conntrack_announced = [''mikrotik_conntrack_total_entries'', ''mikrotik_conntrack_max_entries'']"

definition container_announced :: "string list" where
  "container_announced = [''mikrotik_container_running'', ''mikrotik_container_starting'',
     ''mikrotik_container_unhealthy'', ''mikrotik_container_stopped'', ''mikrotik_container_stopping'',
     ''mikrotik_container_healthy'', ''mikrotik_container_memory_current'', ''mikrotik_container_cpu_usage'']"

definition dhcp_announced :: "string list" where
  "dhcp_announced = [''mikrotik_dhcp_leases_active'']"

definition dhcpl_announced :: "string list" where
  "dhcpl_announced = [''mikrotik_dhcp_leases_status'', ''mikrotik_dhcp_leases_by_status'']"

definition dhcpv6_announced :: "string list" where
  "dhcpv6_announced = [''mikrotik_dhcpv6_binding'']"

definition disk_announced :: "string list" where
  "disk_announced = [''mikrotik_disk_size'', ''mikrotik_disk_free'', ''mikrotik_disk_mounted'']"

definition dns_adlist_announced :: "string list" where
  "dns_adlist_announced = [''mikrotik_dns_adlist_match_count_total'', ''mikrotik_dns_adlist_name_count'']"

definition dns_announced :: "string list" where
  "dns_announced = [''mikrotik_dns_cache_used_bytes'', ''mikrotik_dns_cache_size_bytes'']"

definition dude_announced :: "string list" where
  "dude_announced = [''mikrotik_dude_enabled'', ''mikrotik_dude_running'']"

definition firewall_announced :: "string list" where
  "firewall_announced = [''mikrotik_firewall_packets_total'', ''mikrotik_firewall_bytes_total'']"

definition firmware_announced :: "string list" where
  "firmware_announced = [''mikrotik_system_package_enabled'']"

definition health_announced :: "string list" where
  "health_announced = [''mikrotik_health_voltage'', ''mikrotik_health_temperature'',
     ''mikrotik_health_cpu_temperature'']"

definition interface_announced :: "string list" where
  "interface_announced = [''mikrotik_interface_actual_mtu'', ''mikrotik_interface_running'',
     ''mikrotik_interface_rx_byte_total'', ''mikrotik_interface_tx_byte_total'',
     ''mikrotik_interface_rx_packet_total'', ''mikrotik_interface_tx_packet_total'',
     ''mikrotik_interface_rx_error_total'', ''mikrotik_interface_tx_error_total'',
     ''mikrotik_interface_rx_drop_total'', ''mikrotik_interface_tx_drop_total'',
     ''mikrotik_interface_link_downs_total'', ''mikrotik_interface_tx_queue_drop_total'',
     ''mikrotik_interface_fp_rx_byte_total'', ''mikrotik_interface_fp_rx_packet_total'',
     ''mikrotik_interface_fp_tx_byte_total'', ''mikrotik_interface_fp_tx_packet_total'']"

definition ip_announced :: "string list" where
  "ip_announced = [''mikrotik_ip_ipv4_fast_path_active_total'', ''mikrotik_ip_ipv4_fast_path_bytes_total'',
     ''mikrotik_ip_ipv4_fast_path_packets_total'', ''mikrotik_ip_ipv4_fasttrack_active_total'',
     ''mikrotik_ip_ipv4_fasttrack_bytes_total'', ''mikrotik_ip_ipv4_fasttrack_packets_total'']"

definition ipsec_announced :: "string list" where
  "ipsec_announced = [''mikrotik_ipsec_ph2_state'', ''mikrotik_ipsec_invalid'', ''mikrotik_ipsec_active'',
     ''mikrotik_ipsec_active_peers_rx_bytes'', ''mikrotik_ipsec_active_peers_tx_bytes'',
     ''mikrotik_ipsec_active_peers_rx_packets'', ''mikrotik_ipsec_active_peers_tx_packets'',
     ''mikrotik_ipsec_active_peers_established'', ''mikrotik_ipsec_active_peers_uptime_seconds'',
     ''mikrotik_ipsec_active_peers_last_seen_seconds'', ''mikrotik_ipsec_active_peers_responder'']"

definition ipv6_neighbor_announced :: "string list" where
  "ipv6_neighbor_announced = [''mikrotik_ipv6_neighbor_reachable'', ''mikrotik_ipv6_neighbor_status'']"

definition lte_announced :: "string list" where
  "lte_announced = [''mikrotik_lte_interface_rssi'', ''mikrotik_lte_interface_rsrp'',
     ''mikrotik_lte_interface_rsrq'', ''mikrotik_lte_interface_sinr'', ''mikrotik_lte_interface_connected'']"

definition monitor_announced :: "string list" where
  "monitor_announced = [''mikrotik_monitor_status'', ''mikrotik_monitor_rate'',
     ''mikrotik_monitor_full_duplex'']"

definition neighbor_announced :: "string list" where
  "neighbor_announced = [''mikrotik_neighbor_entry'']"

definition netwatch_announced :: "string list" where
  "netwatch_announced = [''mikrotik_netwatch_status'']"

definition ntpc_announced :: "string list" where
  "ntpc_announced = [''mikrotik_ntp_client_enabled'', ''mikrotik_ntp_client_synchronized'',
     ''mikrotik_ntp_client_system_offset'']"

definition optics_announced :: "string list" where
  "optics_announced = [''mikrotik_optics_sfp_rx_loss'', ''mikrotik_optics_sfp_tx_fault'',
     ''mikrotik_optics_sfp_rx_power'', ''mikrotik_optics_sfp_tx_power'', ''mikrotik_optics_sfp_temperature'',
     ''mikrotik_optics_sfp_tx_bias_current'', ''mikrotik_optics_sfp_supply_voltage'']"

definition poe_announced :: "string list" where
  "poe_announced = [''mikrotik_poe_current'', ''mikrotik_poe_wattage'', ''mikrotik_poe_voltage'']"

definition pools_announced :: "string list" where
  "pools_announced = [''mikrotik_ip_pool_used'', ''mikrotik_ip_pool_total'']"

definition ppp_announced :: "string list" where
  "ppp_announced = [''mikrotik_ppp_active_peer'']"

definition queue_announced :: "string list" where
  "queue_announced = [''mikrotik_simple_queue_rx_packets_total'', ''mikrotik_simple_queue_tx_packets_total'',
     ''mikrotik_simple_queue_rx_bytes_total'', ''mikrotik_simple_queue_tx_bytes_total'',
     ''mikrotik_simple_queue_rx_queued_packets_total'', ''mikrotik_simple_queue_tx_queued_packets_total'',
     ''mikrotik_simple_queue_rx_queued_bytes_total'', ''mikrotik_simple_queue_tx_queued_bytes_total'',
     ''mikrotik_queue_queued_bytes'', ''mikrotik_queue_queued_packets'']"

definition radius_announced :: "string list" where
  "radius_announced = [''mikrotik_radius_incoming_requests_total'',
     ''mikrotik_radius_incoming_bad_requests_total'', ''mikrotik_radius_incoming_naks_total'',
     ''mikrotik_radius_incoming_acks_total'']"

definition resource_announced :: "string list" where
  "resource_announced = [''mikrotik_system_free_memory'', ''mikrotik_system_total_memory'',
     ''mikrotik_system_cpu_load'', ''mikrotik_system_free_hdd_space'', ''mikrotik_system_total_hdd_space'',
     ''mikrotik_system_cpu_frequency'', ''mikrotik_system_bad_blocks'', ''mikrotik_system_uptime_seconds'',
     ''mikrotik_system_start_time_seconds'', ''mikrotik_system_cpu_count'', ''mikrotik_system_routeros'']"

definition routes_announced :: "string list" where
  "routes_announced = [''mikrotik_routes_ret'', ''mikrotik_routes_protocol'']"

definition scripts_announced :: "string list" where
  "scripts_announced = [''mikrotik_script'']"

definition service_announced :: "string list" where
  "service_announced = [''mikrotik_service_active_connections_count'']"

definition switch_announced :: "string list" where
  "switch_announced = [''mikrotik_switch_stats'', ''mikrotik_switch_driver_rx_byte_total'',
     ''mikrotik_switch_driver_rx_packet_total'', ''mikrotik_switch_driver_tx_byte_total'',
     ''mikrotik_switch_driver_tx_packet_total'', ''mikrotik_switch_rx_broadcast_total'',
     ''mikrotik_switch_rx_bytes_total'', ''mikrotik_switch_rx_drop_total'',
     ''mikrotik_switch_rx_multicast_total'', ''mikrotik_switch_rx_packet_total'',
     ''mikrotik_switch_tx_broadcast_total'', ''mikrotik_switch_tx_bytes_total'',
     ''mikrotik_switch_tx_drop_total'', ''mikrotik_switch_tx_multicast_total'',
     ''mikrotik_switch_tx_packet_total'']"

definition w60g_announced :: "string list" where
  "w60g_announced = [''mikrotik_w60ginterface_signal'', ''mikrotik_w60ginterface_rssi'',
     ''mikrotik_w60ginterface_tx_mcs'', ''mikrotik_w60ginterface_frequency'',
     ''mikrotik_w60ginterface_tx_phy_rate'', ''mikrotik_w60ginterface_tx_sector'',
     ''mikrotik_w60ginterface_distance'', ''mikrotik_w60ginterface_tx_packet_error_rate'']"

definition wireguard_announced :: "string list" where
  "wireguard_announced = [''mikrotik_wireguard_last_handshake'', ''mikrotik_wireguard_rx_total'',
     ''mikrotik_wireguard_tx_total'', ''mikrotik_wireguard_running'', ''mikrotik_wireguard_peers_status'']"

definition wlanif_announced :: "string list" where
  "wlanif_announced = [''mikrotik_wlan_interface_frequency'', ''mikrotik_wlan_interface_registered_clients'',
     ''mikrotik_wlan_interface_noise_floor'', ''mikrotik_wlan_interface_overall_tx_ccq'',
     ''mikrotik_wlan_interface_channel'']"

definition wlansta_announced :: "string list" where
  "wlansta_announced = [''mikrotik_wlan_station_signal_to_noise'', ''mikrotik_wlan_station_signal_strength'',
     ''mikrotik_wlan_station_rx_packets_total'', ''mikrotik_wlan_station_tx_packets_total'',
     ''mikrotik_wlan_station_rx_bytes_total'', ''mikrotik_wlan_station_tx_bytes_total'',
     ''mikrotik_wlan_station_rx_frames_total'', ''mikrotik_wlan_station_tx_frames_total'']"

definition catalogue :: "(string \<times> string list) list" where
  "catalogue =
     [(''arp'', arp_announced), (''capsman'', capsman_announced), (''certs'', certs_announced),
      (''cloud'', cloud_announced), (''conntrack'', conntrack_announced),
      (''container'', container_announced), (''dhcp'', dhcp_announced), (''dhcpl'', dhcpl_announced),
      (''dhcpv6'', dhcpv6_announced), (''disk'', disk_announced), (''dns_adlist'', dns_adlist_announced),
      (''dns'', dns_announced), (''dude'', dude_announced), (''firewall'', firewall_announced),
      (''firmware'', firmware_announced), (''health'', health_announced),
      (''interface'', interface_announced), (''ip'', ip_announced), (''ipsec'', ipsec_announced),
      (''ipv6_neighbor'', ipv6_neighbor_announced), (''lte'', lte_announced),
      (''monitor'', monitor_announced), (''neighbor'', neighbor_announced),
      (''netwatch'', netwatch_announced), (''ntpc'', ntpc_announced), (''optics'', optics_announced),
      (''poe'', poe_announced), (''pools'', pools_announced), (''ppp'', ppp_announced),
      (''queue'', queue_announced), (''radius'', radius_announced), (''resource'', resource_announced),
      (''routes'', routes_announced), (''scripts'', scripts_announced), (''service'', service_announced),
      (''switch'', switch_announced), (''w60g'', w60g_announced), (''wireguard'', wireguard_announced),
      (''wlanif'', wlanif_announced), (''wlansta'', wlansta_announced)]"

definition scrape_names :: "string list" where
  "scrape_names = [''mikrotik_scrape_device_duration_seconds'', ''mikrotik_scrape_device_success'',
     ''mikrotik_scrape_device_errors_total'']"

text \<open>Evaluation: the letters, the labels, and a number for every name that tells the names apart.\<close>

lemma codes:
  "char_code CHR ''0'' = 48" "char_code CHR ''2'' = 50" "char_code CHR ''4'' = 52" "char_code CHR ''6'' = 54"
  "char_code CHR ''_'' = 95" "char_code CHR ''a'' = 97" "char_code CHR ''b'' = 98" "char_code CHR ''c'' = 99"
  "char_code CHR ''d'' = 100" "char_code CHR ''e'' = 101" "char_code CHR ''f'' = 102"
  "char_code CHR ''g'' = 103" "char_code CHR ''h'' = 104" "char_code CHR ''i'' = 105"
  "char_code CHR ''k'' = 107" "char_code CHR ''l'' = 108" "char_code CHR ''m'' = 109"
  "char_code CHR ''n'' = 110" "char_code CHR ''o'' = 111" "char_code CHR ''p'' = 112"
  "char_code CHR ''q'' = 113" "char_code CHR ''r'' = 114" "char_code CHR ''s'' = 115"
  "char_code CHR ''t'' = 116" "char_code CHR ''u'' = 117" "char_code CHR ''v'' = 118"
  "char_code CHR ''w'' = 119" "char_code CHR ''x'' = 120" "char_code CHR ''y'' = 121"
  "char_code CHR ''z'' = 122"
  by (simp_all add: char_code_def)

lemma word_chars:
  "word_char CHR ''0''" "word_char CHR ''2''" "word_char CHR ''4''" "word_char CHR ''6''" "word_char CHR ''_''"
  "word_char CHR ''a''" "word_char CHR ''b''" "word_char CHR ''c''" "word_char CHR ''d''" "word_char CHR ''e''"
  "word_char CHR ''f''" "word_char CHR ''g''" "word_char CHR ''h''" "word_char CHR ''i''" "word_char CHR ''k''"
  "word_char CHR ''l''" "word_char CHR ''m''" "word_char CHR ''n''" "word_char CHR ''o''" "word_char CHR ''p''"
  "word_char CHR ''q''" "word_char CHR ''r''" "word_char CHR ''s''" "word_char CHR ''t''" "word_char CHR ''u''"
  "word_char CHR ''v''" "word_char CHR ''w''" "word_char CHR ''x''" "word_char CHR ''y''" "word_char CHR ''z''"
  by (simp_all add: word_char_def char_code_def)

lemma legal_label_names:
  "legal_name ''about''" "legal_name ''activeaddress''" "legal_name ''activemacaddress''"
  "legal_name ''address''" "legal_name ''address4''" "legal_name ''address6''" "legal_name ''architecture''"
  "legal_name ''board''" "legal_name ''board_name''" "legal_name ''build_time''" "legal_name ''caller_id''"
  "legal_name ''cell_id''" "legal_name ''cert_name''" "legal_name ''chain''" "legal_name ''channel''"
  "legal_name ''client_address''" "legal_name ''comment''" "legal_name ''common_name''"
  "legal_name ''configuration''" "legal_name ''current_state''" "legal_name ''dev_address''"
  "legal_name ''dev_name''" "legal_name ''dhcp''" "legal_name ''dhcp_address''" "legal_name ''dhcp_macaddress''"
  "legal_name ''disabled''" "legal_name ''discovered_by''" "legal_name ''dst_address''" "legal_name ''dynamic''"
  "legal_name ''eap_identity''" "legal_name ''firewall''" "legal_name ''freqidx''" "legal_name ''fs_uuid''"
  "legal_name ''host''" "legal_name ''hostname''" "legal_name ''identity''" "legal_name ''interface''"
  "legal_name ''interface_name''" "legal_name ''ip_version''" "legal_name ''ipv6''" "legal_name ''issuer''"
  "legal_name ''mac_address''" "legal_name ''master_interface''" "legal_name ''metric''"
  "legal_name ''mount_point''" "legal_name ''name''" "legal_name ''neighbor_address''" "legal_name ''platform''"
  "legal_name ''pool''" "legal_name ''primary_band''" "legal_name ''protocol''" "legal_name ''public_key''"
  "legal_name ''queue''" "legal_name ''radio_mac''" "legal_name ''remote_cap_identity''"
  "legal_name ''remote_cap_name''" "legal_name ''router''" "legal_name ''script''"
  "legal_name ''serial_number''" "legal_name ''server''" "legal_name ''service''" "legal_name ''side''"
  "legal_name ''simple_queue_name''" "legal_name ''slot''" "legal_name ''software_id''"
  "legal_name ''src_address''" "legal_name ''ssid''" "legal_name ''status''" "legal_name ''switch''"
  "legal_name ''system_caps''" "legal_name ''system_description''" "legal_name ''type''" "legal_name ''url''"
  "legal_name ''version''" "legal_name ''wg_name''"
  by (simp_all only: legal_name_def list.sel list.pred_inject codes word_chars rel_simps simp_thms list.distinct)

primrec fingerprint :: "string \<Rightarrow> int \<Rightarrow> int" where
  "fingerprint [] r = r"
| "fingerprint (c # s) r = fingerprint s (4 * r + char_code c)"

lemmas cleanup_simps = MetricStringCleanup_def replace_byte_def

lemma legal_label_lists:
  "legal_labels [''dev_name'', ''dev_address'']"
  "legal_labels [''dev_name'', ''dev_address'', ''about'', ''address4'', ''discovered-by'', ''interface'', ''ipv6'', ''platform'', ''software-id'', ''version'', ''neighbor-address'', ''address6'', ''board'', ''identity'', ''interface-name'', ''mac-address'', ''system-caps'', ''system-description'']"
  "legal_labels [''dev_name'', ''dev_address'', ''activemacaddress'', ''server'', ''status'', ''activeaddress'', ''hostname'', ''comment'', ''dhcp_address'', ''dhcp_macaddress'']"
  "legal_labels [''dev_name'', ''dev_address'', ''address'', ''interface'', ''mac_address'', ''dynamic'', ''router'']"
  "legal_labels [''dev_name'', ''dev_address'', ''board_name'', ''version'', ''architecture'']"
  "legal_labels [''dev_name'', ''dev_address'', ''cert-name'', ''common-name'', ''issuer'', ''serial-number'']"
  "legal_labels [''dev_name'', ''dev_address'', ''client_address'', ''interface'', ''mac_address'', ''comment'', ''dhcp'', ''dynamic'']"
  "legal_labels [''dev_name'', ''dev_address'', ''firewall'', ''chain'', ''comment'']"
  "legal_labels [''dev_name'', ''dev_address'', ''host'', ''comment'', ''status'']"
  "legal_labels [''dev_name'', ''dev_address'', ''interface'']"
  "legal_labels [''dev_name'', ''dev_address'', ''interface'', ''cell_id'', ''primary_band'']"
  "legal_labels [''dev_name'', ''dev_address'', ''interface'', ''channel'']"
  "legal_labels [''dev_name'', ''dev_address'', ''interface'', ''freqidx'']"
  "legal_labels [''dev_name'', ''dev_address'', ''interface'', ''mac_address'']"
  "legal_labels [''dev_name'', ''dev_address'', ''interface'', ''mac_address'', ''configuration'', ''master_interface'']"
  "legal_labels [''dev_name'', ''dev_address'', ''interface'', ''mac_address'', ''configuration'', ''master_interface'', ''current_state'']"
  "legal_labels [''dev_name'', ''dev_address'', ''interface'', ''mac_address'', ''ssid'', ''eap_identity'', ''comment'']"
  "legal_labels [''dev_name'', ''dev_address'', ''interface'', ''radio_mac'', ''remote_cap_identity'', ''remote_cap_name'']"
  "legal_labels [''dev_name'', ''dev_address'', ''interface'', ''type'']"
  "legal_labels [''dev_name'', ''dev_address'', ''ip_version'']"
  "legal_labels [''dev_name'', ''dev_address'', ''ip_version'', ''pool'']"
  "legal_labels [''dev_name'', ''dev_address'', ''ip_version'', ''protocol'']"
  "legal_labels [''dev_name'', ''dev_address'', ''name'']"
  "legal_labels [''dev_name'', ''dev_address'', ''name'', ''service'', ''caller_id'', ''address'']"
  "legal_labels [''dev_name'', ''dev_address'', ''name'', ''version'', ''build_time'']"
  "legal_labels [''dev_name'', ''dev_address'', ''public_key'', ''comment'', ''disabled'']"
  "legal_labels [''dev_name'', ''dev_address'', ''public_key'', ''wg_name'', ''comment'']"
  "legal_labels [''dev_name'', ''dev_address'', ''script'']"
  "legal_labels [''dev_name'', ''dev_address'', ''server'']"
  "legal_labels [''dev_name'', ''dev_address'', ''service'']"
  "legal_labels [''dev_name'', ''dev_address'', ''simple_queue_name'', ''queue'', ''comment'']"
  "legal_labels [''dev_name'', ''dev_address'', ''slot'', ''fs-uuid'', ''mount-point'']"
  "legal_labels [''dev_name'', ''dev_address'', ''src_address'', ''dst_address'', ''comment'']"
  "legal_labels [''dev_name'', ''dev_address'', ''src_address'', ''dst_address'', ''comment'', ''side'']"
  "legal_labels [''dev_name'', ''dev_address'', ''status'']"
  "legal_labels [''dev_name'', ''dev_address'', ''switch'']"
  "legal_labels [''dev_name'', ''dev_address'', ''switch'', ''metric'']"
  "legal_labels [''dev_name'', ''dev_address'', ''url'']"
  by (simp_all add: legal_labels_def legal_label_names cleanup_simps LabelDevName_def LabelDevAddress_def)

lemmas announce_simps = announces_def legal_label_lists fq_name_def
  joined_name_def as_collector_def build_simps build_metric_def prepare_def descriptionForPropertyNameHelpText_def
  MetricStringCleanup_def replace_byte_def list_Describe_def newStatusPropertyMetric_def
  LabelDevName_def LabelDevAddress_def LabelInterface_def LabelComment_def

lemma announces_arp: "announces arp_announced (as_collector arp_Describe arp_Collect newARPCollector)"
  by (simp add: arp_announced_def newARPCollector_def arp_Describe_def announce_simps)

lemma announces_capsman: "announces capsman_announced (as_collector capsman_Describe capsman_Collect newCapsmanCollector)"
  by (simp add: capsman_announced_def newCapsmanCollector_def capsman_Describe_def announce_simps)

lemma announces_certs: "announces certs_announced (as_collector certs_Describe certs_Collect newCertsCollector)"
  by (simp add: certs_announced_def newCertsCollector_def certs_Describe_def announce_simps)

lemma announces_cloud: "announces cloud_announced (as_collector cloud_Describe cloud_Collect newCloudCollector)"
  by (simp add: cloud_announced_def newCloudCollector_def cloud_Describe_def announce_simps)

lemma announces_conntrack: "announces conntrack_announced (as_collector conntrack_Describe conntrack_Collect newConntrackCollector)"
  by (simp add: conntrack_announced_def newConntrackCollector_def conntrack_Describe_def announce_simps)

lemma announces_container: "announces container_announced (as_collector container_Describe container_Collect newContainerCollector)"
  by (simp add: container_announced_def newContainerCollector_def container_Describe_def announce_simps)

lemma announces_dhcp: "announces dhcp_announced (as_collector dhcp_Describe dhcp_Collect newDHCPCollector)"
  by (simp add: dhcp_announced_def newDHCPCollector_def dhcp_Describe_def announce_simps)

lemma announces_dhcpl: "announces dhcpl_announced (as_collector dhcpl_Describe dhcpl_Collect newDHCPLCollector)"
  by (simp add: dhcpl_announced_def newDHCPLCollector_def dhcpl_Describe_def announce_simps)

lemma announces_dhcpv6: "announces dhcpv6_announced (as_collector dhcpv6_Describe dhcpv6_Collect newDHCPv6Collector)"
  by (simp add: dhcpv6_announced_def newDHCPv6Collector_def dhcpv6_Describe_def announce_simps)

lemma announces_disk: "announces disk_announced (as_collector disk_Describe disk_Collect newDiskCollector)"
  by (simp add: disk_announced_def newDiskCollector_def disk_Describe_def announce_simps)

lemma announces_dns_adlist: "announces dns_adlist_announced (as_collector dns_adlist_Describe dns_adlist_Collect newDNSAdlistCollector)"
  by (simp add: dns_adlist_announced_def newDNSAdlistCollector_def dns_adlist_Describe_def announce_simps)

lemma announces_dns: "announces dns_announced (as_collector dns_Describe dns_Collect newDNSCollector)"
  by (simp add: dns_announced_def newDNSCollector_def dns_Describe_def announce_simps)

lemma announces_dude: "announces dude_announced (as_collector dude_Describe dude_Collect newDudeCollector)"
  by (simp add: dude_announced_def newDudeCollector_def dude_Describe_def announce_simps)

lemma announces_firewall: "announces firewall_announced (as_collector firewall_Describe firewall_Collect newFirewallCollector)"
  by (simp add: firewall_announced_def newFirewallCollector_def firewall_Describe_def announce_simps)

lemma announces_firmware: "announces firmware_announced (as_collector firmware_Describe firmware_Collect newFirmwareCollector)"
  by (simp add: firmware_announced_def newFirmwareCollector_def firmware_Describe_def announce_simps)

lemma announces_health: "announces health_announced (as_collector health_Describe health_Collect newhealthCollector)"
  by (simp add: health_announced_def newhealthCollector_def health_Describe_def announce_simps)

lemma announces_interface: "announces interface_announced (as_collector interface_Describe interface_Collect newInterfaceCollector)"
  by (simp add: interface_announced_def newInterfaceCollector_def interface_Describe_def announce_simps)

lemma announces_ip: "announces ip_announced (as_collector ip_Describe ip_Collect newIPCollector)"
  by (simp add: ip_announced_def newIPCollector_def ip_Describe_def announce_simps)

lemma announces_ipsec: "announces ipsec_announced (as_collector ipsec_Describe ipsec_Collect newIpsecCollector)"
  by (simp add: ipsec_announced_def newIpsecCollector_def ipsec_Describe_def announce_simps)

lemma announces_ipv6_neighbor: "announces ipv6_neighbor_announced (as_collector ipv6_neighbor_Describe ipv6_neighbor_Collect newIPv6NeighborCollector)"
  by (simp add: ipv6_neighbor_announced_def newIPv6NeighborCollector_def ipv6_neighbor_Describe_def announce_simps)

lemma announces_lte: "announces lte_announced (as_collector lte_Describe lte_Collect newLteCollector)"
  by (simp add: lte_announced_def newLteCollector_def lte_Describe_def announce_simps)

lemma announces_monitor: "announces monitor_announced (as_collector monitor_Describe monitor_Collect newMonitorCollector)"
  by (simp add: monitor_announced_def newMonitorCollector_def monitor_Describe_def announce_simps)

lemma announces_neighbor: "announces neighbor_announced (as_collector neighbor_Describe neighbor_Collect newNeighborCollector)"
  by (simp add: neighbor_announced_def newNeighborCollector_def neighbor_Describe_def announce_simps)

lemma announces_netwatch: "announces netwatch_announced (as_collector netwatch_Describe netwatch_Collect newNetwatchCollector)"
  by (simp add: netwatch_announced_def newNetwatchCollector_def netwatch_Describe_def announce_simps)

lemma announces_ntpc: "announces ntpc_announced (as_collector ntpc_Describe ntpc_Collect newNTPcCollector)"
  by (simp add: ntpc_announced_def newNTPcCollector_def ntpc_Describe_def announce_simps)

lemma announces_optics: "announces optics_announced (as_collector optics_Describe optics_Collect newOpticsCollector)"
  by (simp add: optics_announced_def newOpticsCollector_def optics_Describe_def announce_simps)

lemma announces_poe: "announces poe_announced (as_collector poe_Describe poe_Collect newPOECollector)"
  by (simp add: poe_announced_def newPOECollector_def poe_Describe_def announce_simps)

lemma announces_pools: "announces pools_announced (as_collector pools_Describe pools_Collect newPoolCollector)"
  by (simp add: pools_announced_def newPoolCollector_def pools_Describe_def announce_simps)

lemma announces_ppp: "announces ppp_announced (as_collector ppp_Describe ppp_Collect newPPPCollector)"
  by (simp add: ppp_announced_def newPPPCollector_def ppp_Describe_def announce_simps)

lemma announces_queue: "announces queue_announced (as_collector queue_Describe queue_Collect newQueueCollector)"
  by (simp add: queue_announced_def newQueueCollector_def queue_Describe_def announce_simps)

lemma announces_radius: "announces radius_announced (as_collector radius_Describe radius_Collect newRadiusCollector)"
  by (simp add: radius_announced_def newRadiusCollector_def radius_Describe_def announce_simps)

lemma announces_resource: "announces resource_announced (as_collector resource_Describe resource_Collect (newResourceCollector now))"
  by (simp add: resource_announced_def newResourceCollector_def resource_Describe_def announce_simps)

lemma announces_routes: "announces routes_announced (as_collector routes_Describe routes_Collect newRoutesCollector)"
  by (simp add: routes_announced_def newRoutesCollector_def routes_Describe_def announce_simps)

lemma announces_scripts: "announces scripts_announced (as_collector scripts_Describe scripts_Collect newScriptCollector)"
  by (simp add: scripts_announced_def newScriptCollector_def scripts_Describe_def announce_simps)

lemma announces_service: "announces service_announced (as_collector service_Describe service_Collect newServiceConnCollector)"
  by (simp add: service_announced_def newServiceConnCollector_def service_Describe_def announce_simps)

lemma announces_switch: "announces switch_announced (as_collector switch_Describe switch_Collect newSwitchCollector)"
  by (simp add: switch_announced_def newSwitchCollector_def switch_Describe_def announce_simps)

lemma announces_w60g: "announces w60g_announced (as_collector w60g_Describe w60g_Collect neww60gInterfaceCollector)"
  by (simp add: w60g_announced_def neww60gInterfaceCollector_def w60g_Describe_def announce_simps)

lemma announces_wireguard: "announces wireguard_announced (as_collector wireguard_Describe wireguard_Collect newWireguardCollector)"
  by (simp add: wireguard_announced_def newWireguardCollector_def wireguard_Describe_def announce_simps)

lemma announces_wlanif: "announces wlanif_announced (as_collector wlanif_Describe wlanif_Collect newWlanIFCollector)"
  by (simp add: wlanif_announced_def newWlanIFCollector_def wlanif_Describe_def announce_simps)

lemma announces_wlansta: "announces wlansta_announced (as_collector wlansta_Describe wlansta_Collect newWlanSTACollector)"
  by (simp add: wlansta_announced_def newWlanSTACollector_def wlansta_Describe_def announce_simps)

lemmas catalogue_simps =   catalogue_def arp_announced_def capsman_announced_def certs_announced_def
  cloud_announced_def conntrack_announced_def container_announced_def dhcp_announced_def dhcpl_announced_def
  dhcpv6_announced_def disk_announced_def dns_adlist_announced_def dns_announced_def dude_announced_def
  firewall_announced_def firmware_announced_def health_announced_def interface_announced_def ip_announced_def
  ipsec_announced_def ipv6_neighbor_announced_def lte_announced_def monitor_announced_def neighbor_announced_def
  netwatch_announced_def ntpc_announced_def optics_announced_def poe_announced_def pools_announced_def
  ppp_announced_def queue_announced_def radius_announced_def resource_announced_def routes_announced_def
  scripts_announced_def service_announced_def switch_announced_def w60g_announced_def wireguard_announced_def
  wlanif_announced_def wlansta_announced_def

lemma catalogue_legal: "list_all legal_name (scrape_names @ concat (map snd catalogue))"
  by (simp only: catalogue_simps scrape_names_def list.map snd_conv concat.simps append.simps
      legal_name_def list.sel list.pred_inject codes word_chars rel_simps simp_thms list.distinct)

lemma catalogue_distinct: "distinct (scrape_names @ concat (map snd catalogue))"
proof -
  have "map (\<lambda>s. fingerprint s 0) (scrape_names @ concat (map snd catalogue)) =
    [10902985254430082462321571, 41591588037224187983, 42589786150117511578864, 158659256579973, 9916203553223,
    39664814169864, 10647441933752099236248, 2926746553051887561390803580889955,
    2926746553051887561391013505805155, 10647441933731488745007, 2661860483432872176390,
    42589767734925954788557, 665465120858218046533, 10902980540187328396266403, 10647441933776687875984,
    10647441933776687744912, 174447688642997251924772080, 174447688642997254072255728,
    10902980540187328237962480, 10902980540187328372180208, 649868300900270022, 158659259814343,
    41591573000246676024, 41591573000246740527, 2791163216019629302514410613, 2791163216019629302516507765,
    10154192627013195, 665465179578584555799, 41591573723650744599, 162467084918801967, 649868339675208623,
    2599473358700878169, 162467084918805496, 649868339675222191, 162467084918741337, 2661860719309047814908,
    2599473358699783633, 649868313780141261, 649868313780163015, 41591572081929392583, 2538548103091119,
    2479050956957, 2479050956185, 158659261228472, 681436357281580161815792, 41591574541112218684,
    10397893635924854151, 10397893635924022663, 158659269446200, 158659269510703, 166366301964890227952,
    10397893872798303472, 166366377766722554424, 2538548311452945, 649868367727271805, 166366302134432276349,
    10397895070488289493, 162467110476465711, 665465284511598535920, 665465284511632090352,
    10647444552185606149360, 10647444552186143020272, 2661861138046395544816, 2661861138046529762544,
    665465284511598564592, 665465284511632119024, 42589778208732873213168, 2725745805359659336783088,
    42589778208727516996848, 681436451339640301524208, 42589778208727550551280, 681436451339640838395120,
    10902983004286717420037360, 2725745751071679361746160, 43611932017146869905310960,
    10902983004287082425148656, 2725745751071770613023984, 43611932017148329925756144, 10154194505512005,
    634637156589320, 158659289136333, 170359114511824874177927, 170359114511824874210695,
    2725745832189197986875987, 2725745832189197987400275, 10902983328756791933705784,
    697790933040434684791229347, 44658619714587819772174601123, 681436458047299496493766, 665465281443697484917,
    10397895022557778375, 649868501114063077, 649868501114063080, 649868501114063081, 649868501114062970,
    665465345140799561464, 2538548866830791, 158659304176581, 2599474039621884364, 2538548739106305,
    10154195204526535, 649868546802469432, 665465391925802462680, 2661861567703219205304, 649868553869673263,
    2599474215478723508, 2599474215478694198, 2599474215478726966, 166366349790634418045,
    42589785546403393002236, 10647446386600818928913, 39664828373756, 39664828435729, 39664828443921,
    158659284886888, 634637139547376, 10154196308571990, 2725746415009463563404528, 2725746415009465710888176,
    170359150938091465377008, 170359150938091599594736, 44658629263515052743951074544,
    44658629263515087928323163376, 2791164328969690796489606384, 2791164328969692995512861936,
    649868596695696775, 10397897547131177555, 10902984615591004944024816, 2791164061591296954376996080,
    42589783654652361639152, 42589783654652358362352, 649868663145262449, 2599474652640456049,
    10154197861603032, 41591594441296401153, 166366377768988791553, 10397898610281229093, 162467165784115215,
    41591594442340043683, 10647448177204334824355, 40616791446410300, 10154197861849743, 9916207966184,
    10154196957426712, 38735184964, 174447767759618010003256380, 158659336819795, 170359165707426960139504,
    2725746651318831391806704, 170359165707426993693936, 2725746651318831928677616, 10647447856965177513200,
    41591593191272514800, 10397898297818141936, 10647447856968366232816, 166366372765119386864,
    10647447856999537251568, 41591593191406732528, 10397898297851696368, 10647447857002725971184,
    166366372765656257776, 10397893904701097872, 649868369043818725, 10397893904701102223,
    665465209900869561125, 10647443358413928785861, 665465209900870550318, 166366302475217334545,
    2791163391748060934873791429, 2661862024521581937953, 649868658330637552, 649868658330670320,
    162467164582659631, 166366376532616352199, 2661862009640913939237, 697791154655307894110038883,
    42589792154254630852126, 2725746697872296541116397, 166366375602557097312, 681436674653208661261953,
    681436674653208661283112, 2725746698612837087397104, 2725746698612839234880752, 170359168663302310626544,
    170359168663302444844272, 681436674653209247319280, 681436674653209784190192]"
    by (simp only: catalogue_simps scrape_names_def list.map snd_conv concat.simps append.simps fingerprint.simps codes
        arith_simps arith_special rel_simps)
  moreover have "distinct \<dots>" by simp
  ultimately show ?thesis by (metis distinct_map)
qed

lemmas announces_rules = announces_arp announces_capsman announces_certs announces_cloud announces_conntrack
  announces_container announces_dhcp announces_dhcpl announces_dhcpv6 announces_disk announces_dns_adlist
  announces_dns announces_dude announces_firewall announces_firmware announces_health announces_interface
  announces_ip announces_ipsec announces_ipv6_neighbor announces_lte announces_monitor announces_neighbor
  announces_netwatch announces_ntpc announces_optics announces_poe announces_pools announces_ppp announces_queue
  announces_radius announces_resource announces_routes announces_scripts announces_service announces_switch
  announces_w60g announces_wireguard announces_wlanif announces_wlansta

lemma entries_announce:
  assumes "(n, f, t) \<in> set (entries now)" shows "\<exists>names. (n, names) \<in> set catalogue \<and> announces names f"
proof -
  have "list_all (\<lambda>(n, f, t). \<exists>names. (n, names) \<in> set catalogue \<and> announces names f) (entries now)"
    unfolding table_def catalogue_def list.pred_inject prod.case
    by (intro conjI TrueI exI; (rule announces_rules | simp))
  with assms show ?thesis by (auto simp: list_all_iff)
qed

text \<open>The collectors of a configuration are entries of the registry, each at most once.\<close>

lemma create_loop_entries:
  assumes "create_loop reg ks m = Return ci" and "wf_map m"
    and "\<forall>(n, k) \<in> set m. InstanateCollector reg n = Return (Some k)"
  shows "wf_map ci \<and> (\<forall>(n, k) \<in> set ci. InstanateCollector reg n = Return (Some k))"
  using assms
proof (induction ks arbitrary: m)
  case (Cons k ks)
  obtain col where col: "InstanateCollector reg k = Return col"
    and r: "create_loop reg ks (case col of Some c \<Rightarrow> mput k c m | None \<Rightarrow> m) = Return ci"
    using Cons.prems(1) by (cases "InstanateCollector reg k") auto
  have "(n, x) \<in> set (mput k c m) \<Longrightarrow> (n, x) \<in> set m \<or> n = k \<and> x = c" for n x c
    by (induction m) (auto simp: mput_def split: if_splits)
  then have "\<forall>(n, x) \<in> set (case col of Some c \<Rightarrow> mput k c m | None \<Rightarrow> m). InstanateCollector reg n = Return (Some x)"
    using Cons.prems(3) col by (cases col) fastforce+
  moreover have "wf_map (case col of Some c \<Rightarrow> mput k c m | None \<Rightarrow> m)" using Cons.prems(2) by (cases col) simp_all
  ultimately show ?case using Cons.IH [OF r] by blast
qed simp

lemma NewCollector_entries:
  assumes "NewCollector (registry now) cfg = Return c"
  shows "\<exists>ns. distinct ns \<and> list_all2 (\<lambda>n k. \<exists>t. (n, Return k, t) \<in> set (entries now)) ns (mk_collectors c)"
proof -
  from assms obtain ks ci where ci: "create_loop (registry now) ks [] = Return ci" and c: "mk_collectors c = map snd ci"
    by (auto simp: NewCollector_def createCollectors_def instances_def obind_def split: outcome.splits)
  have "\<exists>t. (n, Return k, t) \<in> set (entries now)" if "InstanateCollector (registry now) n = Return (Some k)" for n k
    using that unfolding InstanateCollector_def registry_def registered_eq
    by (auto simp: mget_def obind_def split: option.splits outcome.splits dest!: map_of_SomeD) (blast+)?
  with create_loop_entries [OF ci] have "wf_map ci" "\<forall>(n, k) \<in> set ci. \<exists>t. (n, Return k, t) \<in> set (entries now)"
    by (auto simp: wf_map_def)
  then show ?thesis unfolding c
    by (intro exI [of _ "map fst ci"]) (auto simp: wf_map_def list.rel_map list_all2_same)
qed

lemma concat_disjoint:
  assumes "distinct (concat (map snd cat))" and "(n, xs) \<in> set cat" and "(n', ys) \<in> set cat" and "n \<noteq> n'"
  shows "set xs \<inter> set ys = {}"
  using assms by (induction cat) (fastforce simp: disjoint_iff)+

lemma distinct_selected:
  assumes "distinct (concat (map snd cat))"
    and "list_all2 (\<lambda>n k. (n, g k) \<in> set cat) ns ks" and "distinct ns"
  shows "distinct (concat (map g ks)) \<and> set (concat (map g ks)) \<subseteq> set (concat (map snd cat))"
  using assms(2,3)
proof (induction rule: list_all2_induct)
  case (Cons n ns k ks)
  have "distinct (g k)" using assms(1) Cons.hyps(1) by (force simp: distinct_concat_iff)
  moreover have "set (g k) \<inter> set (g k') = {}" if "k' \<in> set ks" for k'
  proof -
    obtain i where "i < length ks" "k' = ks ! i" using \<open>k' \<in> set ks\<close> by (auto simp: in_set_conv_nth)
    then obtain n' where "n' \<in> set ns" "(n', g k') \<in> set cat"
      using list_all2_nthD2 [OF Cons.hyps(2)] list_all2_lengthD [OF Cons.hyps(2)] by (metis nth_mem)
    with concat_disjoint [OF assms(1) Cons.hyps(1)] Cons.prems show ?thesis by auto
  qed
  ultimately show ?case using Cons by (force simp: disjoint_iff)
qed simp

lemma announced_names:
  assumes "NewCollector (registry now) cfg = Return c"
  shows "distinct (map fq_name (mikrotik_Describe c))
     \<and> (\<forall>d \<in> set (mikrotik_Describe c). legal_name (fq_name d) \<and> legal_labels (dc_labels d))"
proof -
  obtain ns where ns: "distinct ns" "list_all2 (\<lambda>n k. \<exists>t. (n, Return k, t) \<in> set (entries now)) ns (mk_collectors c)"
    using NewCollector_entries [OF assms] by blast
  let ?g = "\<lambda>k. map fq_name (rc_Describe k)"
  have an: "(n, ?g k) \<in> set catalogue \<and> list_all legal_labels (map dc_labels (rc_Describe k))"
    if "(n, Return k, t) \<in> set (entries now)" for n k t
    using entries_announce [OF that] by (auto simp: announces_def)
  have cat: "list_all2 (\<lambda>n k. (n, ?g k) \<in> set catalogue) ns (mk_collectors c)"
    using ns(2) by (rule list_all2_mono) (use an in blast)
  have own: "map fq_name [scrapeDeviceDurationDesc, scrapeDeviceSuccessDesc, scrapeCollectorErrorsDesc] = scrape_names"
    by (simp add: scrape_names_def fq_name_def joined_name_def scrapeDeviceDurationDesc_def scrapeDeviceSuccessDesc_def
        scrapeCollectorErrorsDesc_def)
  have names: "map fq_name (mikrotik_Describe c) = scrape_names @ concat (map ?g (mk_collectors c))"
    unfolding own [symmetric] by (simp add: mikrotik_Describe_def map_concat comp_def)
  have sel: "distinct (concat (map ?g (mk_collectors c)))"
    "set (concat (map ?g (mk_collectors c))) \<subseteq> set (concat (map snd catalogue))"
    using distinct_selected [OF _ cat ns(1)] catalogue_distinct by simp_all
  have "distinct (map fq_name (mikrotik_Describe c))"
    unfolding names using sel catalogue_distinct by (auto simp: disjoint_iff)
  moreover have "legal_name (fq_name d)" if "d \<in> set (mikrotik_Describe c)" for d
  proof -
    have "fq_name d \<in> set (map fq_name (mikrotik_Describe c))" using that by simp
    then have "fq_name d \<in> set (scrape_names @ concat (map snd catalogue))" unfolding names using sel(2) by auto
    with catalogue_legal show ?thesis by (simp only: list_all_iff)
  qed
  moreover have "legal_labels (dc_labels d)" if "d \<in> set (mikrotik_Describe c)" for d
  proof -
    have "legal_labels [''dev_name'', ''dev_address'']" by (rule legal_label_lists)
    moreover have "\<forall>k \<in> set (mk_collectors c). \<exists>n t. (n, Return k, t) \<in> set (entries now)"
      using ns(2) by (fastforce simp: list_all2_conv_all_nth in_set_conv_nth)
    ultimately show ?thesis using that an
      by (auto simp: mikrotik_Describe_def list_all_iff scrapeDeviceDurationDesc_def scrapeDeviceSuccessDesc_def
          scrapeCollectorErrorsDesc_def)
  qed
  ultimately show ?thesis by blast
qed

text \<open>
  Property C15: what \<open>Describe\<close> announces can be registered.  Whatever features a configuration switches on,
  the descriptions of the collector \<open>NewCollector\<close> returns have pairwise different full names, so
  none can contradict another; all names are small letters, digits and underscores, and the labels of a
  description start with the two of the device, are legal and different, even when hyphens are written as underscores.
\<close>

theorem descriptions_unique:
  assumes "NewCollector (registry now) cfg = Return c"
  shows "distinct (map fq_name (mikrotik_Describe c))
     \<and> (\<forall>d \<in> set (mikrotik_Describe c). legal_name (fq_name d) \<and> legal_labels (dc_labels d))"
  by (rule announced_names [OF assms])

theorem descriptions_unique_witness:
  "\<exists>c. NewCollector (registry 0) example_loaded = Return c \<and> distinct (map fq_name (mikrotik_Describe c))"
proof -
  obtain c where c: "NewCollector (registry 0) example_loaded = Return c"
    using NewCollector_built [OF Load_good [OF example_loads], of 0] by blast
  with descriptions_unique [OF c] show ?thesis by blast
qed

end
