(* ===== verification/Server.thy ===== *)
theory Server
  imports Scrapes Flags Logging Descriptions
begin

text \<open>
  The rest of \<^verbatim>\<open>cli/main.go\<close>: from the arguments of the program to the listening server.  What the program does is
  a list of events and the state of the mux and of the metric registry; \<open>main\<close> returns the exit code of the process,
  panics, or never returns, when the server listens for ever.  Systemd, the metric library and the
  web toolkit are the parameters in \<open>system\<close>, with their documented behaviour as \<open>documented\<close>.
  \<^verbatim>\<open>http.Handle\<close> of the standard library panics on a pattern it cannot add; for paths of
  letters, digits and the signs \<^verbatim>\<open>/ . - _ ~\<close> this is the case exactly when the same path is there
  already, and what it does with any other pattern (a method, a host, wildcards, escapes) is a parameter.
\<close>

section \<open>The environment and the state\<close>

type_synonym description = "string \<times> string list"

record system =
  sys_args :: "string list"
  sys_getenv :: "string \<Rightarrow> string"
  sys_readFile :: "string \<Rightarrow> goerror + string"
  sys_unmarshal :: "string \<Rightarrow> goerror + Config"
  sys_now :: int
  sys_version :: string
  sys_fqName :: "string \<Rightarrow> string \<Rightarrow> string \<Rightarrow> string"
  sys_foreign :: "description list \<times> description list"  \<comment> \<open>what the Go and the process collector describe\<close>
  sys_register :: "description list \<Rightarrow> description list \<Rightarrow> goerror option"
  sys_mux :: "string list \<Rightarrow> string \<Rightarrow> bool"
  sys_notify :: "string \<Rightarrow> goerror + bool"
  sys_watchdog :: "goerror + int"
  sys_landing :: "goerror option"
  sys_serve :: "goerror option option"  \<comment> \<open>what \<^verbatim>\<open>ListenAndServe\<close> returns, if it does\<close>
  sys_text :: "goerror \<Rightarrow> string"

record handler_opts =
  ho_DisableCompression :: bool
  ho_MaxRequestsInFlight :: nat
  ho_EnableOpenMetrics :: bool

datatype handler = MetricsHandler handler_opts mikrotikCollector | Healthz | LandingPage string

datatype event =
    Printed string
  | Notified string
  | WatchdogEvery int
  | Served string int string  \<comment> \<open>the address, the timeout of reading and writing, the web configuration\<close>

record server =
  sv_events :: "event list"
  sv_handlers :: "(string \<times> handler) list"
  sv_registered :: "description list"

type_synonym 'a proc = "(server, 'a) gom"

definition occurs :: "event \<Rightarrow> unit proc" where
  "occurs e = gupdate (\<lambda>s. s\<lparr>sv_events := sv_events s @ [e]\<rparr>)"

definition lifted :: "'a outcome \<Rightarrow> 'a proc" where
  "lifted r = (\<lambda>s. (r, s))"

definition SdNotify :: "system \<Rightarrow> string \<Rightarrow> (goerror + bool) proc" where
  "SdNotify sys state = gseq (occurs (Notified state)) (gret (sys_notify sys state))"


section \<open>Starting the server\<close>

definition enableSDNotify :: "system \<Rightarrow> goerror option proc" where
  "enableSDNotify sys =
     gbind (SdNotify sys ''STATUS=starting'') (\<lambda>r. case r of
       Inl err \<Rightarrow> gret (Some (Wrapf ''send sd status error: %w'' [] err))
     | Inr running \<Rightarrow>
         if \<not> running then gret None
         else (case sys_watchdog sys of
                 Inl err \<Rightarrow> gret (Some (Wrapf ''enable sdwatchdog error: %w'' [] err))
               | Inr interval \<Rightarrow>
                   if interval = 0 then gret None
                   else gseq (occurs (WatchdogEvery (interval sdiv 2))) (gret None)))"

definition Register :: "system \<Rightarrow> description list \<Rightarrow> goerror option proc" where
  "Register sys ds = (\<lambda>s. case sys_register sys (sv_registered s) ds of
       None \<Rightarrow> (Return None, s\<lparr>sv_registered := sv_registered s @ ds\<rparr>)
     | Some err \<Rightarrow> (Return (Some err), s))"

definition described :: "system \<Rightarrow> mikrotikCollector \<Rightarrow> description list" where
  \<comment> \<open>what the metric library gets from \<open>Describe\<close>\<close>
  "described sys c = map (\<lambda>d. (sys_fqName sys ''mikrotik'' (dc_subsystem d) (dc_name d), dc_labels d)) (mikrotik_Describe c)"

definition createMetricsHandler :: "system \<Rightarrow> cli_flags \<Rightarrow> Config \<Rightarrow> (goerror + handler) proc" where
  "createMetricsHandler sys fl cfg =
     gbind (lifted (NewCollector (registry (sys_now sys)) cfg)) (\<lambda>collector.
     gbind (Register sys (fst (sys_foreign sys))) (\<lambda>err. case err of
       Some e \<Rightarrow> gret (Inl (Wrapf ''register gocollector error: %w'' [] e))
     | None \<Rightarrow>
     gbind (Register sys (snd (sys_foreign sys))) (\<lambda>err. case err of
       Some e \<Rightarrow> gret (Inl (Wrapf ''register process collector error: %w'' [] e))
     | None \<Rightarrow>
     gbind (Register sys (described sys collector)) (\<lambda>err. case err of
       Some e \<Rightarrow> gret (Inl (Wrapf ''register collector error: %w'' [] e))
     | None \<Rightarrow>
     (let disableCompression = has_prefix (fl_listen fl) ''127.'' \<or> has_prefix (fl_listen fl) ''localhost:''
      in gret (Inr (MetricsHandler \<lparr>ho_DisableCompression = disableCompression, ho_MaxRequestsInFlight = 1,
                                    ho_EnableOpenMetrics = True\<rparr> collector)))))))"

definition plain_path :: "string \<Rightarrow> bool" where
  "plain_path p \<longleftrightarrow> p \<noteq> [] \<and> hd p = CHR ''/''
     \<and> list_all (\<lambda>c. is_digit c \<or> 97 \<le> char_code (lower_char c) \<and> char_code (lower_char c) \<le> 122 \<or> c \<in> set ''/.-_~'') p"

definition mux_accepts :: "system \<Rightarrow> string list \<Rightarrow> string \<Rightarrow> bool" where
  "mux_accepts sys patterns p \<longleftrightarrow>
     p \<noteq> [] \<and> (if list_all plain_path (p # patterns) then p \<notin> set patterns else sys_mux sys patterns p)"

definition Handle :: "system \<Rightarrow> string \<Rightarrow> handler \<Rightarrow> unit proc" where
  "Handle sys pattern h = (\<lambda>s.
     if mux_accepts sys (map fst (sv_handlers s)) pattern
     then (Return (), s\<lparr>sv_handlers := sv_handlers s @ [(pattern, h)]\<rparr>)
     else (Panicked (PanicMsg (''http: pattern '' @ pattern)), s))"

definition serverTimeout :: "int \<Rightarrow> int" where
  \<comment> \<open>\<^verbatim>\<open>time.Duration(30**timeout) * time.Second\<close>\<close>
  "serverTimeout timeout = sint (word_of_int (sint (word_of_int (30 * timeout) :: 64 word) * 1000000000) :: 64 word)"

definition startServer :: "system \<Rightarrow> cli_flags \<Rightarrow> Config \<Rightarrow> int proc" where
  \<comment> \<open>an error of \<open>enableSDNotify\<close> is only logged\<close>
  "startServer sys fl cfg =
     gbind (enableSDNotify sys) (\<lambda>_.
     gbind (createMetricsHandler sys fl cfg) (\<lambda>r. case r of
       Inl err \<Rightarrow> gpanic (PanicMsg (sys_text sys err))
     | Inr h \<Rightarrow>
     gseq (Handle sys (fl_metricsPath fl) h)
     (gseq (Handle sys ''/healthz'' Healthz)
     (gbind (if fl_metricsPath fl \<noteq> ''/''
             then (case sys_landing sys of
                     Some err \<Rightarrow> gret False
                   | None \<Rightarrow> gseq (Handle sys ''/'' (LandingPage (fl_metricsPath fl))) (gret True))
             else gret True) (\<lambda>landed.
      if \<not> landed then gret 1
      else
     gbind (SdNotify sys ''STATUS=started'') (\<lambda>_.
     gbind (SdNotify sys ''READY=1'') (\<lambda>_.
     gseq (occurs (Served (fl_listen fl) (serverTimeout (fl_timeout fl)) (fl_webConfig fl)))
     (case sys_serve sys of
        None \<Rightarrow> lifted Blocked
      | Some (Some err) \<Rightarrow> gret 1
      | Some None \<Rightarrow> gret 0))))))))"


section \<open>The program\<close>

definition pad_right :: "nat \<Rightarrow> string \<Rightarrow> string" where
  \<comment> \<open>the verb \<^verbatim>\<open>%-12s\<close> on ASCII text\<close>
  "pad_right n s = s @ replicate (n - length s) CHR '' ''"

definition list_line :: "client RegisteredCollector \<Rightarrow> string" where
  "list_line c = '' - '' @ pad_right 12 (reg_Name c) @ '' '' @ reg_Description c"

definition list_collectors :: "client RegisteredCollector gomap \<Rightarrow> string list" where
  "list_collectors reg = sort (map list_line (AvailableCollectors reg))"

fun define_flags :: "string list \<Rightarrow> string list \<Rightarrow> unit outcome" where
  \<comment> \<open>\<^verbatim>\<open>flag.Bool("with-"+name, ...)\<close>, which panics when the flag is there already\<close>
  "define_flags defined [] = Return ()"
| "define_flags defined (n # ns) =
     (if ''with-'' @ n \<in> set defined then Panicked (PanicMsg (''flag redefined: with-'' @ n))
      else define_flags ((''with-'' @ n) # defined) ns)"

definition newline :: string where "newline = [CHR 0x0A]"

definition main :: "system \<Rightarrow> int proc" where
  \<comment> \<open>\<open>SetupLogging\<close> only changes the logger\<close>
  "main sys =
     (let reg = registry (sys_now sys); names = AvailableCollectorsNames reg
      in gseq (lifted (define_flags (defined_flags []) names))
         (case Parse names (sys_args sys) of
            Inl code \<Rightarrow> gret code
          | Inr fl \<Rightarrow>
              if fl_version fl
              then gseq (occurs (Printed (newline @ ''Version:   '' @ sys_version sys @ newline @ newline))) (gret 0)
              else if fl_listCollectors fl
              then gseq (occurs (Printed (newline @ ''Available collectors:'' @ newline)))
                   (gseq (gupdate (\<lambda>s. s\<lparr>sv_events := sv_events s @ map (\<lambda>l. Printed (l @ newline)) (list_collectors reg)\<rparr>))
                   (gseq (occurs (Printed newline)) (gret 0)))
              else gbind (lifted (loadConfig (sys_unmarshal sys) (sys_readFile sys) (sys_getenv sys) names fl)) (\<lambda>r. case r of
                     Inl err \<Rightarrow> gret 3
                   | Inr cfg \<Rightarrow> startServer sys fl cfg)))"

definition initial :: server where
  "initial = \<lparr>sv_events = [], sv_handlers = [], sv_registered = []\<rparr>"


section \<open>The environment as documented\<close>

definition valid_description :: "description \<Rightarrow> bool" where
  "valid_description d \<longleftrightarrow> fst d \<noteq> [] \<and> distinct (snd d) \<and> list_all (\<lambda>l. l \<noteq> [] \<and> \<not> has_prefix l ''__'') (snd d)"

definition documented :: "system \<Rightarrow> bool" where
  \<comment> \<open>full names are joined with underscores; a collector is registered when its descriptions are
    valid and no name is used twice; the other two collectors meet this and stay out of the namespace of the exporter\<close>
  "documented sys \<longleftrightarrow>
     (\<forall>namespace subsystem name. sys_fqName sys namespace subsystem name = joined_name namespace subsystem name)
     \<and> (\<forall>old ds. distinct (map fst (old @ ds)) \<and> list_all valid_description ds \<longrightarrow> sys_register sys old ds = None)
     \<and> (let others = fst (sys_foreign sys) @ snd (sys_foreign sys)
        in distinct (map fst others) \<and> list_all (\<lambda>d. valid_description d \<and> \<not> has_prefix (fst d) ''mikrotik_'') others)"

lemma legal_labels_valid:
  assumes "legal_labels ls" shows "distinct ls \<and> list_all (\<lambda>l. l \<noteq> [] \<and> \<not> has_prefix l ''__'') ls"
proof -
  have "distinct ls" using assms by (auto simp: legal_labels_def intro: distinct_map [THEN iffD1, THEN conjunct1])
  moreover have "l \<noteq> [] \<and> \<not> has_prefix l ''__''" if "l \<in> set ls" for l
  proof -
    have "legal_name (MetricStringCleanup l)" using assms that by (auto simp: legal_labels_def list_all_iff)
    then show ?thesis
      by (cases l) (auto simp: legal_name_def MetricStringCleanup_def replace_byte_def has_prefix_def char_code_def split: if_splits)
  qed
  ultimately show ?thesis by (simp add: list_all_iff)
qed

lemma joined_mikrotik: "name \<noteq> [] \<Longrightarrow> has_prefix (joined_name ''mikrotik'' subsystem name) ''mikrotik_''"
  by (simp add: joined_name_def has_prefix_def)

definition metrics_opts :: "cli_flags \<Rightarrow> handler_opts" where
  "metrics_opts fl = \<lparr>ho_DisableCompression = has_prefix (fl_listen fl) ''127.'' \<or> has_prefix (fl_listen fl) ''localhost:'',
     ho_MaxRequestsInFlight = 1, ho_EnableOpenMetrics = True\<rparr>"

definition all_described :: "system \<Rightarrow> mikrotikCollector \<Rightarrow> description list" where
  "all_described sys c = fst (sys_foreign sys) @ snd (sys_foreign sys) @ described sys c"

lemma createMetricsHandler_result:
  assumes "documented sys" and "NewCollector (registry (sys_now sys)) cfg = Return c" and "sv_registered s = []"
  shows "createMetricsHandler sys fl cfg s = (Return (Inr (MetricsHandler (metrics_opts fl) c)),
     s\<lparr>sv_registered := all_described sys c\<rparr>)"
proof -
  let ?g = "fst (sys_foreign sys)" and ?p = "snd (sys_foreign sys)" and ?m = "described sys c"
  have reg: "sys_register sys old ds = None" if "distinct (map fst (old @ ds))" "list_all valid_description ds" for old ds
    using assms(1) that by (simp add: documented_def)
  have fq: "map fst ?m = map fq_name (mikrotik_Describe c)"
    using assms(1) by (simp add: described_def documented_def fq_name_def)
  have u: "distinct (map fq_name (mikrotik_Describe c))"
    and l: "\<forall>d \<in> set (mikrotik_Describe c). legal_name (fq_name d) \<and> legal_labels (dc_labels d)"
    using announced_names [OF assms(2)] by blast+
  have own: "n \<noteq> [] \<and> has_prefix n ''mikrotik_''" if "n \<in> set (map fst ?m)" for n
  proof -
    from that obtain d where d: "d \<in> set (mikrotik_Describe c)" "n = fq_name d" unfolding fq by auto
    with l have "legal_name n" by blast
    then have "n \<noteq> []" by (simp add: legal_name_def)
    moreover from this d(2) have "dc_name d \<noteq> []" by (auto simp: fq_name_def joined_name_def)
    ultimately show ?thesis using d(2) joined_mikrotik by (simp add: fq_name_def)
  qed
  have f: "distinct (map fst (?g @ ?p))" "list_all valid_description ?g" "list_all valid_description ?p"
    "\<forall>d \<in> set (?g @ ?p). \<not> has_prefix (fst d) ''mikrotik_''"
    using assms(1) by (auto simp: documented_def Let_def list_all_iff)
  have "valid_description d" if "d \<in> set ?m" for d
  proof -
    have "fst d \<noteq> []" using own that by auto
    moreover from that obtain d' where "d' \<in> set (mikrotik_Describe c)" "snd d = dc_labels d'" by (auto simp: described_def)
    ultimately show ?thesis using l legal_labels_valid by (auto simp: valid_description_def)
  qed
  then have "list_all valid_description ?m" by (simp add: list_all_iff)
  moreover have "distinct (map fst ((?g @ ?p) @ ?m))"
    using f(1,4) u own fq by (auto simp: disjoint_iff)
  ultimately have "sys_register sys (?g @ ?p) ?m = None" by (intro reg)
  moreover have "sys_register sys [] ?g = None" "sys_register sys ?g ?p = None" using f by (auto intro: reg)
  ultimately show ?thesis using assms(2,3)
    by (simp add: createMetricsHandler_def lifted_def Register_def gbind_def Let_def metrics_opts_def all_described_def)
qed


section \<open>How the program ends\<close>

definition told_ready :: "server \<Rightarrow> bool" where
  \<comment> \<open>systemd has been told that the program is ready\<close>
  "told_ready s \<longleftrightarrow> Notified ''READY=1'' \<in> set (sv_events s)"

definition paths_accepted :: "system \<Rightarrow> string \<Rightarrow> bool" where
  \<comment> \<open>the mux takes the path of the metrics, then the other two\<close>
  "paths_accepted sys p \<longleftrightarrow> mux_accepts sys [] p \<and> mux_accepts sys [p] ''/healthz''
     \<and> (p \<noteq> ''/'' \<longrightarrow> mux_accepts sys [p, ''/healthz''] ''/'')"

lemma plain_paths:
  "paths_accepted sys p \<longleftrightarrow> p \<noteq> ''/healthz''" if "plain_path p"
  using that by (auto simp: paths_accepted_def mux_accepts_def plain_path_def char_code_def lower_char_def)

lemma empty_path: "\<not> paths_accepted sys []"
  by (simp add: paths_accepted_def mux_accepts_def)

definition all_handlers :: "cli_flags \<Rightarrow> mikrotikCollector \<Rightarrow> (string \<times> handler) list" where
  "all_handlers fl c = [(fl_metricsPath fl, MetricsHandler (metrics_opts fl) c), (''/healthz'', Healthz)]
     @ (if fl_metricsPath fl = ''/'' then [] else [(''/'', LandingPage (fl_metricsPath fl))])"

lemma enableSDNotify_run:
  "\<exists>e evs. enableSDNotify sys s = (Return e, s\<lparr>sv_events := sv_events s @ evs\<rparr>) \<and> Notified ''READY=1'' \<notin> set evs"
  by (auto simp: enableSDNotify_def SdNotify_def occurs_def gbind_def gseq_def split: sum.split)


lemma startServer_outcome:
  assumes "documented sys" and "NewCollector (registry (sys_now sys)) cfg = Return c"
    and "startServer sys fl cfg initial = (r, s)"
  shows "(case r of
            Return code \<Rightarrow> code \<in> {0, 1}
          | Panicked p \<Rightarrow> (\<exists>pattern. p = PanicMsg (''http: pattern '' @ pattern)) \<and> \<not> paths_accepted sys (fl_metricsPath fl)
          | Blocked \<Rightarrow> sys_serve sys = None \<and> told_ready s)
     \<and> (told_ready s \<longrightarrow> sv_handlers s = all_handlers fl c \<and> sv_registered s = all_described sys c)
     \<and> (paths_accepted sys (fl_metricsPath fl) \<and> sys_landing sys = None \<longrightarrow> told_ready s
          \<and> Served (fl_listen fl) (serverTimeout (fl_timeout fl)) (fl_webConfig fl) \<in> set (sv_events s)
          \<and> r = (case sys_serve sys of None \<Rightarrow> Blocked | Some e \<Rightarrow> Return (if e = None then 0 else 1)))"
proof -
  obtain e evs where e: "enableSDNotify sys initial = (Return e, initial\<lparr>sv_events := evs\<rparr>)"
    and evs: "Notified ''READY=1'' \<notin> set evs"
    using enableSDNotify_run [of sys initial] by (auto simp: initial_def)
  have c: "createMetricsHandler sys fl cfg (initial\<lparr>sv_events := evs\<rparr>)
      = (Return (Inr (MetricsHandler (metrics_opts fl) c)), initial\<lparr>sv_events := evs, sv_registered := all_described sys c\<rparr>)"
    using createMetricsHandler_result [OF assms(1,2), of "initial\<lparr>sv_events := evs\<rparr>" fl] by (simp add: initial_def)
  let ?p = "fl_metricsPath fl"
  note run = assms(3) [unfolded startServer_def]
  show ?thesis
  proof (cases "mux_accepts sys [] ?p")
    case False
    with run e c evs show ?thesis by (auto simp: gbind_def gseq_def Handle_def initial_def told_ready_def paths_accepted_def)
  next
    case one: True
    show ?thesis
    proof (cases "mux_accepts sys [?p] ''/healthz''")
      case False
      with one run e c evs show ?thesis by (auto simp: gbind_def gseq_def Handle_def initial_def told_ready_def paths_accepted_def)
    next
      case two: True
      show ?thesis
      proof (cases "?p = ''/''")
        case True
        with one two run e c evs show ?thesis
          by (auto simp: gbind_def gseq_def Handle_def initial_def told_ready_def paths_accepted_def SdNotify_def occurs_def
              lifted_def all_handlers_def split: option.splits)
      next
        case False
        with one two run e c evs show ?thesis
          by (auto simp: gbind_def gseq_def Handle_def initial_def told_ready_def paths_accepted_def SdNotify_def occurs_def
              lifted_def all_handlers_def split: option.splits if_splits)
      qed
    qed
  qed
qed


text \<open>Every collector gets its flag.\<close>

lemma define_flags_Return:
  assumes "distinct ns" and "\<forall>n \<in> set ns. ''with-'' @ n \<notin> set defined" shows "define_flags defined ns = Return ()"
  using assms by (induction defined ns rule: define_flags.induct) auto

lemma define_flags_registry:
  "define_flags (defined_flags []) (AvailableCollectorsNames (registry now)) = Return ()"
proof (rule define_flags_Return)
  show "distinct (AvailableCollectorsNames (registry now))" unfolding names_table by (rule table_distinct)
  have "n \<noteq> ''all''" if "n \<in> set (AvailableCollectorsNames (registry now))" for n
    using that unfolding names_table table_names by auto
  then show "\<forall>n \<in> set (AvailableCollectorsNames (registry now)). ''with-'' @ n \<notin> set (defined_flags [])"
    by (auto simp: defined_flags_def)
qed

text \<open>Loading the configuration returns, or panics on a profile that is nil, and on nothing else.\<close>

definition ends_unless :: "bool \<Rightarrow> 'a outcome \<Rightarrow> bool" where
  \<comment> \<open>it returns, or panics when it writes to a nil map, which it does only when \<open>b\<close> is true\<close>
  "ends_unless b r \<longleftrightarrow> (case r of Return _ \<Rightarrow> True | Panicked p \<Rightarrow> p = NilMapAssignment \<and> b | Blocked \<Rightarrow> False)"

lemma ends_unless_simps [simp]:
  "ends_unless b (Return x)" "ends_unless b (Panicked p) \<longleftrightarrow> p = NilMapAssignment \<and> b" "\<not> ends_unless b Blocked"
  by (simp_all add: ends_unless_def)

lemma validate_profiles_ends: "ends_unless (\<exists>n. (n, None) \<in> set ps) (validate_profiles collectors ps)"
proof (induction ps)
  case (Cons p ps)
  obtain name features where p: "p = (name, features)" by (cases p)
  show ?case
  proof (cases features)
    case None
    with p show ?thesis by (auto split: option.split)
  next
    case (Some m)
    with p Cons show ?thesis by (cases "validate_profiles collectors ps") (auto split: option.split sum.split)
  qed
qed simp

lemma Load_ends:
  "ends_unless (\<exists>b cfg n. r = Inr b \<and> unmarshal b = Inr cfg \<and> (n, None) \<in> set (cfg_Profiles cfg)) (Load unmarshal r names)"
proof (cases r)
  case (Inr b)
  show ?thesis
  proof (cases "unmarshal b")
    case (Inr cfg)
    with \<open>r = Inr b\<close> validate_profiles_ends [of "cfg_Profiles cfg" names] show ?thesis
      by (cases "validate_profiles names (cfg_Profiles cfg)")
         (auto simp: Load_def config_validate_def Let_def split: sum.split option.split)
  qed (simp add: \<open>r = Inr b\<close> Load_def)
qed (simp add: Load_def)

lemma visit_flags_ends: "cfg_Features cfg \<noteq> None \<Longrightarrow> \<exists>cfg'. visit_flags ns cfg = Return cfg'"
  by (induction ns cfg rule: visit_flags.induct) (auto simp: Let_def)

lemma Load_features: "Load unmarshal r names = Return (Inr cfg) \<Longrightarrow> cfg_Features cfg \<noteq> None"
  by (erule Load_InrE) (simp add: features_fix_def)

lemma flags_features: "loadConfigFromFlags getenv names fl = Inr cfg \<Longrightarrow> cfg_Features cfg \<noteq> None"
  by (auto simp: loadConfigFromFlags_def Let_def split: if_splits)

definition nil_profile :: "(string \<Rightarrow> goerror + Config) \<Rightarrow> (string \<Rightarrow> goerror + string) \<Rightarrow> cli_flags \<Rightarrow> bool" where
  \<comment> \<open>the configuration file is read, and a profile in it is nil\<close>
  "nil_profile unmarshal readFile fl \<longleftrightarrow> fl_configFile fl \<noteq> '''' \<and> (\<exists>b cfg n. readFile (fl_configFile fl) = Inr b
     \<and> unmarshal b = Inr cfg \<and> (n, None) \<in> set (cfg_Profiles cfg))"

lemma loadConfig_ends: "ends_unless (nil_profile unmarshal readFile fl) (loadConfig unmarshal readFile getenv names fl)"
proof (cases "fl_configFile fl = ''''")
  case True
  show ?thesis
  proof (cases "loadConfigFromFlags getenv names fl")
    case (Inr cfg)
    from visit_flags_ends [OF flags_features [OF this], of "fl_visited fl"] True Inr show ?thesis
      by (auto simp: loadConfig_def updateConfigFromFlags_def)
  qed (simp add: True loadConfig_def)
next
  case False
  show ?thesis
  proof (cases "readFile (fl_configFile fl)")
    case (Inl err)
    with False show ?thesis by (simp add: loadConfig_def loadConfigFromFile_def)
  next
    case (Inr b)
    show ?thesis
    proof (cases "Load unmarshal (Inr b) names")
      case (Return res)
      show ?thesis
      proof (cases res)
        case (Inl err)
        with False Inr Return show ?thesis by (simp add: loadConfig_def loadConfigFromFile_def)
      next
        case (Inr cfg)
        with Return have "cfg_Features cfg \<noteq> None" using Load_features by blast
        from visit_flags_ends [OF this, of "fl_visited fl"] False \<open>readFile (fl_configFile fl) = Inr b\<close> Return Inr show ?thesis
          by (auto simp: loadConfig_def loadConfigFromFile_def updateConfigFromFlags_def)
      qed
    next
      case (Panicked p)
      with Load_ends [of "Inr b" unmarshal names] False Inr show ?thesis
        by (auto simp: loadConfig_def loadConfigFromFile_def nil_profile_def)
    next
      case Blocked
      with Load_ends [of "Inr b" unmarshal names] show ?thesis by simp
    qed
  qed
qed

definition names_of :: "system \<Rightarrow> string list" where
  "names_of sys = AvailableCollectorsNames (registry (sys_now sys))"

definition loaded :: "system \<Rightarrow> cli_flags \<Rightarrow> (goerror + Config) outcome" where
  "loaded sys fl = loadConfig (sys_unmarshal sys) (sys_readFile sys) (sys_getenv sys) (names_of sys) fl"

lemma main_cases:
  obtains (bad_args) code where "Parse (names_of sys) (sys_args sys) = Inl code" "main sys s = (Return code, s)"
  | (version) fl where "Parse (names_of sys) (sys_args sys) = Inr fl" "fl_version fl"
      "main sys s = (Return 0, s\<lparr>sv_events := sv_events s @ [Printed (newline @ ''Version:   '' @ sys_version sys @ newline @ newline)]\<rparr>)"
  | (listing) fl where "Parse (names_of sys) (sys_args sys) = Inr fl" "\<not> fl_version fl" "fl_listCollectors fl"
      "main sys s = (Return 0, s\<lparr>sv_events := sv_events s @ Printed (newline @ ''Available collectors:'' @ newline)
         # map (\<lambda>l. Printed (l @ newline)) (list_collectors (registry (sys_now sys))) @ [Printed newline]\<rparr>)"
  | (panic) fl p where "Parse (names_of sys) (sys_args sys) = Inr fl" "\<not> fl_version fl" "\<not> fl_listCollectors fl" "loaded sys fl = Panicked p" "main sys s = (Panicked p, s)"
  | (refused) fl err where "Parse (names_of sys) (sys_args sys) = Inr fl" "\<not> fl_version fl" "\<not> fl_listCollectors fl" "loaded sys fl = Return (Inl err)" "main sys s = (Return 3, s)"
  | (started) fl cfg where "Parse (names_of sys) (sys_args sys) = Inr fl" "\<not> fl_version fl" "\<not> fl_listCollectors fl"
      "loaded sys fl = Return (Inr cfg)" "main sys s = startServer sys fl cfg s"
proof -
  have d: "lifted (define_flags (defined_flags []) (names_of sys)) s = (Return (), s)"
    by (simp add: lifted_def names_of_def define_flags_registry)
  note m = main_def [of sys, unfolded Let_def, folded names_of_def, folded loaded_def]
  show thesis
  proof (cases "Parse (names_of sys) (sys_args sys)")
    case (Inl code)
    with d bad_args show ?thesis by (simp add: m gseq_def gbind_def)
  next
    case (Inr fl)
    show ?thesis
    proof (cases "fl_version fl \<or> fl_listCollectors fl")
      case True
      with Inr d version [of fl] listing [of fl] show ?thesis
        by (cases "fl_version fl") (simp_all add: m gseq_def gbind_def occurs_def)
    next
      case False
      with Inr d have r: "main sys s = gbind (lifted (loaded sys fl)) (\<lambda>r. case r of Inl err \<Rightarrow> gret 3 | Inr cfg \<Rightarrow> startServer sys fl cfg) s"
        by (simp add: m gseq_def gbind_def)
      show ?thesis
      proof (cases "loaded sys fl")
        case (Return x)
        with r Inr False refused [of fl] started [of fl] show ?thesis by (cases x) (simp_all add: gbind_def lifted_def)
      next
        case (Panicked p)
        with r Inr False panic [of fl p] show ?thesis by (simp add: gbind_def lifted_def)
      next
        case Blocked
        then show ?thesis using loadConfig_ends by (metis loaded_def ends_unless_simps(3))
      qed
    qed
  qed
qed


lemma started_collector:
  assumes "Parse (names_of sys) (sys_args sys) = Inr fl" and "loaded sys fl = Return (Inr cfg)"
  obtains c where "NewCollector (registry (sys_now sys)) cfg = Return c"
proof -
  have "set (fl_visited fl) \<subseteq> set (defined_flags (names_of sys))" using Parse_visited [OF assms(1)] .
  then have "good_config (names_of sys) cfg"
    using loadConfig_result [OF assms(2) [unfolded loaded_def]] registry_lower [of "sys_now sys"]
    by (simp add: registered_config_def names_of_def)
  with that show thesis using NewCollector_built by blast
qed


section \<open>An example\<close>

definition test_system :: system where
  "test_system = \<lparr>sys_args = [''-device=r1'', ''-address'', ''10.0.0.1'', ''--user=u'', ''-with-dhcp=false''],
     sys_getenv = (\<lambda>v. if v = ''MIKROTIK_PASSWORD'' then ''p'' else ''''), sys_readFile = (\<lambda>f. Inl EOF),
     sys_unmarshal = (\<lambda>b. Inl EOF), sys_now = 0, sys_version = ''1'', sys_fqName = joined_name,
     sys_foreign = ([(''go_goroutines'', [])], [(''process_open_fds'', [])]),
     sys_register = (\<lambda>old ds. if distinct (map fst (old @ ds)) then None else Some ErrInvalidResponse),
     sys_mux = (\<lambda>_ _. False), sys_notify = (\<lambda>_. Inr False), sys_watchdog = Inr 0, sys_landing = None, sys_serve = None,
     sys_text = (\<lambda>_. '''')\<rparr>"

lemma test_documented: "documented test_system"
  by (auto simp: documented_def test_system_def valid_description_def has_prefix_def)

lemma test_parsed: "Parse (names_of test_system) (sys_args test_system) = Inr test_flags"
  unfolding names_of_def names_table table_names by code_simp

lemma test_system_loads: "loaded test_system test_flags = Return (Inr test_config)"
  using test_config_loads by (simp add: loaded_def names_of_def test_system_def)


section \<open>Properties\<close>

text \<open>
  Property C9: how the program ends.  Whatever the arguments, the files and the environment, with libraries that
  do what they document: the program exits with one of the codes 0 to 3, with 2 only for arguments it does not
  understand and with 3 exactly when the configuration is refused; or it panics, for one of two reasons, a
  profile in the configuration file that is nil or a path of the metrics that the mux does not take; or it serves for ever.  Systemd is
  told that it is ready only when a configuration has been loaded, all descriptions are registered and
  the handlers are in place.
\<close>

theorem main_outcome:
  assumes "documented sys" and "main sys initial = (r, s)"
  shows "(case r of
            Return code \<Rightarrow> code \<in> {0, 1, 2, 3}
              \<and> (code = 2 \<longrightarrow> Parse (names_of sys) (sys_args sys) = Inl 2)
              \<and> (code = 3 \<longleftrightarrow> (\<exists>fl err. Parse (names_of sys) (sys_args sys) = Inr fl \<and> \<not> fl_version fl \<and> \<not> fl_listCollectors fl
                    \<and> loaded sys fl = Return (Inl err)))
          | Panicked p \<Rightarrow> (\<exists>fl. Parse (names_of sys) (sys_args sys) = Inr fl \<and> \<not> fl_version fl \<and> \<not> fl_listCollectors fl
              \<and> (p = NilMapAssignment \<and> loaded sys fl = Panicked p \<and> nil_profile (sys_unmarshal sys) (sys_readFile sys) fl
                 \<or> (\<exists>cfg pattern. loaded sys fl = Return (Inr cfg) \<and> p = PanicMsg (''http: pattern '' @ pattern)
                      \<and> \<not> paths_accepted sys (fl_metricsPath fl))))
          | Blocked \<Rightarrow> sys_serve sys = None \<and> told_ready s)
     \<and> (told_ready s \<longrightarrow> (\<exists>fl cfg c. Parse (names_of sys) (sys_args sys) = Inr fl \<and> loaded sys fl = Return (Inr cfg)
          \<and> NewCollector (registry (sys_now sys)) cfg = Return c
          \<and> sv_handlers s = all_handlers fl c \<and> sv_registered s = all_described sys c))"
proof (cases rule: main_cases [of sys initial])
  case (bad_args code)
  with assms(2) Parse_code [of "names_of sys" "sys_args sys" code] show ?thesis by (auto simp: told_ready_def initial_def)
next
  case (version fl)
  with assms(2) show ?thesis by (auto simp: told_ready_def initial_def)
next
  case (listing fl)
  with assms(2) show ?thesis by (auto simp: told_ready_def initial_def)
next
  case (panic fl p)
  then have "p = NilMapAssignment" "nil_profile (sys_unmarshal sys) (sys_readFile sys) fl"
    using loadConfig_ends by (metis loaded_def ends_unless_simps(2))+
  with panic assms(2) show ?thesis by (auto simp: told_ready_def initial_def)
next
  case (refused fl err)
  with assms(2) show ?thesis by (auto simp: told_ready_def initial_def)
next
  case (started fl cfg)
  obtain c where c: "NewCollector (registry (sys_now sys)) cfg = Return c"
    using started_collector [OF started(1,4)] .
  have "startServer sys fl cfg initial = (r, s)" using started(5) assms(2) by simp
  from startServer_outcome [OF assms(1) c this] show ?thesis
    using started c by (cases r) auto
qed

theorem main_outcome_witness:
  "\<exists>r s. main test_system initial = (r, s) \<and> (told_ready s \<longrightarrow> (\<exists>fl c. sv_handlers s = all_handlers fl c))
     \<and> (\<forall>code. r = Return code \<longrightarrow> code \<in> {0, 1, 2, 3})"
proof -
  obtain r s where rs: "main test_system initial = (r, s)" by (cases "main test_system initial")
  show ?thesis
    by (rule exI [of _ r], rule exI [of _ s]) (use main_outcome [OF test_documented rs] rs in auto)
qed

text \<open>
  Property C11: the program gets to serving.  When the arguments are understood and do not ask for something else, the
  configuration loads, the path of the metrics is a plain path other than \<^verbatim>\<open>/healthz\<close>, and the landing page
  can be made, the program tells systemd it is ready and then listens on its address for as long as the
  server runs; the mux holds the metrics of the collector built from the configuration under its path.
\<close>

theorem main_serves:
  assumes "documented sys" and "Parse (names_of sys) (sys_args sys) = Inr fl"
    and "\<not> fl_version fl" and "\<not> fl_listCollectors fl" and "loaded sys fl = Return (Inr cfg)"
    and "plain_path (fl_metricsPath fl)" and "fl_metricsPath fl \<noteq> ''/healthz''" and "sys_landing sys = None"
  shows "\<exists>c s. NewCollector (registry (sys_now sys)) cfg = Return c
     \<and> main sys initial = ((case sys_serve sys of None \<Rightarrow> Blocked | Some e \<Rightarrow> Return (if e = None then 0 else 1)), s)
     \<and> told_ready s \<and> Served (fl_listen fl) (serverTimeout (fl_timeout fl)) (fl_webConfig fl) \<in> set (sv_events s)
     \<and> map_of (sv_handlers s) (fl_metricsPath fl) = Some (MetricsHandler (metrics_opts fl) c)"
proof -
  obtain c where c: "NewCollector (registry (sys_now sys)) cfg = Return c" using started_collector [OF assms(2,5)] .
  obtain r s where rs: "startServer sys fl cfg initial = (r, s)" by (cases "startServer sys fl cfg initial")
  have "paths_accepted sys (fl_metricsPath fl)" using plain_paths [OF assms(6)] assms(7) by blast
  with startServer_outcome [OF assms(1) c rs] assms(8)
  have "told_ready s" "Served (fl_listen fl) (serverTimeout (fl_timeout fl)) (fl_webConfig fl) \<in> set (sv_events s)"
    "r = (case sys_serve sys of None \<Rightarrow> Blocked | Some e \<Rightarrow> Return (if e = None then 0 else 1))"
    "sv_handlers s = all_handlers fl c" by blast+
  moreover have "main sys initial = (r, s)"
    using assms(2-5) rs by (cases rule: main_cases [of sys initial]) auto
  ultimately show ?thesis using c by (auto simp: all_handlers_def)
qed


theorem main_serves_witness:
  "\<exists>s. main test_system initial = (Blocked, s) \<and> told_ready s \<and> Served '':9436'' 150000000000 '''' \<in> set (sv_events s)"
proof -
  have f: "\<not> fl_version test_flags" "\<not> fl_listCollectors test_flags" "fl_metricsPath test_flags \<noteq> ''/healthz''"
    "fl_listen test_flags = '':9436''" "fl_webConfig test_flags = ''''" "fl_timeout test_flags = 5"
    by (simp_all add: test_flags_def default_flags_def DefaultTimeout_def)
  have p: "plain_path (fl_metricsPath test_flags)" by code_simp
  have "sys_landing test_system = None" "sys_serve test_system = None" by (simp_all add: test_system_def)
  moreover have "serverTimeout 5 = 150000000000" by (simp add: serverTimeout_def)
  ultimately show ?thesis
    using main_serves [OF test_documented test_parsed f(1,2) test_system_loads p f(3)] by (auto simp: f)
qed

text \<open>
  Paths that stop the program.  With an empty path for the metrics, or with \<^verbatim>\<open>/healthz\<close>, everything is
  accepted up to the configuration, and then the program panics while it sets up its handlers, and
  never tells systemd that it is ready.
\<close>

lemma bad_path_panics:
  assumes "documented sys" and "Parse (names_of sys) (sys_args sys) = Inr fl"
    and "\<not> fl_version fl" and "\<not> fl_listCollectors fl" and "loaded sys fl = Return (Inr cfg)"
    and "fl_metricsPath fl = '''' \<or> fl_metricsPath fl = ''/healthz''"
  shows "\<exists>msg s. main sys initial = (Panicked (PanicMsg msg), s) \<and> \<not> told_ready s"
proof -
  obtain c where c: "NewCollector (registry (sys_now sys)) cfg = Return c" using started_collector [OF assms(2,5)] .
  obtain e evs where e: "enableSDNotify sys initial = (Return e, initial\<lparr>sv_events := evs\<rparr>)"
    and evs: "Notified ''READY=1'' \<notin> set evs"
    using enableSDNotify_run [of sys initial] by (auto simp: initial_def)
  have m: "createMetricsHandler sys fl cfg (initial\<lparr>sv_events := evs\<rparr>)
      = (Return (Inr (MetricsHandler (metrics_opts fl) c)), initial\<lparr>sv_events := evs, sv_registered := all_described sys c\<rparr>)"
    using createMetricsHandler_result [OF assms(1) c, of "initial\<lparr>sv_events := evs\<rparr>" fl] by (simp add: initial_def)
  have "plain_path ''/healthz''" by code_simp
  then have "\<not> mux_accepts sys [''/healthz''] ''/healthz''" "mux_accepts sys [] ''/healthz''" "\<not> mux_accepts sys [] ''''"
    by (simp_all add: mux_accepts_def)
  then have "\<exists>msg s. startServer sys fl cfg initial = (Panicked (PanicMsg msg), s) \<and> \<not> told_ready s"
    using assms(6) e m evs by (auto simp: startServer_def gbind_def gseq_def Handle_def told_ready_def initial_def)
  moreover have "main sys initial = startServer sys fl cfg initial"
    using assms(2-5) by (cases rule: main_cases [of sys initial]) auto
  ultimately show ?thesis by simp
qed

text \<open>
  Property C38: the list of collectors.  Asked for it, the program prints one line for each of the registered
  collectors, in the order of the lines as byte strings, between a heading and an empty line, and exits with
  code 0; no file is read, and no configuration is needed.
\<close>

theorem list_of_collectors:
  assumes "Parse (names_of sys) (sys_args sys) = Inr fl" and "fl_listCollectors fl" and "\<not> fl_version fl"
  shows "\<exists>ls s. main sys initial = (Return 0, s)
     \<and> sv_events s = Printed (newline @ ''Available collectors:'' @ newline) # map (\<lambda>l. Printed (l @ newline)) ls @ [Printed newline]
     \<and> length ls = 40 \<and> sorted ls
     \<and> mset ls = image_mset (\<lambda>(n, f, d). '' - '' @ pad_right 12 n @ '' '' @ d) (mset (entries (sys_now sys)))"
proof -
  let ?ls = "list_collectors (registry (sys_now sys))"
  have a: "map list_line (AvailableCollectors (registry now)) = map (\<lambda>(n, f, d). '' - '' @ pad_right 12 n @ '' '' @ d) (entries now)" for now
    unfolding AvailableCollectors_def registry_def registered_eq by (auto simp: list_line_def)
  have ls: "mset ?ls = image_mset (\<lambda>(n, f, d). '' - '' @ pad_right 12 n @ '' '' @ d) (mset (entries (sys_now sys)))"
    unfolding list_collectors_def a by simp
  have "length (entries (sys_now sys)) = 40" by (simp add: table_def)
  then have "length ?ls = 40" unfolding list_collectors_def a by simp
  moreover have "sorted ?ls" by (simp add: list_collectors_def)
  moreover have "main sys initial = (Return 0, initial\<lparr>sv_events := Printed (newline @ ''Available collectors:'' @ newline)
         # map (\<lambda>l. Printed (l @ newline)) ?ls @ [Printed newline]\<rparr>)"
    using assms by (cases rule: main_cases [of sys initial]) (auto simp: initial_def)
  ultimately show ?thesis using ls by auto
qed

theorem list_of_collectors_witness:
  "\<exists>ls s. main (test_system\<lparr>sys_args := [''-list-collectors'']\<rparr>) initial = (Return 0, s) \<and> length ls = 40 \<and> sorted ls
     \<and> (\<forall>l \<in> set ls. Printed (l @ newline) \<in> set (sv_events s))"
proof -
  let ?sys = "test_system\<lparr>sys_args := [''-list-collectors'']\<rparr>"
  have "Parse (names_of ?sys) (sys_args ?sys) = Inr (default_flags\<lparr>fl_listCollectors := True, fl_visited := [''list-collectors'']\<rparr>)"
    unfolding names_of_def names_table table_names by code_simp
  from list_of_collectors [OF this] obtain ls s where "main ?sys initial = (Return 0, s)"
    "sv_events s = Printed (newline @ ''Available collectors:'' @ newline) # map (\<lambda>l. Printed (l @ newline)) ls @ [Printed newline]"
    "length ls = 40" "sorted ls" by (auto simp: default_flags_def)
  then show ?thesis by (intro exI [of _ ls] exI [of _ s]) auto
qed

text \<open>
  The timeout of the server is \<^verbatim>\<open>30 * timeout\<close> seconds as long as that many nanoseconds fit
  64 bits, which is up to 307445734; the next value gives a negative timeout.
\<close>

lemma serverTimeout_exact:
  "\<bar>t\<bar> \<le> 307445734 \<Longrightarrow> serverTimeout t = 30 * t * 1000000000" "serverTimeout 307445735 < 0"
proof -
  assume "\<bar>t\<bar> \<le> 307445734"
  then show "serverTimeout t = 30 * t * 1000000000"
    unfolding serverTimeout_def by (subst sint_small; subst sint_small) simp_all
qed (simp add: serverTimeout_def)

end
