(* ===== verification/Exceptions.thy ===== *)
theory Exceptions
  imports Collectors_D
begin

text \<open>
  The three collectors that are only safe, as they may panic: what exactly makes them do so.  Each is
  asked what it does with the answer to its (first) command, with and without the offending
  values in it.
\<close>

section \<open>Loops that may panic\<close>

definition ends :: "bool \<Rightarrow> panic \<Rightarrow> 'a outcome \<Rightarrow> bool" where
  \<comment> \<open>how a computation ends: with this panic, or it returns\<close>
  "ends bad p r \<longleftrightarrow> (if bad then r = Panicked p else \<exists>x. r = Return x)"

lemma ends_simps [simp]: "ends True p r \<longleftrightarrow> r = Panicked p" "ends False p r \<longleftrightarrow> (\<exists>x. r = Return x)"
  by (simp_all add: ends_def)

lemma join_loop_ends:
  assumes "\<And>x s. x \<in> set xs \<Longrightarrow> Q s \<Longrightarrow> \<exists>r s'. f x s = (r, s') \<and> Q s' \<and> ends (bad x) p r" and "Q s"
  shows "\<exists>r s'. join_loop f xs e s = (r, s') \<and> Q s' \<and> ends (\<exists>x \<in> set xs. bad x) p r"
  using assms
proof (induction xs arbitrary: e s)
  case (Cons x xs)
  obtain r s1 where r: "f x s = (r, s1)" "Q s1" "ends (bad x) p r" using Cons.prems(1) [of x s] Cons.prems(2) by auto
  show ?case
  proof (cases "bad x")
    case True
    with r show ?thesis by (simp add: join_loop.simps gbind_def)
  next
    case False
    with r obtain v where "r = Return v" by auto
    moreover obtain r2 s2 where "join_loop f xs (add_error e v) s1 = (r2, s2)" "Q s2"
      "ends (\<exists>x \<in> set xs. bad x) p r2"
      using Cons.IH [of s1 "add_error e v"] Cons.prems(1) r(2) by auto
    ultimately show ?thesis using r False by (simp add: join_loop.simps gbind_def)
  qed
qed (simp add: join_loop.simps)

lemma wrapped_ends:
  "m s = (r, s') \<Longrightarrow> ends b p r \<Longrightarrow> \<exists>r. wrapped fmt args m s = (r, s') \<and> ends b p r"
  by (cases b) (auto simp: wrapped_def gbind_def)

lemma ok_ends: "ok False (\<lambda>_. True) m (\<lambda>_ _. True) \<Longrightarrow> \<exists>r s'. m s = (r, s') \<and> ends False p r"
  by (force simp: ok_def)

lemma runs_always:
  "ok False (client_ok (\<lambda>_. True)) m (\<lambda>_. client_ok (\<lambda>_. True)) \<Longrightarrow> ok False (\<lambda>_. True) m (\<lambda>_ _. True)"
  by (simp add: ok_def client_ok_def)

lemma fetch_answered:
  "cx_Client c ws (ms_world s) = (Return (Inr reply), w') \<Longrightarrow> fetch c ws fmt args k s = k reply (s\<lparr>ms_world := w'\<rparr>)"
  by (simp add: fetch_def client_run_def on_world_def gbind_def)


section \<open>dhcpl\<close>

lemma dhcpl_new: "\<exists>k. newDHCPLCollector = Return k \<and> fits [dhcpl_leases k] 10 \<and> length (dc_labels (dhcpl_statuses k)) = 3"
  by (simp add: newDHCPLCollector_def build_simps)

lemma CleanHostName_returns: "h \<noteq> [CHR 0x22] \<Longrightarrow> \<exists>t. CleanHostName h = Return t"
  by (cases h; cases "tl h") (auto simp: CleanHostName_def)

lemma emit_counts_None: "emit_counts c d ks s = (Return e, s') \<Longrightarrow> e = None"
  by (induction c d ks arbitrary: s rule: emit_counts.induct)
     (auto simp: gseq_def gbind_def split: prod.splits outcome.splits)

lemma dhcpl_collectMetric_ends:
  assumes "library_ok c" and "fits [dhcpl_leases k] 10"
  shows "\<exists>r s'. dhcpl_collectMetric k c re s = (r, s')
     \<and> ends (mlookup (sen_map re) ''host-name'' = [CHR 0x22]) IndexOutOfRange r"
proof (cases "mlookup (sen_map re) ''host-name'' = [CHR 0x22]")
  case True
  then show ?thesis by (simp add: dhcpl_collectMetric_def CleanHostName_def)
next
  case False
  then obtain t where t: "CleanHostName (mlookup (sen_map re) ''host-name'') = Return t"
    using CleanHostName_returns by blast
  have "ok False (\<lambda>_. True) (dhcpl_collectMetric k c re) (\<lambda>_ _. True)"
    by (rule runs_always, simp only: dhcpl_collectMetric_def Let_def t outcome.case, intro contract_runs)
       (use assms in simp_all)
  from ok_ends [OF this] False show ?thesis by simp
qed

text \<open>
  Property C39: what breaks \<^verbatim>\<open>dhcpl\<close>.  For a list of leases the device sends, the collector
  panics exactly when details are on and a lease has the host name that is a single double quote.
  For every other list it returns.
\<close>

theorem dhcpl_panics:
  assumes "newDHCPLCollector = Return k" and "library_ok c"
    and "\<And>ws. cx_Client c ws (ms_world s) = (Return (Inr reply), w')"
  shows "\<exists>r s'. dhcpl_Collect k c s = (r, s')
     \<and> ends (BoolValue (cx_FeatureCfg c) ''details'' False
             \<and> (\<exists>re \<in> set (rep_re reply). mlookup (sen_map re) ''host-name'' = [CHR 0x22])) IndexOutOfRange r"
proof -
  have k: "fits [dhcpl_leases k] 10" "length (dc_labels (dhcpl_statuses k)) = 3"
    using dhcpl_new by (auto simp: assms(1))
  let ?s1 = "s\<lparr>ms_world := w'\<rparr>"
  let ?counts = "emit_counts c (dhcpl_statuses k) (CountByProperty (rep_re reply) ''status'')"
  have "ok False (\<lambda>_. True) ?counts (\<lambda>_ _. True)"
    by (rule runs_always) (rule runs_counts [OF assms(2) k(2)])
  then obtain e s2 where cnt: "?counts ?s1 = (Return e, s2)" using okD by fastforce
  have e: "e = None" using emit_counts_None [OF cnt] .
  show ?thesis
  proof (cases "BoolValue (cx_FeatureCfg c) ''details'' False")
    case False
    with cnt e show ?thesis
      by (simp add: dhcpl_Collect_def fetch_answered [OF assms(3)] unless_err_def gbind_def)
  next
    case True
    have "\<exists>r s'. join_loop (dhcpl_collectMetric k c) (rep_re reply) None s2 = (r, s') \<and> True
      \<and> ends (\<exists>re \<in> set (rep_re reply). mlookup (sen_map re) ''host-name'' = [CHR 0x22]) IndexOutOfRange r"
      by (rule join_loop_ends [where Q = "\<lambda>_. True"]) (use dhcpl_collectMetric_ends [OF assms(2) k(1)] in blast)+
    with True cnt e show ?thesis
      by (simp add: dhcpl_Collect_def fetch_answered [OF assms(3)] unless_err_def gbind_def)
  qed
qed

definition answering :: "string gomap list \<Rightarrow> unit ctx" where
  \<comment> \<open>details are on, and every command is answered with these sentences\<close>
  "answering ms = NewCollectorContext zero_device
     (\<lambda>ws. gret (Inr \<lparr>rep_done = Some NewSentence, rep_re = map (\<lambda>m. NewSentence\<lparr>sen_map := m\<rparr>) ms\<rparr>))
     ''x'' (Some [(''details'', YBool True)]) (\<lambda>d ls. length ls = length (dc_labels d))"

lemma answering_simps [simp]:
  "library_ok (answering ms)" "BoolValue (cx_FeatureCfg (answering ms)) ''details'' False"
  "cx_accepts (answering ms) d ls \<longleftrightarrow> length ls = length (dc_labels d)"
  "cx_Client (answering ms) ws w = (Return (Inr \<lparr>rep_done = Some NewSentence,
     rep_re = map (\<lambda>m. NewSentence\<lparr>sen_map := m\<rparr>) ms\<rparr>), w)"
  by (simp_all add: answering_def NewCollectorContext_def library_ok_def BoolValue_def conf_get_def mget_def)

theorem dhcpl_panics_witness:
  "\<exists>k. newDHCPLCollector = Return k
     \<and> fst (dhcpl_Collect k (answering [[(''host-name'', [CHR 0x22])]]) \<lparr>ms_world = (), ms_ch = []\<rparr>)
         = Panicked IndexOutOfRange"
proof -
  let ?c = "answering [[(''host-name'', [CHR 0x22])]]" let ?s = "\<lparr>ms_world = (), ms_ch = []\<rparr>"
  obtain k where k: "newDHCPLCollector = Return k" using dhcpl_new by blast
  have "\<exists>r s'. dhcpl_Collect k ?c ?s = (r, s') \<and> ends True IndexOutOfRange r"
    using dhcpl_panics [OF k, of ?c ?s] by (simp add: mlookup_def)
  with k show ?thesis by auto
qed


section \<open>lte\<close>

lemma lte_new: "\<exists>k. newLteCollector = Return k \<and> fits (lte_metrics k) 5"
  by (simp add: newLteCollector_def build_simps)

text \<open>
  What breaks \<^verbatim>\<open>lte\<close>.  Asked for one interface, the collector panics exactly when the
  first sentence of the answer has a primary band that is not empty and has no field, that is,
  one of blanks only.  For every other answer it returns.
\<close>

lemma lte_panics:
  assumes "newLteCollector = Return k" and "library_ok c"
    and "\<And>ws. cx_Client c ws (ms_world s) = (Return (Inr reply), w')"
  shows "\<exists>r s'. lte_collectForInterface k c iface s = (r, s')
     \<and> ends (case rep_re reply of [] \<Rightarrow> False | re # _ \<Rightarrow> mlookup (sen_map re) ''primary-band'' \<noteq> ''''
               \<and> first_field (mlookup (sen_map re) ''primary-band'') = None) IndexOutOfRange r"
proof (cases "rep_re reply")
  case Nil
  then show ?thesis by (simp add: lte_collectForInterface_def fetch_answered [OF assms(3)])
next
  case (Cons re res)
  have k: "fits (lte_metrics k) 5" using lte_new by (auto simp: assms(1))
  let ?band = "mlookup (sen_map re) ''primary-band''"
  let ?col = "\<lambda>b. wrapped ''collect lte for %s error: %w'' [iface] (list_Collect (lte_metrics k) (sen_map re)
                  (WithLabels [iface, mlookup (sen_map re) ''current-cellid'', b] c))"
  have "\<exists>r s'. ?col b (s\<lparr>ms_world := w'\<rparr>) = (r, s') \<and> ends False IndexOutOfRange r" for b
    by (rule ok_ends, rule runs_always, intro contract_runs)
       (use assms k in \<open>simp_all add: eval_nat_numeral\<close>)
  then show ?thesis
    using Cons by (auto simp: lte_collectForInterface_def fetch_answered [OF assms(3)] Let_def split: option.split)
qed

section \<open>ipv6_neighbor\<close>

lemma ipv6_neighbor_new:
  "newIPv6NeighborCollector = Return k \<Longrightarrow> \<exists>p. ipv6n_metrics k = SimpleMetric p \<and> sp_property p = ''reachable''
     \<and> sp_defaultValue p = '''' \<and> sp_valueConverter p = MetricFromBool \<and> length (dc_labels (sp_desc p)) = 7"
  by (auto simp: newIPv6NeighborCollector_def build_simps build_metric_def prepare_def
      descriptionForPropertyNameHelpText_def)

text \<open>
  The details of \<^verbatim>\<open>ipv6_neighbor\<close> are never sent.  With a metric library that checks
  the number of label values, the list of neighbours gives no metric at all: the collector panics
  exactly when details are on and a neighbour has a value for \<^verbatim>\<open>reachable\<close> (six values are given
  to five labels), and otherwise returns without having sent anything.
\<close>

lemma ipv6_neighbor_panics:
  assumes "newIPv6NeighborCollector = Return k"
    and "\<And>d ls. cx_accepts c d ls \<Longrightarrow> length ls = length (dc_labels d)"
    and "\<And>ws. cx_Client c ws (ms_world s) = (Return (Inr reply), w')"
  shows "\<exists>r s'. ipv6_neighbor_collectEntries k c s = (r, s') \<and> ms_ch s' = ms_ch s
     \<and> ends (BoolValue (cx_FeatureCfg c) ''details'' False
             \<and> (\<exists>re \<in> set (rep_re reply). mlookup (sen_map re) ''reachable'' \<noteq> '''')) BadMetric r"
proof (cases "BoolValue (cx_FeatureCfg c) ''details'' False")
  case False
  then show ?thesis by (simp add: ipv6_neighbor_collectEntries_def)
next
  case True
  obtain p where p: "ipv6n_metrics k = SimpleMetric p" "sp_property p = ''reachable''" "sp_defaultValue p = ''''"
    "sp_valueConverter p = MetricFromBool" "length (dc_labels (sp_desc p)) = 7"
    using ipv6_neighbor_new [OF assms(1)] by blast
  let ?c = "\<lambda>re. WithLabelsFromMap (sen_map re)
      [''address'', ''interface'', ''mac-address'', ''comment'', ''dhcp'', ''dynamic''] c"
  let ?f = "\<lambda>re. wrapped ''collect error: %w'' [] (Collect (ipv6n_metrics k) (sen_map re) (?c re))"
  have a: "\<not> cx_accepts (?c re) (sp_desc p) (cx_Labels (?c re))" for re
    using assms(2) [of "sp_desc p" "cx_Labels (?c re)"] p(5)
    by (auto simp: WithLabelsFromMap_def)
  have "\<exists>r. Collect (ipv6n_metrics k) (sen_map re) (?c re) t = (r, t)
      \<and> ends (mlookup (sen_map re) ''reachable'' \<noteq> '''') BadMetric r" for re t
    using a [of re] p(2-4)
    by (auto simp: p(1) simple_Collect_def property_value_def mlookup_mget MetricFromBool_def emit_def gseq_def
        gbind_def Let_def split: option.split)
  then have "\<exists>r. ?f re t = (r, t) \<and> ends (mlookup (sen_map re) ''reachable'' \<noteq> '''') BadMetric r" for re t
    by (meson wrapped_ends)
  then have f: "\<exists>r s'. ?f re t = (r, s') \<and> ms_ch s' = ms_ch s
      \<and> ends (mlookup (sen_map re) ''reachable'' \<noteq> '''') BadMetric r" if "ms_ch t = ms_ch s" for re t
    using that by blast
  have "\<exists>r s'. join_loop ?f (rep_re reply) None (s\<lparr>ms_world := w'\<rparr>) = (r, s') \<and> ms_ch s' = ms_ch s
      \<and> ends (\<exists>re \<in> set (rep_re reply). mlookup (sen_map re) ''reachable'' \<noteq> '''') BadMetric r"
    by (rule join_loop_ends [where Q = "\<lambda>t. ms_ch t = ms_ch s"]) (use f in simp_all)
  with True show ?thesis
    by (simp add: ipv6_neighbor_collectEntries_def fetch_answered [OF assms(3)])
qed

end
