(* ===== verification/Spec2Isabelle.thy ===== *)
theory Spec2Isabelle
  imports Server Exceptions
begin

text \<open>
  A model of mikrotik-exporter, a Prometheus exporter that asks Mikrotik routers for their state
  over the RouterOS API and turns the answers into metrics.

  \<^bold>\<open>The program and the theories\<close>

  A scrape goes down through these layers, and every theory rests on the ones before it.

  \<^item> \<open>Prelude\<close>, \<open>Errors\<close>, \<open>Float64\<close>, \<open>Strconv\<close>, \<open>Md5\<close>, \<open>Conn\<close>: what the Go code is written in.  A call that
    reads and writes a state is \<open>('s, 'a) gom\<close> and returns, panics or blocks for ever, on a lock or on a peer that
    falls silent; a Go error
    is a value of \<open>goerror\<close>; \<^verbatim>\<open>float64\<close> is binary64 with one rounding per operation; the
    functions of \<^verbatim>\<open>strconv\<close>, \<^verbatim>\<open>strings\<close> and \<^verbatim>\<open>crypto/md5\<close> the program calls are defined;
    a connection is the bytes still to come and what comes after them, an error or silence for ever, the bytes
    written, and how many more the peer takes before writing fails or waits for ever.
  \<^item> \<open>Proto\<close> (\<^verbatim>\<open>routeros/proto\<close>): lengths, words and sentences on the wire, \<open>ReadSentence\<close> and the writer.
  \<^item> \<open>Client\<close> (\<^verbatim>\<open>routeros\<close>): \<open>Run\<close>, \<open>readReply\<close>, \<open>Login\<close>, \<open>Dial\<close>, \<open>Close\<close>.
  \<^item> \<open>Convert\<close> (\<^verbatim>\<open>internal/convert\<close>): from the texts a device sends to numbers.
  \<^item> \<open>Config\<close> (\<^verbatim>\<open>internal/config\<close>): features, devices, profiles, and \<open>Load\<close>.
  \<^item> \<open>Metrics\<close> (\<^verbatim>\<open>internal/metrics\<close>): the metric builders and the metrics they build.
  \<^item> \<open>Collectors\<close> (\<^verbatim>\<open>internal/collectors/mod.go\<close> and the statements collectors are made of) and
    \<open>Collectors_A\<close> to \<open>Collectors_D\<close>: the forty collectors in alphabetical order, one section each, with
    the struct, the constructor, \<open>Describe\<close>, \<open>Collect\<close> and its steps.
  \<^item> \<open>Registry\<close>: the \<^verbatim>\<open>init\<close> functions that register them.  \<open>Exceptions\<close>: the three collectors that may panic.
  \<^item> \<open>Device\<close> (\<^verbatim>\<open>internal/collector/device_collector.go\<close>): one device, its cached connection, the
    rule of five errors in a row.
  \<^item> \<open>Exporter\<close> (\<^verbatim>\<open>internal/collector/mikrotik_collector.go\<close>, \<^verbatim>\<open>mod.go\<close>): \<open>NewCollector\<close>, \<open>Describe\<close>, SRV records,
    \<open>collectFromDevice\<close>, and the goroutines of a scrape as a step relation.
  \<^item> \<open>Cli\<close> (\<^verbatim>\<open>cli/main.go\<close>): where the configuration comes from.  \<open>Scrapes\<close>: the exporter from one scrape to the next,
    as the states reachable from the collector the program starts with.
  \<^item> \<open>Logging\<close> (\<^verbatim>\<open>internal/config/logging.go\<close>, the methods \<^verbatim>\<open>String\<close>, \<^verbatim>\<open>Error\<close> and \<^verbatim>\<open>LogValue\<close> of all packages): what is
    written about values, and the logger.  \<open>Descriptions\<close>: the catalogue of all metrics, compared with what the
    constructors give.
  \<^item> \<open>Flags\<close> and \<open>Server\<close> (\<^verbatim>\<open>cli/main.go\<close>): the arguments of the program, and \<open>main\<close> from them to the listening server.

  A Go struct is a record, a method a function with the receiver as its first argument, a
  loop a recursive function; names are those of the source, with a prefix for the methods of a
  collector (\<open>dhcp_Collect\<close>).  A Go map is an association list with one entry per key, whose order
  stands for the order a \<^verbatim>\<open>range\<close> happens to take; a map that may be nil is an option.

  \<^bold>\<open>The interfaces\<close>

  \<^item> \<open>stream_decoder\<close>, \<open>stream_codec\<close> (\<open>Proto\<close>): a layer of the protocol reads a value and leaves the rest;
    interpreted for lengths, words, sentences and replies.
  \<^item> \<open>ro_client\<close> (\<open>Client\<close>): a command keeps the client usable, and a reply without error has a
    \<^verbatim>\<open>!done\<close> sentence; it returns, unless the flag \<open>wait\<close> of the contract is true, which allows it to wait for ever.
    Interpreted for \<open>Run\<close> with the flag \<open>silent\<close> of the connection, on clients that are idle and on those that are also open.
  \<^item> \<open>metric_source\<close> (\<open>Metrics\<close>): a metric sends only what it describes, with the labels of the
    context; interpreted for single metrics and for lists.
  \<^item> \<open>safe_collector\<close>, \<open>device_collector\<close>, \<open>announcing_collector\<close> (\<open>Collectors\<close>), each an extension of the one
    before: whatever a client with the contract answers, a collector keeps the client usable, waits for ever
    only where a command of the client does, and its metrics belong to its device; it does not panic either; its metrics are announced.  Interpreted
    for 40, 37 and 33 of the 40 collectors.  The device collector relies on nothing else of them.

  \<^bold>\<open>What the lemmas show\<close>

  Of the protocol: framing and unframing are inverse, prefixes are refused, lengths are right
  modulo \<open>2 ^ 32\<close>.  Of the client: a command returns and leaves the client ready for the next, unless the peer is
  silent, and then a reply that breaks off makes it wait for ever; what
  was sent and consumed, that a reply is what a reference definition says of the sentences, both logins.  Of the
  conversions: dates, durations, pairs of numbers.  Of the configuration: what \<open>Load\<close> guarantees and
  where it panics.  Of the metrics: what is sent, with which labels and values.  Of a device:
  when gathering stops, what a collection leaves behind, a connection that leaks.  Of a scrape: the
  channel gets an interleaving of the whole outputs of the devices, every schedule ends when no peer is silent, one
  silent device keeps the scrape from ever ending, and \<open>Describe\<close> covers what is sent.  Of any number of scrapes: what stays of the devices and their
  connections.  Of the program: how it ends for every command line, when it serves, that its
  descriptions can be registered, and that flags are read back.  The properties are the theorems whose text starts with
  \<^emph>\<open>Property\<close>; those with hypotheses are applied to a concrete input by a theorem named \<^verbatim>\<open>_witness\<close>.

  \<^bold>\<open>Parameters\<close>

  Code that is not in the repository is an argument: the Windows-1250 decoder (\<open>decode\<close>, of which only
  \<open>ascii_decoder\<close> is assumed), the YAML decoder (\<open>unmarshal\<close>), the check of label values in the
  metric library (\<open>accepts\<close>), time zones and the clock, dialing, DNS, the environment, the arguments, the state of
  a context after each collector (\<open>cancelled\<close>) and the measured duration of a scrape, the levels and
  formats of \<^verbatim>\<open>promslog\<close>, and in \<open>system\<close> (\<open>Server\<close>) systemd, the metric registry, the landing page and the
  web server, of which \<open>documented\<close> states what is relied on.  No fuel is used: the loops over the input end because every step consumes bytes,
  all others because they go through a list.

  \<^bold>\<open>Silent peers\<close>

  The program gives its connections no deadline: the time limit of a device bounds only the dialing, and the
  context of a scrape is looked at between two collectors.  So a peer that accepts the connection and then neither answers
  nor closes it keeps a command, a login and a scrape waiting for ever.  This is in the model, as the end \<open>Silent\<close> of
  a stream and \<open>cn_full = Silent\<close> of a connection that takes no more bytes; \<open>silent\<close> tells such a connection, \<open>quiet\<close> a device
  collector that meets one, and every theorem that something returns names it.  That the keep-alive of TCP ends the
  wait when the host itself is gone is the other case, an end \<open>Failed\<close>.  When the peer answers takes no part in the
  model: bytes that come late are bytes still to come.

  \<^bold>\<open>Not modelled\<close>

  The single records that are logged, and the texts of \<^verbatim>\<open>fmt.Errorf\<close> and \<^verbatim>\<open>errors.Join\<close>, whose arguments are kept
  unformatted, as no result depends on them; the collector for the version of the binary that \<^verbatim>\<open>init\<close> of
  \<^verbatim>\<open>cli/main.go\<close> registers with the default registry, which the exporter does not serve; the bodies of the HTTP handlers
  outside the exporter (the landing page and the encoding of metrics), which are library code.  Two scrapes at
  the same time are outside the model: the metrics handler allows one request in flight.  Memory does not run out, also
  not for a word of \<open>2 ^ 32 - 1\<close> bytes, for which \<^verbatim>\<open>readWord\<close> makes a buffer before it reads.  The clock is one number,
  fixed when the collectors are made, whereas \<^verbatim>\<open>UnixTimeFromDuration\<close> asks for the time at every value.  The metric library also
  refuses labels and descriptions that are not valid UTF-8; the model has no such check, as all texts of the program are ASCII and the
  decoder gives valid UTF-8.  The reply that \<open>readReply\<close> returns together with the error of a \<^verbatim>\<open>!trap\<close> is left out, as
  no caller looks at it.
\<close>


section \<open>From the command line to a finished scrape\<close>

text \<open>
  Property C2: the exporter as a whole.  Take any configuration the program starts with, and the
  exporter after any number of scrapes, whatever happened in them.  The next scrape starts, whatever the DNS
  answers, with every device that has no SRV record.  When the wait group is 0 the channel holds, in
  order, all that each device has given, whatever the devices, the network, the context and the metric
  library have done.  Until then some goroutine can go on; only a device whose connection is silent can stop a
  schedule short of that, when all outputs are on the channel, its own up to where it waits.
  No configuration is left out: a feature in the wrong case and the three collectors
  that may panic stop only their own device.
\<close>

theorem configured_scrape:
  assumes "loadConfig unmarshal readFile getenv (AvailableCollectorsNames (registry now)) fl = Return (Inr cfg)"
    and "set (fl_visited fl) \<subseteq> set (defined_flags (AvailableCollectorsNames (registry now)))"
  shows "\<exists>c0. NewCollector (registry now) cfg = Return c0 \<and> length (mk_devices c0) = length (cfg_Devices cfg)
     \<and> (\<forall>e. reachable c0 e \<longrightarrow> (\<exists>devs s0. real_devices resolve (mk_devices (ex_collector e)) = Return devs
          \<and> {d \<in> set (mk_devices (ex_collector e)). \<not> dc_isSrv d} \<subseteq> set devs
          \<and> mikrotik_Collect resolve (from_device decode accepts dialer cancelled duration) (ex_collector e) = Return s0
          \<and> (\<forall>s. step\<^sup>*\<^sup>* s0 s \<longrightarrow>
               (if sc_wg s = 0 then all_sent decode accepts dialer cancelled duration devs (sc_ch s)
                else (\<exists>s'. step s s')
                   \<or> all_sent decode accepts dialer cancelled duration devs (sc_ch s) \<and> some_quiet dialer devs))))"
proof -
  have g: "good_config (AvailableCollectorsNames (registry now)) cfg"
    using loadConfig_result [OF assms(1) registry_lower assms(2)] by (simp add: registered_config_def)
  obtain c0 where c: "NewCollector (registry now) cfg = Return c0"
    and all: "list_all2 (built_for (registry now) cfg) (cfg_Devices cfg) (mk_devices c0)"
    using NewCollector_built [OF g, of now] by blast
  have "\<forall>d \<in> set (mk_devices c0). sound_dc d"
    using all built_sound by (metis in_set_conv_nth list_all2_conv_all_nth)
  then have snd: "\<forall>d \<in> set (mk_devices (ex_collector e)). sound_dc d" if "reachable c0 e" for e
    using reachable_inv [OF that] by (force simp: list_all2_conv_all_nth in_set_conv_nth carries_on_def)
  show ?thesis
  proof (intro exI [of _ c0] conjI allI impI)
    show "NewCollector (registry now) cfg = Return c0" by (rule c)
    show "length (mk_devices c0) = length (cfg_Devices cfg)" using list_all2_lengthD [OF all] by simp
  qed (rule Collect_delivered, rule snd)
qed

theorem configured_scrape_witness:
  "\<exists>c0 s0. NewCollector (registry 0) test_config = Return c0 \<and> length (mk_devices c0) = 1
     \<and> mikrotik_Collect (\<lambda>_ _. Inl ErrNoServersDefined)
         (from_device ascii_only (\<lambda>_ _. True) (\<lambda>_ _ _ _ _. Inl EOF) (\<lambda>_ _. False) (\<lambda>_. f64_zero)) c0 = Return s0"
proof -
  have n: "length (cfg_Devices test_config) = 1" by (simp add: test_config_def)
  let ?net = "from_device ascii_only (\<lambda>_ _. True) (\<lambda>_ _ _ _ _. Inl EOF) (\<lambda>_ _. False) (\<lambda>_. f64_zero)"
  obtain c0 where c: "NewCollector (registry 0) test_config = Return c0" "length (mk_devices c0) = 1"
    and s: "\<forall>e. reachable c0 e \<longrightarrow> (\<exists>s0. mikrotik_Collect (\<lambda>_ _. Inl ErrNoServersDefined) ?net (ex_collector e) = Return s0)"
    using configured_scrape [OF test_config_loads test_visited, of "\<lambda>_ _. Inl ErrNoServersDefined" ascii_only
        "\<lambda>_ _. True" "\<lambda>_ _ _ _ _. Inl EOF" "\<lambda>_ _. False" "\<lambda>_. f64_zero"] unfolding n by blast
  have "reachable c0 \<lparr>ex_collector = c0, ex_gone = []\<rparr>" by (rule started)
  with s obtain s0 where "mikrotik_Collect (\<lambda>_ _. Inl ErrNoServersDefined) ?net
      (ex_collector \<lparr>ex_collector = c0, ex_gone = []\<rparr>) = Return s0" by blast
  with c show ?thesis by auto
qed

end
